(* ===== verification/Prelude.thy ===== *)
theory Prelude
  imports Main "HOL-Library.List_Lexorder" "HOL-Library.Char_ord" "HOL-Library.Sublist"
    "HOL-Library.Word" "HOL-Library.Code_Target_Nat"
begin

text \<open>
  Shared vocabulary: bytes strings are \<^typ>\<open>string\<close> (a Go string is a byte sequence, a
  \<^typ>\<open>char\<close> is a byte, and the order on strings is Go's bytewise order), Go's
  \<open>int\<close> and \<open>int64\<close> are 64-bit words read with \<open>sint\<close>, instants and durations are
  integers counting nanoseconds. The lemmas are the generic facts on strictly sorted lists,
  prefixes and prefix scans that the storage component rests on.
\<close>

named_theorems record_defs \<open>what makes the record of a task sound\<close>

type_synonym go_int = "64 word"
type_synonym time = int
type_synonym duration = int

abbreviation colon :: char where
  "colon \<equiv> CHR '':''"

section \<open>Strictly sorted lists\<close>

definition ssorted :: "'a::linorder list \<Rightarrow> bool" where
  "ssorted xs \<longleftrightarrow> sorted_wrt (<) xs"

lemma ssorted_Nil [simp]: "ssorted []"
  by (simp add: ssorted_def)

lemma ssorted_Cons: "ssorted (x # xs) \<longleftrightarrow> (\<forall>y \<in> set xs. x < y) \<and> ssorted xs"
  by (simp add: ssorted_def)

lemma ssorted_append:
  "ssorted (xs @ ys) \<longleftrightarrow> ssorted xs \<and> ssorted ys \<and> (\<forall>x \<in> set xs. \<forall>y \<in> set ys. x < y)"
  by (auto simp: ssorted_def sorted_wrt_append)

lemma ssorted_distinct: "ssorted xs \<Longrightarrow> distinct xs"
  by (simp add: ssorted_def strict_sorted_iff)

lemma ssorted_map_filter: "ssorted (map f xs) \<Longrightarrow> ssorted (map f (filter P xs))"
  by (induction xs) (auto simp: ssorted_Cons)

lemma ssorted_key_inj:
  assumes "ssorted (map f xs)" and "x \<in> set xs" and "y \<in> set xs" and "f x = f y"
  shows "x = y"
  using ssorted_distinct [OF assms(1)] assms(2-4) by (auto simp: distinct_map dest: inj_onD)

text \<open>Two lists sorted strictly by the same key with the same elements are equal.\<close>

lemma ssorted_set_eq:
  assumes "ssorted (map f xs)" and "ssorted (map f ys)" and "set xs = set ys"
  shows "xs = ys"
proof -
  have "sorted (map f xs)" "sorted (map f ys)"
    using assms(1,2) by (auto simp: ssorted_def intro: strict_sorted_imp_sorted)
  moreover have "distinct (map f xs)" "distinct (map f ys)"
    using assms(1,2) by (auto dest: ssorted_distinct)
  moreover have "inj_on f (set xs \<union> set ys)"
    unfolding assms(3) [symmetric] Un_absorb
    by (rule inj_onI) (rule ssorted_key_inj [OF assms(1)])
  ultimately show ?thesis
    using assms(3) by (intro map_sorted_distinct_set_unique [of f])
qed

section \<open>Searching lists\<close>

lemma find_unique:
  assumes "x \<in> set xs" and "P x" and "\<And>y. y \<in> set xs \<Longrightarrow> P y \<Longrightarrow> y = x"
  shows "find P xs = Some x"
proof (cases "find P xs")
  case None
  with assms(1,2) show ?thesis by (simp add: find_None_iff)
next
  case (Some y)
  have "y \<in> set xs" "P y" using Some by (induction xs) (auto split: if_splits)
  with assms(3) Some show ?thesis by simp
qed

lemma find_SomeD: "find P xs = Some x \<Longrightarrow> x \<in> set xs \<and> P x"
  by (induction xs) (auto split: if_splits)

lemma find_map: "find P (map f xs) = map_option f (find (\<lambda>x. P (f x)) xs)"
  by (induction xs) auto

lemma find_append: "find P (xs @ ys) = (case find P xs of Some x \<Rightarrow> Some x | None \<Rightarrow> find P ys)"
  by (induction xs) auto

lemma find_cong': "(\<And>x. x \<in> set xs \<Longrightarrow> P x = Q x) \<Longrightarrow> find P xs = find Q xs"
  by (rule find_cong) simp_all

section \<open>Prefixes and prefix scans\<close>

text \<open>\<open>strings.HasPrefix\<close> and \<open>strings.HasSuffix\<close>.\<close>

abbreviation has_prefix :: "string \<Rightarrow> string \<Rightarrow> bool" where
  "has_prefix p s \<equiv> prefix p s"

abbreviation has_suffix :: "string \<Rightarrow> string \<Rightarrow> bool" where
  "has_suffix p s \<equiv> suffix p s"

lemma prefix_le: "prefix p (s::string) \<Longrightarrow> p \<le> s"
proof (induction p arbitrary: s)
  case (Cons a p)
  then show ?case by (cases s) auto
qed simp

lemma append_less_append: "p @ s < p @ t \<longleftrightarrow> s < (t::string)"
  by (induction p) auto

lemma append_le_append: "p @ s \<le> p @ t \<longleftrightarrow> s \<le> (t::string)"
  by (induction p) auto

text \<open>Between a prefix and one of its extensions, every string has the prefix.\<close>

lemma prefix_between:
  "(p::string) \<le> k \<Longrightarrow> k \<le> k' \<Longrightarrow> prefix p k' \<Longrightarrow> prefix p k"
proof (induction p arbitrary: k k')
  case (Cons a p)
  then obtain b k1 where k: "k = b # k1" by (cases k) auto
  from Cons.prems(3) obtain k1' where k': "k' = a # k1'" by (cases k') auto
  from Cons.prems k k' have "a = b" by auto
  with Cons k k' show ?case by auto
qed simp

lemma takeWhile_dropWhile_prefix:
  assumes "ssorted (map f xs)"
  shows "takeWhile (\<lambda>x. prefix p (f x)) (dropWhile (\<lambda>x. f x < s) xs)
    = (if p \<le> s then filter (\<lambda>x. prefix p (f x) \<and> s \<le> f x) xs
       else takeWhile (\<lambda>x. prefix p (f x)) (dropWhile (\<lambda>x. f x < (s::string)) xs))"
proof (cases "p \<le> s")
  case True
  have tail: "takeWhile (\<lambda>x. prefix p (f x)) ys = filter (\<lambda>x. prefix p (f x) \<and> s \<le> f x) ys"
    if "ssorted (map f ys)" "\<forall>y \<in> set ys. s \<le> f y" for ys
    using that
  proof (induction ys)
    case (Cons y ys)
    show ?case
    proof (cases "prefix p (f y)")
      case False
      have "\<not> prefix p (f z)" if "z \<in> set ys" for z
      proof
        assume "prefix p (f z)"
        moreover have "p \<le> f y" using True Cons.prems by auto
        moreover have "f y \<le> f z" using Cons.prems that by (auto simp: ssorted_Cons less_imp_le)
        ultimately show False using False prefix_between by blast
      qed
      with False show ?thesis by (auto simp: filter_empty_conv)
    qed (use Cons in \<open>auto simp: ssorted_Cons\<close>)
  qed simp
  have "takeWhile (\<lambda>x. prefix p (f x)) (dropWhile (\<lambda>x. f x < s) xs)
      = filter (\<lambda>x. prefix p (f x) \<and> s \<le> f x) xs"
    using assms
  proof (induction xs)
    case (Cons x xs)
    show ?case
    proof (cases "f x < s")
      case False
      then have "\<forall>y \<in> set (x # xs). s \<le> f y"
        using Cons.prems by (fastforce simp: ssorted_Cons)
      with False Cons.prems tail [of "x # xs"] show ?thesis by simp
    qed (use Cons in \<open>auto simp: ssorted_Cons\<close>)
  qed simp
  with True show ?thesis by simp
qed simp

lemma scan_eq_filter:
  assumes "ssorted (map f xs)" and "p \<le> s"
  shows "takeWhile (\<lambda>x. prefix p (f x)) (dropWhile (\<lambda>x. f x < (s::string)) xs)
    = filter (\<lambda>x. prefix p (f x) \<and> s \<le> f x) xs"
  using takeWhile_dropWhile_prefix [OF assms(1), of p s] assms(2) by simp

lemma distinct_singleton_set: "distinct xs \<Longrightarrow> set xs = {a} \<Longrightarrow> xs = [a]"
proof (cases xs)
  case (Cons y ys)
  then show "distinct xs \<Longrightarrow> set xs = {a} \<Longrightarrow> xs = [a]" by (cases ys) auto
qed simp

text \<open>Two maps with the same entries are equal.\<close>

lemma map_eqI: "(\<And>x u. m x = Some u \<longleftrightarrow> m' x = Some u) \<Longrightarrow> m = m'"
  by (rule ext) (metis not_None_eq)

end
