(* ===== verification/GoText.thy ===== *)
theory GoText
  imports Prelude
begin

text \<open>
  The part of Go's \<open>strconv\<close>, \<open>strings\<close> and \<open>fmt\<close> that Schedy uses on keys,
  query parameters and headers: decimal printing (\<open>%d\<close>, \<open>%016d\<close>), \<open>ParseInt\<close> in
  base 10 (and \<open>Atoi\<close>, which is the same on a 64-bit machine), \<open>SplitN\<close> and \<open>Split\<close>
  on a one-byte separator, \<open>TrimSpace\<close>, and \<open>ToUpper\<close>, \<open>ToLower\<close> and case folding as far
  as a comparison with an ASCII text can tell.
  Proved: printing and parsing are inverse, zero-padded numbers of one width are ordered as
  strings exactly as they are as numbers, splitting a joined string gives the parts back.
\<close>

section \<open>Decimal digits\<close>

definition digit_char :: "nat \<Rightarrow> char" where
  "digit_char d = char_of (48 + d)"

definition is_digit :: "char \<Rightarrow> bool" where
  "is_digit c \<longleftrightarrow> 48 \<le> (of_char c :: nat) \<and> (of_char c :: nat) \<le> 57"

definition digit_val :: "char \<Rightarrow> nat" where
  "digit_val c = of_char c - 48"

lemma of_char_digit [simp]: "d < 10 \<Longrightarrow> of_char (digit_char d) = (48 + d :: nat)"
  by (simp add: digit_char_def)

lemma is_digit_digit_char [simp]: "d < 10 \<Longrightarrow> is_digit (digit_char d)"
  by (simp add: is_digit_def)

lemma digit_val_digit_char [simp]: "d < 10 \<Longrightarrow> digit_val (digit_char d) = d"
  by (simp add: digit_val_def)

lemma digit_char_less [simp]:
  "a < 10 \<Longrightarrow> b < 10 \<Longrightarrow> digit_char a < digit_char b \<longleftrightarrow> a < b"
  by (simp add: less_char_def)

lemma digit_char_eq [simp]:
  "a < 10 \<Longrightarrow> b < 10 \<Longrightarrow> digit_char a = digit_char b \<longleftrightarrow> a = b"
  by (metis digit_val_digit_char)

lemma not_digit_special [simp]:
  "\<not> is_digit colon" "\<not> is_digit (CHR ''-'')" "\<not> is_digit (CHR ''+'')"
  by (simp_all add: is_digit_def)

fun dec_digits :: "nat \<Rightarrow> string" where
  "dec_digits n = (if n < 10 then [digit_char n] else dec_digits (n div 10) @ [digit_char (n mod 10)])"

declare dec_digits.simps [simp del]

text \<open>\<open>%d\<close> of a signed integer.\<close>

definition dec_int :: "int \<Rightarrow> string" where
  "dec_int n = (if n < 0 then CHR ''-'' # dec_digits (nat (- n)) else dec_digits (nat n))"

definition pad0 :: "nat \<Rightarrow> string \<Rightarrow> string" where
  "pad0 w s = replicate (w - length s) (CHR ''0'') @ s"

text \<open>\<open>%016d\<close>: zero padding to width 16, a minus sign first and counted in the width.\<close>

definition fmt016d :: "int \<Rightarrow> string" where
  "fmt016d n = (if n < 0 then CHR ''-'' # pad0 15 (dec_digits (nat (- n)))
     else pad0 16 (dec_digits (nat n)))"

text \<open>Digits of a fixed width, most significant first.\<close>

fun fixed_digits :: "nat \<Rightarrow> nat \<Rightarrow> string" where
  "fixed_digits 0 n = []"
| "fixed_digits (Suc w) n = fixed_digits w (n div 10) @ [digit_char (n mod 10)]"

lemma length_fixed_digits [simp]: "length (fixed_digits w n) = w"
  by (induction w arbitrary: n) auto

lemma zero_char: "CHR ''0'' = digit_char 0"
  by code_simp

lemma fixed_digits_0: "fixed_digits w 0 = replicate w (CHR ''0'')"
  by (induction w) (auto simp: zero_char replicate_append_same)

lemma length_dec_digits: "0 < w \<Longrightarrow> n < 10 ^ w \<Longrightarrow> length (dec_digits n) \<le> w"
proof (induction n arbitrary: w rule: dec_digits.induct)
  case (1 n)
  show ?case
  proof (cases "n < 10")
    case False
    with "1.prems" obtain v where w: "w = Suc v" and v: "0 < v"
      by (cases w; cases "w - 1") auto
    with "1.prems" have "n div 10 < 10 ^ v" by (simp add: less_mult_imp_div_less)
    with "1.IH" [OF False v] False w show ?thesis
      by (subst dec_digits.simps) simp
  qed (use "1.prems" in \<open>subst dec_digits.simps, simp\<close>)
qed

lemma pad0_dec_digits: "0 < w \<Longrightarrow> n < 10 ^ w \<Longrightarrow> pad0 w (dec_digits n) = fixed_digits w n"
proof (induction n arbitrary: w rule: dec_digits.induct)
  case (1 n)
  from "1.prems" obtain v where w: "w = Suc v" by (cases w) auto
  show ?case
  proof (cases "n < 10")
    case True
    with w show ?thesis
      by (subst dec_digits.simps) (simp add: pad0_def fixed_digits_0)
  next
    case False
    with "1.prems" w have v: "0 < v" by (cases v) auto
    have "n div 10 < 10 ^ v" using "1.prems" w by (simp add: less_mult_imp_div_less)
    with "1.IH" [OF False v] False w v show ?thesis
      by (subst dec_digits.simps) (simp add: pad0_def)
  qed
qed

lemma snoc_less_snoc:
  "length xs = length ys \<Longrightarrow> xs @ [a] < ys @ [b] \<longleftrightarrow> xs < ys \<or> xs = ys \<and> a < (b::'a::linorder)"
  by (induction xs ys rule: list_induct2) auto

lemma div10_less: "a < b \<longleftrightarrow> a div 10 < b div 10 \<or> a div 10 = b div 10 \<and> a mod 10 < b mod (10::nat)"
  using div_mult_mod_eq [of a 10] div_mult_mod_eq [of b 10]
    mod_less_divisor [of 10 a] mod_less_divisor [of 10 b]
  by linarith

lemma div10_eq: "a = b \<longleftrightarrow> a div 10 = b div 10 \<and> a mod 10 = b mod (10::nat)"
  by (metis div_mult_mod_eq)

lemma fixed_digits_less:
  "a < 10 ^ w \<Longrightarrow> b < 10 ^ w \<Longrightarrow>
   (fixed_digits w a < fixed_digits w b \<longleftrightarrow> a < b) \<and> (fixed_digits w a = fixed_digits w b \<longleftrightarrow> a = b)"
proof (induction w arbitrary: a b)
  case (Suc w)
  have "a div 10 < 10 ^ w" "b div 10 < 10 ^ w"
    using Suc.prems by (simp_all add: less_mult_imp_div_less)
  then have IH: "fixed_digits w (a div 10) < fixed_digits w (b div 10) \<longleftrightarrow> a div 10 < b div 10"
    "fixed_digits w (a div 10) = fixed_digits w (b div 10) \<longleftrightarrow> a div 10 = b div 10"
    using Suc.IH by blast+
  with IH div10_less [of a b] div10_eq [of a b] show ?case by (simp add: snoc_less_snoc)
qed simp

text \<open>Sixteen digits cover every non-negative second below the year 316889335.\<close>

definition fits16 :: "int \<Rightarrow> bool" where
  "fits16 n \<longleftrightarrow> 0 \<le> n \<and> n < 10 ^ 16"

lemma fmt016d_fixed: "fits16 n \<Longrightarrow> fmt016d n = fixed_digits 16 (nat n)"
  by (simp add: fits16_def fmt016d_def pad0_dec_digits nat_less_iff)

lemma length_fmt016d: "fits16 n \<Longrightarrow> length (fmt016d n) = 16"
  by (simp add: fmt016d_fixed)

lemma fmt016d_less: "fits16 a \<Longrightarrow> fits16 b \<Longrightarrow> fmt016d a < fmt016d b \<longleftrightarrow> a < b"
  using fixed_digits_less [of "nat a" 16 "nat b"]
  by (auto simp: fmt016d_fixed) (auto simp: fits16_def nat_less_iff)

lemma fmt016d_eq: "fits16 a \<Longrightarrow> fits16 b \<Longrightarrow> fmt016d a = fmt016d b \<longleftrightarrow> a = b"
  using fixed_digits_less [of "nat a" 16 "nat b"]
  by (auto simp: fmt016d_fixed) (auto simp: fits16_def nat_less_iff)

lemma fmt016d_le: "fits16 a \<Longrightarrow> fits16 b \<Longrightarrow> fmt016d a \<le> fmt016d b \<longleftrightarrow> a \<le> b"
  by (metis fmt016d_eq fmt016d_less order_le_less)

section \<open>Parsing integers\<close>

definition digits_value :: "string \<Rightarrow> nat" where
  "digits_value s = foldl (\<lambda>n c. 10 * n + digit_val c) 0 s"

definition parse_digits :: "string \<Rightarrow> nat option" where
  "parse_digits s = (if s = [] \<or> \<not> list_all is_digit s then None else Some (digits_value s))"

definition in_int64 :: "int \<Rightarrow> bool" where
  "in_int64 n \<longleftrightarrow> - (2 ^ 63) \<le> n \<and> n < 2 ^ 63"

text \<open>
  \<open>strconv.ParseInt(s, 10, 64)\<close>, and \<open>strconv.Atoi\<close> where \<open>int\<close> has 64 bits: an optional
  sign, at least one digit, and a value in range; anything else is an error (\<open>None\<close>).
\<close>

definition parse_int64 :: "string \<Rightarrow> int option" where
  "parse_int64 s =
     (let (neg, ds) = (case s of
          [] \<Rightarrow> (False, [])
        | c # cs \<Rightarrow> if c = CHR ''-'' then (True, cs) else if c = CHR ''+'' then (False, cs) else (False, s))
      in case parse_digits ds of
          None \<Rightarrow> None
        | Some n \<Rightarrow> (let v = (if neg then - int n else int n) in if in_int64 v then Some v else None))"

lemma parse_int64_range: "parse_int64 s = Some n \<Longrightarrow> in_int64 n"
  by (auto simp: parse_int64_def Let_def split: list.splits if_splits option.splits prod.splits)

lemma digits_value_snoc [simp]: "digits_value (s @ [c]) = 10 * digits_value s + digit_val c"
  by (simp add: digits_value_def)

lemma digits_value_fixed: "n < 10 ^ w \<Longrightarrow> digits_value (fixed_digits w n) = n"
proof (induction w arbitrary: n)
  case (Suc w)
  then have "n div 10 < 10 ^ w" by (simp add: less_mult_imp_div_less)
  with Suc.IH show ?case by simp
qed (simp add: digits_value_def)

lemma fixed_digits_all: "list_all is_digit (fixed_digits w n)"
  by (induction w arbitrary: n) auto

lemma colon_not_in_fixed: "colon \<notin> set (fixed_digits w n)"
  using fixed_digits_all [of w n] not_digit_special(1) by (auto simp: list_all_iff)

lemma colon_not_in_fmt016d: "fits16 n \<Longrightarrow> colon \<notin> set (fmt016d n)"
  by (simp add: fmt016d_fixed colon_not_in_fixed)

lemma parse_int64_fmt016d:
  assumes "fits16 n"
  shows "parse_int64 (fmt016d n) = Some n"
proof -
  obtain c cs where s: "fixed_digits 16 (nat n) = c # cs"
    by (metis length_fixed_digits length_0_conv list.exhaust numeral_eq_Suc nat.distinct(1))
  then have "is_digit c" using fixed_digits_all [of 16 "nat n"] by simp
  then have c: "c \<noteq> CHR ''-''" "c \<noteq> CHR ''+''" by auto
  have "parse_digits (c # cs) = Some (nat n)"
    using assms fixed_digits_all [of 16 "nat n"] digits_value_fixed [of "nat n" 16]
    by (simp add: s parse_digits_def fits16_def nat_less_iff)
  with assms c show ?thesis
    by (simp add: fmt016d_fixed s parse_int64_def fits16_def in_int64_def)
qed

section \<open>Splitting\<close>

fun split_first :: "char \<Rightarrow> string \<Rightarrow> (string \<times> string) option" where
  "split_first c [] = None"
| "split_first c (x # xs) =
     (if x = c then Some ([], xs)
      else case split_first c xs of None \<Rightarrow> None | Some (a, b) \<Rightarrow> Some (x # a, b))"

text \<open>\<open>strings.SplitN(s, sep, n)\<close> for a one-byte separator and \<open>n > 0\<close>.\<close>

fun splitN :: "nat \<Rightarrow> char \<Rightarrow> string \<Rightarrow> string list" where
  "splitN 0 c s = []"
| "splitN (Suc 0) c s = [s]"
| "splitN (Suc (Suc n)) c s =
     (case split_first c s of None \<Rightarrow> [s] | Some (a, b) \<Rightarrow> a # splitN (Suc n) c b)"

lemma split_first_append: "c \<notin> set a \<Longrightarrow> split_first c (a @ c # b) = Some (a, b)"
  by (induction a) auto

lemma splitN_step: "c \<notin> set a \<Longrightarrow> splitN (Suc (Suc n)) c (a @ c # b) = a # splitN (Suc n) c b"
  by (simp add: split_first_append)

text \<open>\<open>strings.Split\<close> on a one-byte separator, and \<open>strings.Join\<close>.\<close>

fun split_on :: "char \<Rightarrow> string \<Rightarrow> string list" where
  "split_on c [] = [[]]"
| "split_on c (x # xs) =
     (if x = c then [] # split_on c xs
      else case split_on c xs of [] \<Rightarrow> [[x]] | p # ps \<Rightarrow> (x # p) # ps)"

fun join_with :: "char \<Rightarrow> string list \<Rightarrow> string" where
  "join_with c [] = []"
| "join_with c [p] = p"
| "join_with c (p # q # ps) = p @ c # join_with c (q # ps)"

lemma split_on_no_sep: "c \<notin> set p \<Longrightarrow> split_on c p = [p]"
  by (induction p) auto

lemma split_on_append: "c \<notin> set p \<Longrightarrow> split_on c (p @ c # s) = p # split_on c s"
  by (induction p) auto

lemma split_on_join: "ps \<noteq> [] \<Longrightarrow> \<forall>p \<in> set ps. c \<notin> set p \<Longrightarrow> split_on c (join_with c ps) = ps"
  by (induction c ps rule: join_with.induct) (auto simp: split_on_no_sep split_on_append)

text \<open>A suffix that starts with a separator picks the last component of a split.\<close>

lemma suffix_sep_unique:
  fixes c :: char
  assumes "c \<notin> set a" and "c \<notin> set b"
  shows "suffix (c # a) (s @ c # b) \<longleftrightarrow> a = b"
proof
  assume "suffix (c # a) (s @ c # b)"
  then obtain z where "s @ c # b = z @ c # a" by (auto simp: suffix_def)
  then have "rev b @ c # rev s = rev a @ c # rev z"
    by (metis append.assoc append_Cons append_Nil rev.simps(2) rev_append)
  then have "split_first c (rev b @ c # rev s) = split_first c (rev a @ c # rev z)" by simp
  with assms show "a = b" by (simp add: split_first_append)
qed (simp add: suffix_def)

section \<open>Letter case\<close>

definition byte_upper :: "char \<Rightarrow> char" where
  "byte_upper c = (let n = of_char c :: nat in if 97 \<le> n \<and> n \<le> 122 then char_of (n - 32) else c)"

definition byte_lower :: "char \<Rightarrow> char" where
  "byte_lower c = (let n = of_char c :: nat in if 65 \<le> n \<and> n \<le> 90 then char_of (n + 32) else c)"

text \<open>Replacing a two-byte or three-byte character.\<close>

fun subst2 :: "char \<Rightarrow> char \<Rightarrow> char \<Rightarrow> string \<Rightarrow> string" where
  "subst2 a b c (x # y # s) =
     (if x = a \<and> y = b then c # subst2 a b c s else x # subst2 a b c (y # s))"
| "subst2 a b c s = s"

fun subst3 :: "char \<Rightarrow> char \<Rightarrow> char \<Rightarrow> char \<Rightarrow> string \<Rightarrow> string" where
  "subst3 a b c d (x # y # z # s) =
     (if x = a \<and> y = b \<and> z = c then d # subst3 a b c d s else x # subst3 a b c d (y # z # s))"
| "subst3 a b c d s = s"

text \<open>
  Folding a name, as \<open>strings.EqualFold\<close> and the JSON decoder do before they compare it with
  an ASCII one: the only other characters that fold to an ASCII letter are the long s and the
  Kelvin sign.
\<close>

definition fold_name :: "string \<Rightarrow> string" where
  "fold_name s = map byte_upper
     (subst2 (CHR 0xC5) (CHR 0xBF) (CHR ''S'') (subst3 (CHR 0xE2) (CHR 0x84) (CHR 0xAA) (CHR ''K'') s))"

text \<open>
  \<open>strings.ToUpper\<close> and \<open>strings.ToLower\<close> as far as a comparison with an ASCII text can tell:
  besides the ASCII letters, the long s and the dotless i have an ASCII upper case, the
  capital dotted I and the Kelvin sign an ASCII lower case.
\<close>

definition to_upper :: "string \<Rightarrow> string" where
  "to_upper s = map byte_upper
     (subst2 (CHR 0xC5) (CHR 0xBF) (CHR ''S'') (subst2 (CHR 0xC4) (CHR 0xB1) (CHR ''I'') s))"

definition to_lower :: "string \<Rightarrow> string" where
  "to_lower s = map byte_lower
     (subst2 (CHR 0xC4) (CHR 0xB0) (CHR ''i'') (subst3 (CHR 0xE2) (CHR 0x84) (CHR 0xAA) (CHR ''k'') s))"

section \<open>Trimming\<close>

text \<open>The UTF-8 forms of the characters that \<open>unicode.IsSpace\<close> accepts.\<close>

definition white_chars :: "string list" where
  "white_chars =
     map (\<lambda>n. [char_of n]) [9, 10, 11, 12, 13, 32 :: nat]
     @ [[CHR 0xC2, CHR 0x85], [CHR 0xC2, CHR 0xA0], [CHR 0xE1, CHR 0x9A, CHR 0x80]]
     @ map (\<lambda>n. [CHR 0xE2, CHR 0x80, char_of n]) ([0x80 ..< 0x8B] @ [0xA8, 0xA9, 0xAF :: nat])
     @ [[CHR 0xE2, CHR 0x81, CHR 0x9F], [CHR 0xE3, CHR 0x80, CHR 0x80]]"

function strip_words :: "string list \<Rightarrow> string \<Rightarrow> string" where
  "strip_words ws s =
     (case find (\<lambda>w. w \<noteq> [] \<and> prefix w s) ws of
        None \<Rightarrow> s
      | Some w \<Rightarrow> strip_words ws (drop (length w) s))"
  by pat_completeness auto
termination
  by (relation "measure (\<lambda>(ws, s). length s)") (auto dest!: find_SomeD simp: prefix_def)

declare strip_words.simps [simp del]

text \<open>\<open>strings.TrimSpace\<close>\<close>

definition trim_space :: "string \<Rightarrow> string" where
  "trim_space s = rev (strip_words (map rev white_chars) (rev (strip_words white_chars s)))"

lemma strip_words_id: "(\<And>w. w \<in> set ws \<Longrightarrow> w \<noteq> [] \<Longrightarrow> \<not> prefix w s) \<Longrightarrow> strip_words ws s = s"
  by (subst strip_words.simps) (auto simp: find_None_iff split: option.split dest!: find_SomeD)

end
