(* ===== verification/GoTime.thy ===== *)
theory GoTime
  imports GoText
begin

text \<open>
  Go's \<open>time\<close> on integers: an instant is a number of nanoseconds since the Unix epoch, a
  \<open>time.Duration\<close> a number of nanoseconds in the range of \<open>int64\<close>. \<open>Sub\<close> saturates at
  that range, \<open>Unix\<close> rounds down to the second, duration arithmetic wraps around.
\<close>

definition Nanosecond :: duration where "Nanosecond = 1"
definition Microsecond :: duration where "Microsecond = 1000"
definition Millisecond :: duration where "Millisecond = 1000000"
definition Second :: duration where "Second = 1000000000"
definition Minute :: duration where "Minute = 60 * Second"
definition Hour :: duration where "Hour = 60 * Minute"

lemmas duration_defs = Nanosecond_def Microsecond_def Millisecond_def Second_def Minute_def Hour_def

definition Unix :: "time \<Rightarrow> int" where
  "Unix t = t div Second"

definition min_duration :: duration where "min_duration = - (2 ^ 63)"
definition max_duration :: duration where "max_duration = 2 ^ 63 - 1"

definition time_Sub :: "time \<Rightarrow> time \<Rightarrow> duration" where
  "time_Sub t u = max min_duration (min max_duration (t - u))"

text \<open>\<open>Duration.Abs\<close>: the least duration becomes the greatest one.\<close>

definition dur_Abs :: "duration \<Rightarrow> duration" where
  "dur_Abs d = (if 0 \<le> d then d else if d = min_duration then max_duration else - d)"

lemma Unix_mono: "t \<le> u \<Longrightarrow> Unix t \<le> Unix u"
  by (simp add: Unix_def Second_def zdiv_mono1)

lemma Unix_less: "Unix t < Unix u \<Longrightarrow> t < u"
  using Unix_mono by (meson leD le_less_linear)

lemma Unix_nonneg: "0 \<le> t \<Longrightarrow> 0 \<le> Unix t"
  by (simp add: Unix_def Second_def pos_imp_zdiv_nonneg_iff)

lemma dur_Abs_Sub_less:
  "0 \<le> d \<Longrightarrow> d \<le> max_duration \<Longrightarrow> dur_Abs (time_Sub t u) < d \<longleftrightarrow> \<bar>t - u\<bar> < d"
  by (auto simp: dur_Abs_def time_Sub_def min_duration_def max_duration_def)

section \<open>Rounding and printing durations\<close>

definition trunc_mod :: "int \<Rightarrow> int \<Rightarrow> int" where
  "trunc_mod a b = sgn a * (\<bar>a\<bar> mod \<bar>b\<bar>)"

text \<open>\<open>Duration.Round(m)\<close>: halfway values go away from zero, the range saturates.\<close>

definition dur_Round :: "duration \<Rightarrow> duration \<Rightarrow> duration" where
  "dur_Round d m =
     (if m \<le> 0 then d
      else let r = trunc_mod d m in
        if d < 0 then
          (if 2 * (- r) < m then d - r
           else if min_duration \<le> d - m - r then d - m - r else min_duration)
        else
          (if 2 * r < m then d - r
           else if d + m - r \<le> max_duration then d + m - r else max_duration))"

definition frac_digits :: "nat \<Rightarrow> nat \<Rightarrow> string" where
  "frac_digits p n =
     (let ds = rev (dropWhile (\<lambda>c. c = CHR ''0'') (rev (fixed_digits p n)))
      in if ds = [] then [] else CHR ''.'' # ds)"

definition with_frac :: "nat \<Rightarrow> nat \<Rightarrow> string" where
  "with_frac p u = dec_digits (u div 10 ^ p) @ frac_digits p (u mod 10 ^ p)"

text \<open>\<open>Duration.String\<close>; the micro sign is the two bytes of its UTF-8 form.\<close>

definition dur_String :: "duration \<Rightarrow> string" where
  "dur_String d =
     (let u = nat \<bar>d\<bar>; sign = (if d < 0 then ''-'' else []) in
      if u = 0 then ''0s''
      else if u < 1000 then sign @ dec_digits u @ ''ns''
      else if u < 1000000 then sign @ with_frac 3 u @ [CHR 0xC2, CHR 0xB5, CHR ''s'']
      else if u < 1000000000 then sign @ with_frac 6 u @ ''ms''
      else
        let secs = u div 1000000000;
            s = dec_digits (secs mod 60) @ frac_digits 9 (u mod 1000000000) @ ''s'';
            mins = secs div 60;
            hours = mins div 60
        in if mins = 0 then sign @ s
           else if hours = 0 then sign @ dec_digits (mins mod 60) @ ''m'' @ s
           else sign @ dec_digits hours @ ''h'' @ dec_digits (mins mod 60) @ ''m'' @ s)"

text \<open>\<open>time.Time.MarshalJSON\<close> refuses a year outside 0 to 9999.\<close>

definition time_json_ok :: "time \<Rightarrow> bool" where
  "time_json_ok t \<longleftrightarrow> - 62167219200 * Second \<le> t \<and> t < 253402300800 * Second"

end
