(* ===== verification/Base64Url.thy ===== *)
theory Base64Url
  imports Prelude
begin

text \<open>
  Go's \<open>base64.RawURLEncoding\<close> (RFC 4648 section 5, no padding), which makes a storage
  key into a listing cursor. Decoding follows \<open>DecodeString\<close>: carriage returns and line
  feeds are skipped, any other byte outside the alphabet is an error, a last group of one
  character is an error, and left-over bits of a short last group are ignored.
  Proved: decoding an encoding gives the bytes back, and only the empty string encodes to
  the empty string.
\<close>

definition b64_alphabet :: string where
  "b64_alphabet = ''ABCDEFGHIJKLMNOPQRSTUVWXYZabcdefghijklmnopqrstuvwxyz0123456789-_''"

definition b64_char :: "nat \<Rightarrow> char" where
  "b64_char n = b64_alphabet ! n"

fun index_of :: "char \<Rightarrow> string \<Rightarrow> nat option" where
  "index_of c [] = None"
| "index_of c (x # xs) = (if x = c then Some 0 else map_option Suc (index_of c xs))"

definition b64_val :: "char \<Rightarrow> nat option" where
  "b64_val c = index_of c b64_alphabet"

fun b64_groups :: "nat list \<Rightarrow> nat list" where
  "b64_groups [] = []"
| "b64_groups [a] = [a div 4, (a mod 4) * 16]"
| "b64_groups [a, b] = [a div 4, (a mod 4) * 16 + b div 16, (b mod 16) * 4]"
| "b64_groups (a # b # c # r) =
     [a div 4, (a mod 4) * 16 + b div 16, (b mod 16) * 4 + c div 64, c mod 64] @ b64_groups r"

fun b64_ungroup :: "nat list \<Rightarrow> nat list option" where
  "b64_ungroup [] = Some []"
| "b64_ungroup [p] = None"
| "b64_ungroup [p, q] = Some [p * 4 + q div 16]"
| "b64_ungroup [p, q, r] = Some [p * 4 + q div 16, (q mod 16) * 16 + r div 4]"
| "b64_ungroup (p # q # r # s # t) =
     map_option (\<lambda>u. [p * 4 + q div 16, (q mod 16) * 16 + r div 4, (r mod 4) * 64 + s] @ u)
       (b64_ungroup t)"

fun b64_vals :: "string \<Rightarrow> nat list option" where
  "b64_vals [] = Some []"
| "b64_vals (c # cs) =
     (case b64_val c of None \<Rightarrow> None | Some v \<Rightarrow> map_option (\<lambda>vs. v # vs) (b64_vals cs))"

definition b64_encode :: "string \<Rightarrow> string" where
  "b64_encode s = map b64_char (b64_groups (map of_char s))"

definition b64_decode :: "string \<Rightarrow> string option" where
  "b64_decode s =
     (case b64_vals (filter (\<lambda>c. c \<noteq> CHR 0x0A \<and> c \<noteq> CHR 0x0D) s) of
        None \<Rightarrow> None
      | Some vs \<Rightarrow> map_option (map char_of) (b64_ungroup vs))"

lemma length_b64_alphabet: "length b64_alphabet = 64"
  by (simp add: b64_alphabet_def)

lemma distinct_b64_alphabet: "distinct b64_alphabet"
  by (simp add: b64_alphabet_def)

lemma index_of_nth: "distinct xs \<Longrightarrow> n < length xs \<Longrightarrow> index_of (xs ! n) xs = Some n"
proof (induction xs arbitrary: n)
  case (Cons x xs)
  then show ?case by (cases n) (auto simp: nth_mem)
qed simp

lemma b64_val_char [simp]: "n < 64 \<Longrightarrow> b64_val (b64_char n) = Some n"
  by (simp add: b64_val_def b64_char_def index_of_nth distinct_b64_alphabet length_b64_alphabet)

lemma b64_no_newline: "list_all (\<lambda>c. c \<noteq> CHR 0x0A \<and> c \<noteq> CHR 0x0D) b64_alphabet"
  by (simp add: b64_alphabet_def)

lemma b64_char_no_newline: "n < 64 \<Longrightarrow> b64_char n \<noteq> CHR 0x0A \<and> b64_char n \<noteq> CHR 0x0D"
  using b64_no_newline by (simp add: b64_char_def list_all_length length_b64_alphabet)

lemma b64_groups_less: "\<forall>x \<in> set xs. x < 256 \<Longrightarrow> \<forall>y \<in> set (b64_groups xs). y < 64"
proof (induction xs rule: b64_groups.induct)
  case (2 a)
  then show ?case by (simp add: less_mult_imp_div_less)
next
  case (3 a b)
  then have "b div 16 < 16" "a mod 4 < 4" "a div 4 < 64" by auto
  then show ?case by simp
next
  case (4 a b c r)
  then have "b div 16 < 16" "a mod 4 < 4" "a div 4 < 64" "c div 64 < 4" "b mod 16 < 16" by auto
  then have "(a mod 4) * 16 + b div 16 < 64" "(b mod 16) * 4 + c div 64 < 64" by linarith+
  with 4 \<open>a div 4 < 64\<close> show ?case by simp
qed simp

lemma b64_ungroup_groups: "\<forall>x \<in> set xs. x < 256 \<Longrightarrow> b64_ungroup (b64_groups xs) = Some xs"
proof (induction xs rule: b64_groups.induct)
  case (2 a)
  then show ?case by simp
next
  case (3 a b)
  then have "b div 16 < 16" by auto
  then show ?case by simp
next
  case (4 a b c r)
  then have "b div 16 < 16" "c div 64 < 4" by auto
  with 4 show ?case by simp
qed simp

lemma b64_vals_map: "\<forall>v \<in> set vs. v < 64 \<Longrightarrow> b64_vals (map b64_char vs) = Some vs"
  by (induction vs) auto

lemma b64_decode_encode: "b64_decode (b64_encode s) = Some s"
proof -
  let ?vs = "b64_groups (map of_char s)"
  have less: "\<forall>v \<in> set ?vs. v < 64"
    by (rule b64_groups_less) auto
  then have "filter (\<lambda>c. c \<noteq> CHR 0x0A \<and> c \<noteq> CHR 0x0D) (map b64_char ?vs) = map b64_char ?vs"
    by (auto simp: filter_id_conv b64_char_no_newline)
  moreover have "b64_ungroup ?vs = Some (map of_char s)"
    by (rule b64_ungroup_groups) auto
  ultimately show ?thesis
    by (simp add: b64_decode_def b64_encode_def b64_vals_map [OF less] o_def)
qed

lemma b64_encode_Nil_iff: "b64_encode s = [] \<longleftrightarrow> s = []"
proof
  assume "b64_encode s = []"
  then have "b64_decode [] = Some s" using b64_decode_encode [of s] by simp
  then show "s = []" by (simp add: b64_decode_def)
qed (simp add: b64_encode_def)

end
