(* ===== verification/Json.thy ===== *)
theory Json
  imports Prelude "HOL-Library.Monad_Syntax"
begin

text \<open>
  JSON documents as \<open>encoding/json\<close> sees them, one level above their text. A number that
  is an integer is \<open>JInt\<close>, any other number literal is kept as its text in \<open>JNum\<close>; where
  the target is \<open>any\<close> (a payload) a number denotes the \<open>float64\<close> nearest to its literal,
  and literals beyond the range of \<open>float64\<close> are left out; a
  string that holds the RFC 3339 rendering of a \<open>time.Time\<close> is \<open>JTime\<close> with the instant
  it denotes. \<open>NotJson\<close> stands for bytes that are not a JSON document at all.

  Objects are written field by field, a field tagged \<open>omitempty\<close> being left out when it
  holds its zero value, and read by looking each field up: a missing field and \<open>null\<close>
  leave the zero value, a value of the wrong kind is an error, and of two fields with one
  name the later one counts.
\<close>

datatype json =
    JNull
  | JBool bool
  | JInt int
  | JNum string
  | JStr string
  | JTime time
  | JArr "json list"
  | JObj "(string \<times> json) list"

datatype blob = Doc json | NotJson string

text \<open>Writing an object: \<open>None\<close> marks a field that \<open>omitempty\<close> drops.\<close>

fun obj_fields :: "(string \<times> json option) list \<Rightarrow> (string \<times> json) list" where
  "obj_fields [] = []"
| "obj_fields ((n, None) # fs) = obj_fields fs"
| "obj_fields ((n, Some j) # fs) = (n, j) # obj_fields fs"

definition omit_if :: "bool \<Rightarrow> json \<Rightarrow> json option" where
  "omit_if is_zero j = (if is_zero then None else Some j)"

definition jget :: "(string \<times> json) list \<Rightarrow> string \<Rightarrow> json option" where
  "jget fs n = map_of (rev fs) n"

lemma map_of_rev: "distinct (map fst fs) \<Longrightarrow> map_of (rev fs) n = map_of fs n"
proof (induction fs)
  case (Cons f fs)
  then have "map_of fs (fst f) = None" by (simp add: map_of_eq_None_iff)
  with Cons show ?case by (cases f) (auto simp: map_add_def split: option.splits)
qed simp

lemma obj_fields_names: "fst ` set (obj_fields fs) \<subseteq> fst ` set fs"
  by (induction fs rule: obj_fields.induct) auto

lemma distinct_obj_fields: "distinct (map fst fs) \<Longrightarrow> distinct (map fst (obj_fields fs))"
proof (induction fs rule: obj_fields.induct)
  case (3 n j fs)
  then show ?case using obj_fields_names [of fs] by (auto simp: subset_iff)
qed auto

lemma map_of_obj_fields:
  "distinct (map fst fs) \<Longrightarrow> map_of (obj_fields fs) n = Option.bind (map_of fs n) (\<lambda>j. j)"
proof (induction fs rule: obj_fields.induct)
  case (2 m fs)
  then have "map_of (obj_fields fs) m = None"
    using obj_fields_names [of fs] by (auto simp: map_of_eq_None_iff)
  with 2 show ?case by auto
qed auto

lemma jget_obj_fields:
  "distinct (map fst fs) \<Longrightarrow> jget (obj_fields fs) n = Option.bind (map_of fs n) (\<lambda>j. j)"
  by (simp add: jget_def map_of_rev distinct_obj_fields map_of_obj_fields)

section \<open>Reading one field\<close>

fun read_str :: "json option \<Rightarrow> string option" where
  "read_str None = Some []"
| "read_str (Some JNull) = Some []"
| "read_str (Some (JStr s)) = Some s"
| "read_str (Some _) = None"

text \<open>An integer field accepts integer literals in the range of \<open>int\<close> only.\<close>

fun read_int :: "json option \<Rightarrow> go_int option" where
  "read_int None = Some 0"
| "read_int (Some JNull) = Some 0"
| "read_int (Some (JInt n)) =
     (if - (2 ^ 63) \<le> n \<and> n < 2 ^ 63 then Some (word_of_int n) else None)"
| "read_int (Some _) = None"

fun read_bool :: "json option \<Rightarrow> bool option" where
  "read_bool None = Some False"
| "read_bool (Some JNull) = Some False"
| "read_bool (Some (JBool b)) = Some b"
| "read_bool (Some _) = None"

text \<open>The zero \<open>time.Time\<close> is midnight UTC of 1 January of year 1.\<close>

definition zero_time :: time where
  "zero_time = - 62135596800000000000"

fun read_time :: "json option \<Rightarrow> time option" where
  "read_time None = Some zero_time"
| "read_time (Some JNull) = Some zero_time"
| "read_time (Some (JTime t)) = Some t"
| "read_time (Some _) = None"

fun read_time_ptr :: "json option \<Rightarrow> time option option" where
  "read_time_ptr None = Some None"
| "read_time_ptr (Some JNull) = Some None"
| "read_time_ptr (Some (JTime t)) = Some (Some t)"
| "read_time_ptr (Some _) = None"

fun read_any :: "json option \<Rightarrow> json" where
  "read_any None = JNull"
| "read_any (Some j) = j"

text \<open>A list of strings by name, as a \<open>map[string]string\<close>; \<open>None\<close> is the nil map.\<close>

fun read_str_fields :: "(string \<times> json) list \<Rightarrow> (string \<times> string) list option" where
  "read_str_fields [] = Some []"
| "read_str_fields ((n, j) # fs) =
     do { s \<leftarrow> read_str (Some j); r \<leftarrow> read_str_fields fs; Some ((n, s) # r) }"

fun read_str_map :: "json option \<Rightarrow> (string \<times> string) list option option" where
  "read_str_map None = Some None"
| "read_str_map (Some JNull) = Some None"
| "read_str_map (Some (JObj fs)) = map_option Some (read_str_fields fs)"
| "read_str_map (Some _) = None"

definition write_str_map :: "(string \<times> string) list option \<Rightarrow> json" where
  "write_str_map m = (case m of None \<Rightarrow> JNull | Some fs \<Rightarrow> JObj (map (\<lambda>(n, s). (n, JStr s)) fs))"

definition write_int :: "go_int \<Rightarrow> json" where
  "write_int w = JInt (sint w)"

lemma read_str_write [simp]: "read_str (omit_if (s = []) (JStr s)) = Some s"
  by (simp add: omit_if_def)

lemma sint_range64: "- (2 ^ 63) \<le> sint (w :: go_int) \<and> sint w < 2 ^ 63"
  using sint_ge [of w] sint_lt [of w] by simp

lemma read_int_write [simp]: "read_int (Some (write_int w)) = Some w"
  using sint_range64 [of w] by (simp add: write_int_def)

lemma read_int_omit [simp]: "read_int (omit_if (w = 0) (write_int w)) = Some w"
  by (simp add: omit_if_def)

lemma read_bool_omit [simp]: "read_bool (omit_if (\<not> b) (JBool b)) = Some b"
  by (simp add: omit_if_def)

lemma read_str_fields_write [simp]:
  "read_str_fields (map (\<lambda>(n, s). (n, JStr s)) fs) = Some fs"
  by (induction fs) auto

lemma read_str_map_write [simp]: "read_str_map (Some (write_str_map m)) = Some m"
  by (cases m) (auto simp: write_str_map_def)

lemma read_time_ptr_write [simp]:
  "read_time_ptr (map_option JTime t) = Some t"
  by (cases t) auto

end
