(* ===== verification/Task.thy ===== *)
theory Task
  imports Json
begin

text \<open>
  \<open>internal/scheduler/task.go\<close>: the lifecycle states and retry modes (Go strings with named
  constants), the \<open>Attempt\<close> and \<open>Task\<close> records with their JSON tags. Fields keep the
  source's names; the fields of \<open>Attempt\<close> that share a name with another record are
  prefixed with \<open>Att\<close>.
  Proved: the terminal states are exactly three of the five valid ones, and a record read
  back from the document it was written to is the same record.
\<close>

section \<open>Lifecycle states and retry modes\<close>

type_synonym task_status = string
type_synonym retry_mode = string

definition MaxTimeoutMs :: int where
  "MaxTimeoutMs = 300000"

definition StatusPending :: task_status where "StatusPending = ''pending''"
definition StatusRunning :: task_status where "StatusRunning = ''running''"
definition StatusSucceeded :: task_status where "StatusSucceeded = ''succeeded''"
definition StatusFailed :: task_status where "StatusFailed = ''failed''"
definition StatusCancelled :: task_status where "StatusCancelled = ''cancelled''"

lemmas status_defs = StatusPending_def StatusRunning_def StatusSucceeded_def StatusFailed_def
  StatusCancelled_def

definition status_Valid :: "task_status \<Rightarrow> bool" where
  "status_Valid s \<longleftrightarrow> s = StatusPending \<or> s = StatusRunning \<or> s = StatusSucceeded
     \<or> s = StatusFailed \<or> s = StatusCancelled"

definition IsTerminal :: "task_status \<Rightarrow> bool" where
  "IsTerminal s \<longleftrightarrow> s = StatusSucceeded \<or> s = StatusFailed \<or> s = StatusCancelled"

definition RetryFixed :: retry_mode where "RetryFixed = ''fixed''"
definition RetryExponential :: retry_mode where "RetryExponential = ''exponential''"

definition retry_Valid :: "retry_mode \<Rightarrow> bool" where
  "retry_Valid m \<longleftrightarrow> m = RetryFixed \<or> m = RetryExponential"

lemma status_distinct [simp]:
  "StatusPending \<noteq> StatusRunning" "StatusPending \<noteq> StatusSucceeded"
  "StatusPending \<noteq> StatusFailed" "StatusPending \<noteq> StatusCancelled"
  "StatusRunning \<noteq> StatusSucceeded" "StatusRunning \<noteq> StatusFailed"
  "StatusRunning \<noteq> StatusCancelled" "StatusSucceeded \<noteq> StatusFailed"
  "StatusSucceeded \<noteq> StatusCancelled" "StatusFailed \<noteq> StatusCancelled"
  by (simp_all add: status_defs)

lemmas status_distinct' [simp] = status_distinct [symmetric]

lemma IsTerminal_simps [simp]:
  "\<not> IsTerminal StatusPending" "\<not> IsTerminal StatusRunning"
  "IsTerminal StatusSucceeded" "IsTerminal StatusFailed" "IsTerminal StatusCancelled"
  by (simp_all add: IsTerminal_def)

lemma status_Valid_simps [simp]:
  "status_Valid StatusPending" "status_Valid StatusRunning" "status_Valid StatusSucceeded"
  "status_Valid StatusFailed" "status_Valid StatusCancelled"
  by (simp_all add: status_Valid_def)

lemma terminal_Valid: "IsTerminal s \<Longrightarrow> status_Valid s"
  by (auto simp: IsTerminal_def)

lemma valid_not_terminal: "status_Valid s \<Longrightarrow> \<not> IsTerminal s \<Longrightarrow> s = StatusPending \<or> s = StatusRunning"
  by (auto simp: status_Valid_def IsTerminal_def)

lemma status_no_colon: "status_Valid s \<Longrightarrow> colon \<notin> set s \<and> s \<noteq> []"
  by (auto simp: status_Valid_def status_defs)

section \<open>Attempts and tasks\<close>

record attempt_rec =
  AttN :: go_int
  FiredAt :: time
  AttStatusCode :: go_int
  AttError :: string
  DurationMs :: go_int
  AttResponseBody :: string
  AttResponseBodyTruncated :: bool

record task =
  ID :: string
  IdempotencyKey :: string
  URL :: string
  Method :: string
  ExecuteAt :: time
  Headers :: "(string \<times> string) list option"
  Payload :: json
  Retries :: go_int
  RetryInterval :: go_int
  RetryMode :: retry_mode
  TimeoutMs :: go_int
  OnFailureURL :: string
  Schedule :: string
  Status :: task_status
  Attempts :: "attempt_rec list"
  FinishedAt :: "time option"

section \<open>JSON documents of tasks\<close>

definition attempt_fields :: "attempt_rec \<Rightarrow> (string \<times> json option) list" where
  "attempt_fields a =
    [(''n'', Some (write_int (AttN a))),
     (''fired_at'', Some (JTime (FiredAt a))),
     (''status_code'', Some (write_int (AttStatusCode a))),
     (''error'', omit_if (AttError a = []) (JStr (AttError a))),
     (''duration_ms'', Some (write_int (DurationMs a))),
     (''response_body'', omit_if (AttResponseBody a = []) (JStr (AttResponseBody a))),
     (''response_body_truncated'',
        omit_if (\<not> AttResponseBodyTruncated a) (JBool (AttResponseBodyTruncated a)))]"

definition marshal_attempt :: "attempt_rec \<Rightarrow> json" where
  "marshal_attempt a = JObj (obj_fields (attempt_fields a))"

fun unmarshal_attempt :: "json \<Rightarrow> attempt_rec option" where
  "unmarshal_attempt (JObj fs) =
     do { n \<leftarrow> read_int (jget fs ''n'');
          fired \<leftarrow> read_time (jget fs ''fired_at'');
          code \<leftarrow> read_int (jget fs ''status_code'');
          err \<leftarrow> read_str (jget fs ''error'');
          ms \<leftarrow> read_int (jget fs ''duration_ms'');
          body \<leftarrow> read_str (jget fs ''response_body'');
          trunc \<leftarrow> read_bool (jget fs ''response_body_truncated'');
          Some \<lparr>AttN = n, FiredAt = fired, AttStatusCode = code, AttError = err, DurationMs = ms,
            AttResponseBody = body, AttResponseBodyTruncated = trunc\<rparr> }"
| "unmarshal_attempt JNull =
     Some \<lparr>AttN = 0, FiredAt = zero_time, AttStatusCode = 0, AttError = [], DurationMs = 0,
       AttResponseBody = [], AttResponseBodyTruncated = False\<rparr>"
| "unmarshal_attempt _ = None"

fun unmarshal_attempts :: "json list \<Rightarrow> attempt_rec list option" where
  "unmarshal_attempts [] = Some []"
| "unmarshal_attempts (j # js) =
     do { a \<leftarrow> unmarshal_attempt j; r \<leftarrow> unmarshal_attempts js; Some (a # r) }"

fun read_attempts :: "json option \<Rightarrow> attempt_rec list option" where
  "read_attempts None = Some []"
| "read_attempts (Some JNull) = Some []"
| "read_attempts (Some (JArr js)) = unmarshal_attempts js"
| "read_attempts (Some _) = None"

definition task_fields :: "task \<Rightarrow> (string \<times> json option) list" where
  "task_fields t =
    [(''id'', Some (JStr (ID t))),
     (''idempotency_key'', omit_if (IdempotencyKey t = []) (JStr (IdempotencyKey t))),
     (''url'', Some (JStr (URL t))),
     (''method'', Some (JStr (Method t))),
     (''execute_at'', Some (JTime (ExecuteAt t))),
     (''headers'', Some (write_str_map (Headers t))),
     (''payload'', Some (Payload t)),
     (''retries'', Some (write_int (Retries t))),
     (''retry_interval'', Some (write_int (RetryInterval t))),
     (''retry_mode'', Some (JStr (RetryMode t))),
     (''timeout_ms'', omit_if (TimeoutMs t = 0) (write_int (TimeoutMs t))),
     (''on_failure_url'', omit_if (OnFailureURL t = []) (JStr (OnFailureURL t))),
     (''schedule'', omit_if (Schedule t = []) (JStr (Schedule t))),
     (''status'', Some (JStr (Status t))),
     (''attempts'', omit_if (Attempts t = []) (JArr (map marshal_attempt (Attempts t)))),
     (''finished_at'', map_option JTime (FinishedAt t))]"

definition marshal_task :: "task \<Rightarrow> json" where
  "marshal_task t = JObj (obj_fields (task_fields t))"

definition zero_task :: task where
  "zero_task = \<lparr>ID = [], IdempotencyKey = [], URL = [], Method = [], ExecuteAt = zero_time,
     Headers = None, Payload = JNull, Retries = 0, RetryInterval = 0, RetryMode = [],
     TimeoutMs = 0, OnFailureURL = [], Schedule = [], Status = [], Attempts = [],
     FinishedAt = None\<rparr>"

fun unmarshal_task :: "blob \<Rightarrow> task option" where
  "unmarshal_task (Doc (JObj fs)) =
     do { id \<leftarrow> read_str (jget fs ''id'');
          key \<leftarrow> read_str (jget fs ''idempotency_key'');
          url \<leftarrow> read_str (jget fs ''url'');
          method \<leftarrow> read_str (jget fs ''method'');
          execute_at \<leftarrow> read_time (jget fs ''execute_at'');
          headers \<leftarrow> read_str_map (jget fs ''headers'');
          retries \<leftarrow> read_int (jget fs ''retries'');
          interval \<leftarrow> read_int (jget fs ''retry_interval'');
          mode \<leftarrow> read_str (jget fs ''retry_mode'');
          timeout \<leftarrow> read_int (jget fs ''timeout_ms'');
          on_failure \<leftarrow> read_str (jget fs ''on_failure_url'');
          schedule \<leftarrow> read_str (jget fs ''schedule'');
          status \<leftarrow> read_str (jget fs ''status'');
          attempts \<leftarrow> read_attempts (jget fs ''attempts'');
          finished \<leftarrow> read_time_ptr (jget fs ''finished_at'');
          Some \<lparr>ID = id, IdempotencyKey = key, URL = url, Method = method,
            ExecuteAt = execute_at, Headers = headers, Payload = read_any (jget fs ''payload''),
            Retries = retries, RetryInterval = interval, RetryMode = mode, TimeoutMs = timeout,
            OnFailureURL = on_failure, Schedule = schedule, Status = status,
            Attempts = attempts, FinishedAt = finished\<rparr> }"
| "unmarshal_task (Doc JNull) = Some zero_task"
| "unmarshal_task _ = None"

lemma jget_attempt: "jget (obj_fields (attempt_fields a)) n = Option.bind (map_of (attempt_fields a) n) (\<lambda>j. j)"
  by (rule jget_obj_fields) (simp add: attempt_fields_def)

lemma unmarshal_marshal_attempt [simp]: "unmarshal_attempt (marshal_attempt a) = Some a"
  by (simp add: marshal_attempt_def jget_attempt) (simp add: attempt_fields_def)

lemma unmarshal_attempts_map [simp]: "unmarshal_attempts (map marshal_attempt as) = Some as"
  by (induction as) auto

lemma read_attempts_write [simp]:
  "read_attempts (omit_if (as = []) (JArr (map marshal_attempt as))) = Some as"
  by (simp add: omit_if_def)

lemma jget_task: "jget (obj_fields (task_fields t)) n = Option.bind (map_of (task_fields t) n) (\<lambda>j. j)"
  by (rule jget_obj_fields) (simp add: task_fields_def)

lemma unmarshal_marshal: "unmarshal_task (Doc (marshal_task t)) = Some t"
  by (simp add: marshal_task_def jget_task) (simp add: task_fields_def)

end
