(* ===== verification/Keys.thy ===== *)
theory Keys
  imports GoText GoTime Base64Url Task
begin

text \<open>
  The key layout of \<open>internal/scheduler/badger_store.go\<close>:
  \<open>task:<status>:<zero-padded-unix-ts>:<id>\<close>, the partition prefix of a status, reading a
  key back, and the opaque cursor made from a key.
  Proved: a key determines status, second and id; inside a partition keys are ordered by
  second, then id; reading a key back gives status and second; a key ends with
  \<open>:<id>\<close> for its own id only; a cursor decodes to its key.
\<close>

definition keyPrefix :: string where
  "keyPrefix = ''task:''"

definition taskKey :: "task \<Rightarrow> string" where
  "taskKey t = ''task:'' @ Status t @ '':'' @ fmt016d (Unix (ExecuteAt t)) @ '':'' @ ID t"

definition statusPrefix :: "task_status \<Rightarrow> string" where
  "statusPrefix status = ''task:'' @ status @ '':''"

definition encodeCursor :: "string \<Rightarrow> string" where
  "encodeCursor key = b64_encode key"

definition decodeCursor :: "string \<Rightarrow> string option" where
  "decodeCursor cursor = b64_decode cursor"

definition parseKey :: "string \<Rightarrow> (task_status \<times> int) option" where
  "parseKey key =
     (case splitN 4 colon key of
        [p0, p1, p2, p3] \<Rightarrow>
          if p0 \<noteq> ''task'' then None
          else (case parse_int64 p2 of None \<Rightarrow> None | Some ts \<Rightarrow> Some (p1, ts))
      | _ \<Rightarrow> None)"

text \<open>What every task the store holds satisfies, as far as its key is concerned.\<close>

definition wf_task :: "task \<Rightarrow> bool" where
  "wf_task t \<longleftrightarrow> status_Valid (Status t) \<and> ID t \<noteq> [] \<and> colon \<notin> set (ID t)
     \<and> fits16 (Unix (ExecuteAt t))"

lemma wf_task_status: "wf_task t \<Longrightarrow> colon \<notin> set (Status t)"
  by (simp add: wf_task_def status_no_colon)

lemma wf_task_upd_status [simp]: "status_Valid s \<Longrightarrow> wf_task t \<Longrightarrow> wf_task (t\<lparr>Status := s\<rparr>)"
  by (simp add: wf_task_def)

lemma taskKey_prefix: "taskKey t = statusPrefix (Status t) @ fmt016d (Unix (ExecuteAt t)) @ '':'' @ ID t"
  by (simp add: taskKey_def statusPrefix_def)

lemma taskKey_keyPrefix [simp]: "has_prefix keyPrefix (taskKey t)"
  by (simp add: keyPrefix_def taskKey_def)

lemma taskKey_nonempty [simp]: "taskKey t \<noteq> []"
  by (simp add: taskKey_def)

lemma statusPrefix_keyPrefix [simp]: "has_prefix keyPrefix (statusPrefix s)"
  by (simp add: keyPrefix_def statusPrefix_def)

lemma sep_unique:
  fixes c :: char
  assumes "c \<notin> set a" and "c \<notin> set b" and "a @ c # x = b @ c # y"
  shows "a = b \<and> x = y"
  using arg_cong [OF assms(3), of "split_first c"] assms(1,2) by (simp add: split_first_append)

lemma taskKey_statusPrefix:
  assumes "wf_task t" and "status_Valid s"
  shows "has_prefix (statusPrefix s) (taskKey t) \<longleftrightarrow> Status t = s"
proof
  assume "has_prefix (statusPrefix s) (taskKey t)"
  then obtain z where "s @ colon # z = Status t @ colon # fmt016d (Unix (ExecuteAt t)) @ '':'' @ ID t"
    by (auto simp: prefix_def taskKey_def statusPrefix_def)
  with sep_unique assms wf_task_status status_no_colon show "Status t = s" by metis
qed (simp add: taskKey_prefix)

lemma taskKey_suffix:
  assumes "wf_task t" and "colon \<notin> set i"
  shows "has_suffix (colon # i) (taskKey t) \<longleftrightarrow> i = ID t"
  using suffix_sep_unique [of colon i "ID t" "statusPrefix (Status t) @ fmt016d (Unix (ExecuteAt t))"]
    assms by (simp add: taskKey_prefix wf_task_def)

lemma taskKey_inj:
  assumes "wf_task t" and "wf_task u" and "taskKey t = taskKey u"
  shows "Status t = Status u \<and> Unix (ExecuteAt t) = Unix (ExecuteAt u) \<and> ID t = ID u"
proof -
  let ?f = "\<lambda>t. fmt016d (Unix (ExecuteAt t))"
  have "Status t @ colon # ?f t @ colon # ID t = Status u @ colon # ?f u @ colon # ID u"
    using assms(3) by (simp add: taskKey_def)
  from sep_unique [OF _ _ this] assms(1,2) wf_task_status
  have s: "Status t = Status u" and r: "?f t @ colon # ID t = ?f u @ colon # ID u" by blast+
  from sep_unique [OF _ _ r] assms(1,2) colon_not_in_fmt016d
  have "?f t = ?f u" "ID t = ID u" by (auto simp: wf_task_def)
  with s assms(1,2) show ?thesis by (simp add: wf_task_def fmt016d_eq)
qed

lemma equal_length_less_append:
  "length xs = length ys \<Longrightarrow> xs @ a < ys @ b \<longleftrightarrow> xs < ys \<or> xs = ys \<and> a < (b::string)"
  by (induction xs ys rule: list_induct2) auto

lemma taskKey_less:
  assumes "wf_task t" and "wf_task u" and "Status t = Status u"
  shows "taskKey t < taskKey u \<longleftrightarrow>
    Unix (ExecuteAt t) < Unix (ExecuteAt u)
    \<or> Unix (ExecuteAt t) = Unix (ExecuteAt u) \<and> ID t < ID u"
  using assms
  by (simp add: taskKey_prefix append_less_append equal_length_less_append length_fmt016d
      wf_task_def fmt016d_less fmt016d_eq)

text \<open>
  The end key of a due scan is a proper prefix of every key of its own second, so such a key
  lies after it.
\<close>

lemma taskKey_endKey:
  assumes "wf_task t" and "fits16 e" and "Status t = s"
  shows "taskKey t \<le> statusPrefix s @ fmt016d e \<longleftrightarrow> Unix (ExecuteAt t) < e"
proof -
  have "taskKey t \<le> statusPrefix s @ fmt016d e
      \<longleftrightarrow> fmt016d (Unix (ExecuteAt t)) @ colon # ID t \<le> fmt016d e @ []"
    using assms(3) by (simp add: taskKey_prefix append_le_append)
  also have "\<dots> \<longleftrightarrow> fmt016d (Unix (ExecuteAt t)) @ colon # ID t < fmt016d e @ []"
  proof -
    have "fmt016d (Unix (ExecuteAt t)) @ colon # ID t \<noteq> fmt016d e @ []"
      using assms length_fmt016d [of e] length_fmt016d [of "Unix (ExecuteAt t)"]
      by (auto simp: wf_task_def dest: arg_cong [of _ _ length])
    then show ?thesis by (simp add: order_le_less)
  qed
  also have "\<dots> \<longleftrightarrow> Unix (ExecuteAt t) < e"
    using assms by (subst equal_length_less_append)
      (auto simp: length_fmt016d wf_task_def fmt016d_less)
  finally show ?thesis .
qed

lemma parseKey_taskKey:
  assumes "wf_task t"
  shows "parseKey (taskKey t) = Some (Status t, Unix (ExecuteAt t))"
proof -
  have k: "taskKey t = ''task'' @ colon # Status t @ colon # fmt016d (Unix (ExecuteAt t)) @ colon # ID t"
    by (simp add: taskKey_def)
  have "splitN 4 colon (taskKey t) = [''task'', Status t, fmt016d (Unix (ExecuteAt t)), ID t]"
    unfolding k numeral_eq_Suc pred_numeral_simps BitM.simps
    using assms wf_task_status [OF assms] colon_not_in_fmt016d
    by (subst splitN_step, simp, subst splitN_step, simp, subst splitN_step)
      (simp_all add: wf_task_def)
  with assms show ?thesis by (simp add: parseKey_def parse_int64_fmt016d wf_task_def)
qed

lemma decode_encode_cursor [simp]: "decodeCursor (encodeCursor k) = Some k"
  by (simp add: decodeCursor_def encodeCursor_def b64_decode_encode)

lemma encodeCursor_nonempty [simp]: "k \<noteq> [] \<Longrightarrow> encodeCursor k \<noteq> []"
  by (simp add: encodeCursor_def b64_encode_Nil_iff)

section \<open>Clocks\<close>

text \<open>A clock between 1970 and the year 9999: its seconds fit the field of the key.\<close>

definition sane_clock :: "time \<Rightarrow> bool" where
  "sane_clock now \<longleftrightarrow> 0 \<le> now \<and> now < 253402300800 * Second"

lemma fits16_less: "0 \<le> t \<Longrightarrow> t < 10 ^ 25 \<Longrightarrow> fits16 (Unix t)"
  using Unix_nonneg [of t] by (simp add: fits16_def Unix_def Second_def)

lemma fits16_clock_plus:
  "sane_clock now \<Longrightarrow> 0 \<le> d \<Longrightarrow> d \<le> max_duration \<Longrightarrow> fits16 (Unix (now + d))"
  by (rule fits16_less) (simp_all add: sane_clock_def Second_def max_duration_def)

lemma fits16_clock: "sane_clock now \<Longrightarrow> fits16 (Unix now)"
  using fits16_clock_plus [of now 0] by (simp add: max_duration_def)

end
