(* ===== verification/Badger.thy ===== *)
theory Badger
  imports GoTime Json
begin

text \<open>
  BadgerDB as the store uses it. It is a third-party package, so it is a parameter: a record
  of the transaction calls, over a type \<open>'db\<close> that stands for the data as one transaction
  sees it. \<open>kv_items\<close> is what an iterator walks over (keys with their values, in the order
  of the keys), \<open>kv_set\<close> is \<open>Txn.SetEntry\<close> with the entry's TTL if it has one,
  \<open>kv_delete\<close> is \<open>Txn.Delete\<close>, and \<open>kv_commit\<close> is what \<open>DB.Update\<close> does when its
  function returns nil. Every write and the commit may fail (\<open>Inl\<close>): a transaction can be
  too big, in conflict, or out of disk. Reading a value may fail too, so an item holds an
  error or the bytes.

  The locale \<open>badger\<close> states Badger's documented behaviour that the store relies on. The
  instance \<open>mem_kv\<close> shows that it can hold: a log of entries, read through a sorted
  table, that refuses empty keys and more entries than a given capacity.
\<close>

record item =
  item_key :: string
  item_value :: "string + blob"
  item_ttl :: "duration option"

record 'db kv =
  kv_items :: "'db \<Rightarrow> item list"
  kv_set :: "'db \<Rightarrow> string \<Rightarrow> blob \<Rightarrow> duration option \<Rightarrow> string + 'db"
  kv_delete :: "'db \<Rightarrow> string \<Rightarrow> string + 'db"
  kv_commit :: "'db \<Rightarrow> 'db \<Rightarrow> string + 'db"

locale badger =
  fixes kv :: "'db kv"
  assumes items_sorted: "ssorted (map item_key (kv_items kv db))"
    and set_items: "kv_set kv db k v ttl = Inr db' \<Longrightarrow>
      set (kv_items kv db') = {i \<in> set (kv_items kv db). item_key i \<noteq> k}
        \<union> {\<lparr>item_key = k, item_value = Inr v, item_ttl = ttl\<rparr>}"
    and delete_items: "kv_delete kv db k = Inr db' \<Longrightarrow>
      set (kv_items kv db') = {i \<in> set (kv_items kv db). item_key i \<noteq> k}"
    and commit_items: "kv_commit kv db txn = Inr db' \<Longrightarrow> kv_items kv db' = kv_items kv txn"

section \<open>Transactions and scans\<close>

text \<open>\<open>DB.Update(f)\<close>: run \<open>f\<close> on a transaction, commit if it returned nil.\<close>

definition db_Update :: "'db kv \<Rightarrow> ('db \<Rightarrow> string + 'db) \<Rightarrow> 'db \<Rightarrow> string option \<times> 'db" where
  "db_Update kv f db =
     (case f db of
        Inl e \<Rightarrow> (Some e, db)
      | Inr txn \<Rightarrow> (case kv_commit kv db txn of Inl e \<Rightarrow> (Some e, db) | Inr db' \<Rightarrow> (None, db')))"

text \<open>\<open>for it.Seek(start); it.ValidForPrefix(pfx); it.Next()\<close>: the items of the loop.\<close>

definition scan :: "'db kv \<Rightarrow> 'db \<Rightarrow> string \<Rightarrow> string \<Rightarrow> item list" where
  "scan kv db start pfx =
     takeWhile (\<lambda>i. has_prefix pfx (item_key i)) (dropWhile (\<lambda>i. item_key i < start) (kv_items kv db))"

lemma db_Update_error: "db_Update kv f db = (Some e, db') \<Longrightarrow> db' = db"
  by (auto simp: db_Update_def split: sum.splits)

lemma db_Update_ok:
  "db_Update kv f db = (None, db') \<longleftrightarrow>
    (\<exists>txn. f db = Inr txn \<and> kv_commit kv db txn = Inr db')"
  by (auto simp: db_Update_def split: sum.splits)

context badger
begin

lemma scan_filter:
  assumes "pfx \<le> start"
  shows "scan kv db start pfx
    = filter (\<lambda>i. has_prefix pfx (item_key i) \<and> start \<le> item_key i) (kv_items kv db)"
  unfolding scan_def by (rule scan_eq_filter [OF items_sorted assms])

lemma scan_prefix: "scan kv db pfx pfx = filter (\<lambda>i. has_prefix pfx (item_key i)) (kv_items kv db)"
  using prefix_le by (auto simp: scan_filter intro: filter_cong)

lemma item_eqI:
  "i \<in> set (kv_items kv db) \<Longrightarrow> j \<in> set (kv_items kv db) \<Longrightarrow> item_key i = item_key j \<Longrightarrow> i = j"
  by (rule ssorted_key_inj [OF items_sorted])

lemma distinct_items: "distinct (kv_items kv db)"
  using ssorted_distinct [OF items_sorted] by (simp add: distinct_map)

end

section \<open>An in-memory instance\<close>

fun upsert :: "item \<Rightarrow> item list \<Rightarrow> item list" where
  "upsert i [] = [i]"
| "upsert i (j # js) =
     (if item_key i < item_key j then i # j # js
      else if item_key i = item_key j then i # js
      else j # upsert i js)"

definition mem_items :: "item list \<Rightarrow> item list" where
  "mem_items db = foldr upsert db []"

definition mem_kv :: "nat \<Rightarrow> item list kv" where
  "mem_kv capacity =
     \<lparr>kv_items = mem_items,
      kv_set = (\<lambda>db k v ttl.
        if k = [] then Inl ''Key cannot be empty''
        else if capacity \<le> length db then Inl ''Txn is too big to fit into one request''
        else Inr (\<lparr>item_key = k, item_value = Inr v, item_ttl = ttl\<rparr> # db)),
      kv_delete = (\<lambda>db k.
        if k = [] then Inl ''Key cannot be empty''
        else Inr (filter (\<lambda>i. item_key i \<noteq> k) db)),
      kv_commit = (\<lambda>db txn. Inr txn)\<rparr>"

lemma upsert_set:
  "ssorted (map item_key js) \<Longrightarrow>
    set (upsert i js) = {j \<in> set js. item_key j \<noteq> item_key i} \<union> {i}"
  by (induction js) (auto simp: ssorted_Cons)

lemma upsert_sorted: "ssorted (map item_key js) \<Longrightarrow> ssorted (map item_key (upsert i js))"
proof (induction js)
  case (Cons j js)
  then show ?case
    using upsert_set [of js i] by (auto simp: ssorted_Cons)
qed (simp add: ssorted_Cons)

lemma mem_items_sorted: "ssorted (map item_key (mem_items db))"
  by (induction db) (auto simp: mem_items_def upsert_sorted)

lemma mem_items_Cons:
  "set (mem_items (i # db)) = {j \<in> set (mem_items db). item_key j \<noteq> item_key i} \<union> {i}"
  using upsert_set [OF mem_items_sorted [of db]] by (simp add: mem_items_def)

lemma mem_items_filter:
  "set (mem_items (filter (\<lambda>i. item_key i \<noteq> k) db)) = {j \<in> set (mem_items db). item_key j \<noteq> k}"
proof (induction db)
  case (Cons i db)
  then show ?case
    using mem_items_Cons [of i db] mem_items_Cons [of i "filter (\<lambda>i. item_key i \<noteq> k) db"] by auto
qed (simp add: mem_items_def)

interpretation mem: badger "mem_kv capacity" for capacity
  by unfold_locales
    (auto simp: mem_kv_def mem_items_sorted mem_items_Cons mem_items_filter split: if_splits)

end
