(* ===== verification/BadgerStore.thy ===== *)
theory BadgerStore
  imports Keys Badger
begin

text \<open>
  The operations of \<open>BadgerStore\<close> (\<open>internal/scheduler/badger_store.go\<close>) and the page
  bounds and filters of \<open>store.go\<close>, over the transaction calls of theory \<open>Badger\<close>. An
  operation returns its Go results: \<open>None\<close> for a nil error, \<open>Some\<close> of a message otherwise,
  and the database after it. A write runs in one transaction, so it changes nothing when it
  fails.
\<close>

definition DefaultPageSize :: nat where "DefaultPageSize = 100"
definition MaxPageSize :: nat where "MaxPageSize = 1000"
definition MaxDueBatch :: nat where "MaxDueBatch = 1000"

datatype store_error = ErrInvalidCursor | ErrStore string

record counts =
  ByStatus :: "task_status \<rightharpoonup> nat"
  Overdue :: nat

record list_filter =
  FilterStatus :: string
  FilterURL :: string
  DueBefore :: "time option"
  DueAfter :: "time option"

section \<open>Writing one task\<close>

text \<open>\<open>json.Marshal\<close> of a task fails on a time that JSON cannot hold.\<close>

definition marshal_ok :: "task \<Rightarrow> bool" where
  "marshal_ok t \<longleftrightarrow> time_json_ok (ExecuteAt t)
     \<and> list_all (\<lambda>a. time_json_ok (FiredAt a)) (Attempts t)
     \<and> (case FinishedAt t of None \<Rightarrow> True | Some f \<Rightarrow> time_json_ok f)"

definition put :: "'db kv \<Rightarrow> duration \<Rightarrow> 'db \<Rightarrow> task \<Rightarrow> string + 'db" where
  "put kv ttl txn t =
     (if \<not> marshal_ok t then Inl ''json: error calling MarshalJSON for type time.Time''
      else kv_set kv txn (taskKey t) (Doc (marshal_task t))
        (if IsTerminal (Status t) \<and> 0 < ttl then Some ttl else None))"

definition findKey :: "'db kv \<Rightarrow> 'db \<Rightarrow> string \<Rightarrow> string option" where
  "findKey kv txn tid =
     map_option item_key
       (find (\<lambda>i. has_suffix ('':'' @ tid) (item_key i)) (scan kv txn keyPrefix keyPrefix))"

definition Save :: "'db kv \<Rightarrow> duration \<Rightarrow> task \<Rightarrow> 'db \<Rightarrow> string option \<times> 'db" where
  "Save kv ttl t db = db_Update kv (\<lambda>txn. put kv ttl txn (t\<lparr>Status := StatusPending\<rparr>)) db"

definition Update :: "'db kv \<Rightarrow> duration \<Rightarrow> task \<Rightarrow> 'db \<Rightarrow> string option \<times> 'db" where
  "Update kv ttl t db = db_Update kv (\<lambda>txn.
     case findKey kv txn (ID t) of
       Some old \<Rightarrow> (case kv_delete kv txn old of Inl e \<Rightarrow> Inl e | Inr txn' \<Rightarrow> put kv ttl txn' t)
     | None \<Rightarrow> put kv ttl txn t) db"

definition Delete :: "'db kv \<Rightarrow> string \<Rightarrow> 'db \<Rightarrow> string option \<times> 'db" where
  "Delete kv tid db = db_Update kv (\<lambda>txn.
     case findKey kv txn tid of Some k \<Rightarrow> kv_delete kv txn k | None \<Rightarrow> Inr txn) db"

section \<open>Reading\<close>

fun due_loop :: "nat \<Rightarrow> string \<Rightarrow> item list \<Rightarrow> task list \<Rightarrow> task list \<times> string option" where
  "due_loop limit endKey [] tasks = (tasks, None)"
| "due_loop limit endKey (i # is) tasks =
     (if item_key i > endKey then (tasks, None)
      else if length tasks = limit then (tasks, None)
      else case item_value i of
          Inl e \<Rightarrow> (tasks, Some e)
        | Inr val \<Rightarrow>
            (case unmarshal_task val of
               Some t \<Rightarrow> due_loop limit endKey is (tasks @ [t])
             | None \<Rightarrow> due_loop limit endKey is tasks))"

definition due_limit :: "int \<Rightarrow> nat" where
  "due_limit limit = (if limit \<le> 0 \<or> int MaxDueBatch < limit then MaxDueBatch else nat limit)"

definition GetDueTasks :: "'db kv \<Rightarrow> time \<Rightarrow> time \<Rightarrow> int \<Rightarrow> 'db \<Rightarrow> task list \<times> string option" where
  "GetDueTasks kv start end_time limit db =
     (let pfx = statusPrefix StatusPending; endKey = pfx @ fmt016d (Unix end_time)
      in due_loop (due_limit limit) endKey (scan kv db pfx pfx) [])"

definition filter_matches :: "list_filter \<Rightarrow> task \<Rightarrow> bool" where
  "filter_matches f t \<longleftrightarrow>
     \<not> (FilterURL f \<noteq> [] \<and> URL t \<noteq> FilterURL f)
     \<and> (case DueBefore f of None \<Rightarrow> True | Some b \<Rightarrow> ExecuteAt t < b)
     \<and> (case DueAfter f of None \<Rightarrow> True | Some a \<Rightarrow> a < ExecuteAt t)"

text \<open>The scan of \<open>ListTasks\<close>; \<open>skip\<close> is the key of the cursor, if there is one.\<close>

fun list_loop ::
  "nat \<Rightarrow> list_filter \<Rightarrow> string option \<Rightarrow> item list \<Rightarrow> task list \<Rightarrow> string \<Rightarrow> task list \<times> string" where
  "list_loop limit f skip [] tasks lastKey = (tasks, [])"
| "list_loop limit f skip (i # is) tasks lastKey =
     (if skip = Some (item_key i) then list_loop limit f skip is tasks lastKey
      else case item_value i of
          Inl e \<Rightarrow> list_loop limit f skip is tasks lastKey
        | Inr val \<Rightarrow>
            (case unmarshal_task val of
               None \<Rightarrow> list_loop limit f skip is tasks lastKey
             | Some t \<Rightarrow>
                 if \<not> filter_matches f t then list_loop limit f skip is tasks lastKey
                 else if length tasks = limit then (tasks, encodeCursor lastKey)
                 else list_loop limit f skip is (tasks @ [t]) (item_key i)))"

definition page_limit :: "int \<Rightarrow> nat" where
  "page_limit limit =
     (if limit \<le> 0 then DefaultPageSize
      else if int MaxPageSize < limit then MaxPageSize else nat limit)"

definition list_prefix :: "list_filter \<Rightarrow> string" where
  "list_prefix f = (if FilterStatus f \<noteq> [] then statusPrefix (FilterStatus f) else keyPrefix)"

definition ListTasks ::
  "'db kv \<Rightarrow> list_filter \<Rightarrow> string \<Rightarrow> int \<Rightarrow> 'db \<Rightarrow> store_error + task list \<times> string" where
  "ListTasks kv f cursor limit db =
     (let lim = page_limit limit; pfx = list_prefix f
      in if cursor = [] then Inr (list_loop lim f None (scan kv db pfx pfx) [] [])
         else case decodeCursor cursor of
             None \<Rightarrow> Inl ErrInvalidCursor
           | Some k \<Rightarrow>
               if \<not> has_prefix pfx k then Inl ErrInvalidCursor
               else Inr (list_loop lim f (Some k) (scan kv db k pfx) [] []))"

definition bump :: "(task_status \<rightharpoonup> nat) \<Rightarrow> task_status \<Rightarrow> (task_status \<rightharpoonup> nat)" where
  "bump m s = m(s \<mapsto> (case m s of None \<Rightarrow> 1 | Some n \<Rightarrow> Suc n))"

fun counts_loop :: "int \<Rightarrow> item list \<Rightarrow> counts \<Rightarrow> counts" where
  "counts_loop cutoff [] c = c"
| "counts_loop cutoff (i # is) c =
     (case parseKey (item_key i) of
        None \<Rightarrow> counts_loop cutoff is c
      | Some (status, executeAt) \<Rightarrow>
          counts_loop cutoff is
            (c\<lparr>ByStatus := bump (ByStatus c) status,
               Overdue := (if status = StatusPending \<and> executeAt \<le> cutoff
                 then Suc (Overdue c) else Overdue c)\<rparr>))"

definition Counts :: "'db kv \<Rightarrow> time \<Rightarrow> 'db \<Rightarrow> counts" where
  "Counts kv now db =
     counts_loop (Unix now) (scan kv db keyPrefix keyPrefix) \<lparr>ByStatus = Map.empty, Overdue = 0\<rparr>"

definition GetTask :: "'db kv \<Rightarrow> string \<Rightarrow> 'db \<Rightarrow> string + task option" where
  "GetTask kv tid db =
     (case find (\<lambda>i. has_suffix ('':'' @ tid) (item_key i)) (scan kv db keyPrefix keyPrefix) of
        None \<Rightarrow> Inr None
      | Some i \<Rightarrow>
          (case item_value i of
             Inl e \<Rightarrow> Inl e
           | Inr val \<Rightarrow>
               (case unmarshal_task val of
                  None \<Rightarrow> Inl ''json: cannot unmarshal'' | Some t \<Rightarrow> Inr (Some t))))"

section \<open>Recovery and bulk deletion\<close>

fun collect_stuck :: "item list \<Rightarrow> string + task list" where
  "collect_stuck [] = Inr []"
| "collect_stuck (i # is) =
     (case item_value i of
        Inl e \<Rightarrow> Inl e
      | Inr val \<Rightarrow>
          (case unmarshal_task val of
             None \<Rightarrow> collect_stuck is
           | Some t \<Rightarrow> (case collect_stuck is of Inl e \<Rightarrow> Inl e | Inr ts \<Rightarrow> Inr (t # ts))))"

fun requeue_all :: "'db kv \<Rightarrow> duration \<Rightarrow> task list \<Rightarrow> 'db \<Rightarrow> string + 'db" where
  "requeue_all kv ttl [] txn = Inr txn"
| "requeue_all kv ttl (t # ts) txn =
     (case kv_delete kv txn (taskKey t) of
        Inl e \<Rightarrow> Inl e
      | Inr txn1 \<Rightarrow>
          (case put kv ttl txn1 (t\<lparr>Status := StatusPending\<rparr>) of
             Inl e \<Rightarrow> Inl e
           | Inr txn2 \<Rightarrow> requeue_all kv ttl ts txn2))"

definition RecoverRunning :: "'db kv \<Rightarrow> duration \<Rightarrow> 'db \<Rightarrow> string option \<times> 'db" where
  "RecoverRunning kv ttl db = db_Update kv (\<lambda>txn.
     let pfx = statusPrefix StatusRunning
     in case collect_stuck (scan kv txn pfx pfx) of
          Inl e \<Rightarrow> Inl e
        | Inr stuck \<Rightarrow> requeue_all kv ttl stuck txn) db"

definition delete_matches ::
  "string \<Rightarrow> string \<Rightarrow> time option \<Rightarrow> time option \<Rightarrow> task \<Rightarrow> bool" where
  "delete_matches url status before after t \<longleftrightarrow>
     \<not> (url \<noteq> [] \<and> URL t \<noteq> url)
     \<and> \<not> (status \<noteq> [] \<and> Status t \<noteq> status)
     \<and> (case before of None \<Rightarrow> True | Some b \<Rightarrow> ExecuteAt t < b)
     \<and> (case after of None \<Rightarrow> True | Some a \<Rightarrow> a < ExecuteAt t)"

text \<open>
  The loop counts into a variable outside the transaction, so a count comes back with an
  error too. The iterator was opened before the first deletion and walks over the items as
  they were then.
\<close>

fun delete_loop ::
  "'db kv \<Rightarrow> (task \<Rightarrow> bool) \<Rightarrow> item list \<Rightarrow> nat \<Rightarrow> 'db \<Rightarrow> nat \<times> (string + 'db)" where
  "delete_loop kv matches [] n txn = (n, Inr txn)"
| "delete_loop kv matches (i # is) n txn =
     (case item_value i of
        Inl e \<Rightarrow> (n, Inl e)
      | Inr val \<Rightarrow>
          (case unmarshal_task val of
             None \<Rightarrow> (n, Inl ''json: cannot unmarshal'')
           | Some t \<Rightarrow>
               if matches t then
                 (case kv_delete kv txn (item_key i) of
                    Inl e \<Rightarrow> (n, Inl e)
                  | Inr txn' \<Rightarrow> delete_loop kv matches is (Suc n) txn')
               else delete_loop kv matches is n txn))"

definition DeleteTasks ::
  "'db kv \<Rightarrow> string \<Rightarrow> string \<Rightarrow> time option \<Rightarrow> time option \<Rightarrow> 'db \<Rightarrow> (nat \<times> string option) \<times> 'db"
where
  "DeleteTasks kv url status before after db =
     (let (deleted, r) = delete_loop kv (delete_matches url status before after)
            (scan kv db keyPrefix keyPrefix) 0 db;
          (err, db') = db_Update kv (\<lambda>_. r) db
      in ((deleted, err), db'))"

end
