(* ===== verification/StoreView.thy ===== *)
theory StoreView
  imports BadgerStore
begin

text \<open>
  The abstract view of a store: the tasks it holds, as a finite map from ids, and the
  invariant under which the view is meaningful. An item of the task keyspace is well formed
  when its value is the document of a task, it lies under that task's key, and only a
  terminal task carries a TTL; no two items hold tasks with one id. The lemmas give every
  read of \<open>BadgerStore\<close> in terms of the view, and show what one \<open>put\<close> and one
  deletion do to it.
\<close>

definition load :: "item \<Rightarrow> task option" where
  "load i = (case item_value i of Inl e \<Rightarrow> None | Inr v \<Rightarrow> unmarshal_task v)"

definition task_items :: "'db kv \<Rightarrow> 'db \<Rightarrow> item list" where
  "task_items kv db = scan kv db keyPrefix keyPrefix"

definition wf_item :: "item \<Rightarrow> bool" where
  "wf_item i \<longleftrightarrow>
     (case load i of
        None \<Rightarrow> False
      | Some t \<Rightarrow> item_key i = taskKey t \<and> wf_task t \<and> (item_ttl i \<noteq> None \<longrightarrow> IsTerminal (Status t)))"

definition item_ID :: "item \<Rightarrow> string" where
  "item_ID i = (case load i of None \<Rightarrow> [] | Some t \<Rightarrow> ID t)"

definition wf_store :: "'db kv \<Rightarrow> 'db \<Rightarrow> bool" where
  "wf_store kv db \<longleftrightarrow>
     (\<forall>i \<in> set (task_items kv db). wf_item i)
     \<and> (\<forall>i \<in> set (task_items kv db). \<forall>j \<in> set (task_items kv db). item_ID i = item_ID j \<longrightarrow> i = j)"

definition tasks_of :: "'db kv \<Rightarrow> 'db \<Rightarrow> task list" where
  "tasks_of kv db = map (the \<circ> load) (task_items kv db)"

definition view :: "'db kv \<Rightarrow> 'db \<Rightarrow> string \<Rightarrow> task option" where
  "view kv db tid = find (\<lambda>t. ID t = tid) (tasks_of kv db)"

lemma load_Some: "load i = Some t \<longleftrightarrow> (\<exists>v. item_value i = Inr v \<and> unmarshal_task v = Some t)"
  by (auto simp: load_def split: sum.splits)

lemma wf_itemE:
  assumes "wf_item i"
  obtains t where "load i = Some t" and "item_key i = taskKey t" and "wf_task t"
    and "item_ttl i \<noteq> None \<Longrightarrow> IsTerminal (Status t)" and "item_ID i = ID t"
  using assms by (auto simp: wf_item_def item_ID_def split: option.splits)

lemma wf_store_item: "wf_store kv db \<Longrightarrow> i \<in> set (task_items kv db) \<Longrightarrow> wf_item i"
  by (simp add: wf_store_def)

lemma wf_store_ID:
  "wf_store kv db \<Longrightarrow> i \<in> set (task_items kv db) \<Longrightarrow> j \<in> set (task_items kv db) \<Longrightarrow>
    item_ID i = item_ID j \<Longrightarrow> i = j"
  by (simp add: wf_store_def)

lemma wf_load:
  assumes "wf_store kv db" and "i \<in> set (task_items kv db)"
  shows "load i = Some (the (load i))" and "item_key i = taskKey (the (load i))"
    and "wf_task (the (load i))" and "item_ID i = ID (the (load i))"
  using wf_store_item [OF assms] by (auto elim!: wf_itemE)

lemma in_tasks_of:
  assumes "wf_store kv db"
  shows "t \<in> set (tasks_of kv db) \<longleftrightarrow> (\<exists>i \<in> set (task_items kv db). load i = Some t)"
  using wf_load(1) [OF assms] by (force simp: tasks_of_def)

lemma tasks_of_wf: "wf_store kv db \<Longrightarrow> t \<in> set (tasks_of kv db) \<Longrightarrow> wf_task t"
  by (auto simp: in_tasks_of dest!: wf_store_item elim: wf_itemE)

lemma tasks_of_ID:
  assumes "wf_store kv db" and "t \<in> set (tasks_of kv db)" and "u \<in> set (tasks_of kv db)" and "ID t = ID u"
  shows "t = u"
proof -
  obtain i j where ij: "i \<in> set (task_items kv db)" "load i = Some t"
    "j \<in> set (task_items kv db)" "load j = Some u"
    using assms in_tasks_of by meson
  then have "i = j" using wf_store_ID [OF assms(1)] assms(4) by (simp add: item_ID_def)
  with ij show ?thesis by simp
qed

lemma view_Some:
  "wf_store kv db \<Longrightarrow> view kv db x = Some t \<longleftrightarrow> t \<in> set (tasks_of kv db) \<and> ID t = x"
  using tasks_of_ID by (auto simp: view_def dest: find_SomeD intro!: find_unique)

lemma view_None:
  "wf_store kv db \<Longrightarrow> view kv db x = None \<longleftrightarrow> (\<forall>t \<in> set (tasks_of kv db). ID t \<noteq> x)"
  by (auto simp: view_def find_None_iff)

lemma view_eqI:
  assumes "wf_store kv db" and "wf_store kv' db'"
    and "\<And>t. t \<in> set (tasks_of kv' db') \<longleftrightarrow> t \<in> set (tasks_of kv db)"
  shows "view kv' db' = view kv db"
proof
  fix x show "view kv' db' x = view kv db x"
  proof (cases "view kv db x")
    case None
    then have "view kv' db' x = None" using assms by (simp add: view_None)
    with None show ?thesis by simp
  next
    case (Some t)
    then have "view kv' db' x = Some t" using assms by (simp add: view_Some)
    with Some show ?thesis by simp
  qed
qed

lemma view_ID: "wf_store kv db \<Longrightarrow> view kv db x = Some t \<Longrightarrow> ID t = x \<and> wf_task t"
  by (simp add: view_Some tasks_of_wf)

lemma wf_store_insert:
  assumes "wf_store kv db" and "set (task_items kv db') = insert n (set (task_items kv db))"
    and "wf_item n" and "\<And>i. i \<in> set (task_items kv db) \<Longrightarrow> item_ID i \<noteq> item_ID n"
  shows "wf_store kv db'"
  using assms(1,3) assms(4) [symmetric] assms(4) unfolding wf_store_def assms(2) by blast

text \<open>The tasks of a database are decided by its items.\<close>

lemma items_decide:
  assumes "kv_items kv db = kv_items kv db'"
  shows "wf_store kv db \<longleftrightarrow> wf_store kv db'" "view kv db = view kv db'"
  using assms by (simp_all add: wf_store_def view_def [abs_def] tasks_of_def task_items_def scan_def)

context badger
begin

lemma set_task_items:
  "set (task_items kv db) = {i \<in> set (kv_items kv db). has_prefix keyPrefix (item_key i)}"
  by (auto simp: task_items_def scan_prefix)

lemma task_items_sorted: "ssorted (map item_key (task_items kv db))"
  by (simp add: task_items_def scan_prefix ssorted_map_filter items_sorted)

text \<open>Two transactions with the same items have the same view.\<close>

lemma same_items:
  assumes "kv_items kv db' = kv_items kv db"
  shows "task_items kv db' = task_items kv db" "tasks_of kv db' = tasks_of kv db"
    "wf_store kv db' = wf_store kv db" "view kv db' = view kv db"
  using assms by (simp_all add: task_items_def scan_def tasks_of_def wf_store_def view_def fun_eq_iff)

section \<open>Reading one task\<close>

lemma suffix_item:
  assumes "wf_item i" and "colon \<notin> set x"
  shows "has_suffix ('':'' @ x) (item_key i) \<longleftrightarrow> item_ID i = x"
  using assms by (auto simp: taskKey_suffix elim!: wf_itemE)

lemma find_item:
  assumes "wf_store kv db" and "colon \<notin> set x"
  shows "find (\<lambda>i. has_suffix ('':'' @ x) (item_key i)) (task_items kv db)
    = find (\<lambda>i. item_ID i = x) (task_items kv db)"
  using assms by (intro find_cong' suffix_item wf_store_item)

lemma view_find:
  assumes "wf_store kv db"
  shows "view kv db x = map_option (the \<circ> load) (find (\<lambda>i. item_ID i = x) (task_items kv db))"
proof -
  have "find (\<lambda>i. ID (the (load i)) = x) (task_items kv db) = find (\<lambda>i. item_ID i = x) (task_items kv db)"
    using wf_load(4) [OF assms] by (intro find_cong') simp
  then show ?thesis by (simp add: view_def tasks_of_def find_map)
qed

lemma find_item_view:
  assumes "wf_store kv db" and "colon \<notin> set x"
    and "find (\<lambda>i. has_suffix ('':'' @ x) (item_key i)) (task_items kv db) = Some i"
  shows "\<exists>t. load i = Some t \<and> item_key i = taskKey t \<and> view kv db x = Some t"
proof -
  have f: "find (\<lambda>i. item_ID i = x) (task_items kv db) = Some i"
    using assms find_item by metis
  then have "wf_item i" using wf_store_item [OF assms(1)] find_SomeD by metis
  with f view_find [OF assms(1)] show ?thesis by (auto elim: wf_itemE)
qed

lemma find_item_None:
  assumes "wf_store kv db" and "colon \<notin> set x"
  shows "find (\<lambda>i. has_suffix ('':'' @ x) (item_key i)) (task_items kv db) = None
    \<longleftrightarrow> view kv db x = None"
  unfolding find_item [OF assms] view_find [OF assms(1)] by simp

lemma findKey_view:
  assumes "wf_store kv db" and "colon \<notin> set x"
  shows "findKey kv db x = map_option taskKey (view kv db x)"
proof (cases "find (\<lambda>i. has_suffix ('':'' @ x) (item_key i)) (task_items kv db)")
  case None
  with find_item_None [OF assms] show ?thesis by (simp add: findKey_def task_items_def)
next
  case (Some i)
  with find_item_view [OF assms Some] show ?thesis by (auto simp: findKey_def task_items_def)
qed

lemma GetTask_view:
  assumes "wf_store kv db" and "colon \<notin> set x"
  shows "GetTask kv x db = Inr (view kv db x)"
proof (cases "find (\<lambda>i. has_suffix ('':'' @ x) (item_key i)) (task_items kv db)")
  case None
  with find_item_None [OF assms] show ?thesis by (simp add: GetTask_def task_items_def)
next
  case (Some i)
  with find_item_view [OF assms Some] show ?thesis
    by (auto simp: GetTask_def task_items_def load_Some)
qed

section \<open>Writing and deleting one item\<close>

lemma put_items:
  assumes "put kv ttl db t = Inr db'"
  shows "set (kv_items kv db') = {i \<in> set (kv_items kv db). item_key i \<noteq> taskKey t}
    \<union> {\<lparr>item_key = taskKey t, item_value = Inr (Doc (marshal_task t)),
        item_ttl = (if IsTerminal (Status t) \<and> 0 < ttl then Some ttl else None)\<rparr>}"
  using assms set_items by (simp add: put_def split: if_splits)

lemma put_view:
  assumes "wf_store kv db" and put: "put kv ttl db t = Inr db'" and "wf_task t"
    and fresh: "view kv db (ID t) = None"
  shows "wf_store kv db'" and "set (tasks_of kv db') = insert t (set (tasks_of kv db))"
proof -
  let ?n = "\<lparr>item_key = taskKey t, item_value = Inr (Doc (marshal_task t)),
        item_ttl = (if IsTerminal (Status t) \<and> 0 < ttl then Some ttl else None)\<rparr>"
  have load_n: "load ?n = Some t" by (simp add: load_def unmarshal_marshal)
  then have wf_n: "wf_item ?n" and id_n: "item_ID ?n = ID t"
    using assms(3) by (simp_all add: wf_item_def item_ID_def)
  have other: "item_ID i \<noteq> ID t \<and> item_key i \<noteq> taskKey t" if "i \<in> set (task_items kv db)" for i
  proof -
    note u = wf_load [OF assms(1) that]
    have "ID (the (load i)) \<noteq> ID t"
      using u(1) that fresh view_None [OF assms(1)] in_tasks_of [OF assms(1)] by metis
    with u assms(3) taskKey_inj show ?thesis by metis
  qed
  have items: "set (task_items kv db') = insert ?n (set (task_items kv db))"
    using put_items [OF put] other by (auto simp: set_task_items)
  show wf: "wf_store kv db'"
    by (rule wf_store_insert [OF assms(1) items wf_n]) (simp only: other id_n not_False_eq_True)
  show "set (tasks_of kv db') = insert t (set (tasks_of kv db))"
    unfolding tasks_of_def set_map items using load_n by simp
qed

lemma delete_view:
  assumes "wf_store kv db" and "t \<in> set (tasks_of kv db)" and "kv_delete kv db (taskKey t) = Inr db'"
  shows "wf_store kv db'" and "set (tasks_of kv db') = set (tasks_of kv db) - {t}"
proof -
  from assms(1,2) obtain j where j: "j \<in> set (task_items kv db)" "load j = Some t"
    by (auto simp: in_tasks_of)
  then have kj: "item_key j = taskKey t"
    using wf_load(2) [OF assms(1)] by simp
  have items: "set (task_items kv db') = set (task_items kv db) - {j}"
    using delete_items [OF assms(3)] j(1) kj item_eqI by (auto simp: set_task_items)
  show wf: "wf_store kv db'"
    unfolding wf_store_def items using assms(1) by (auto simp: wf_store_item wf_store_ID)
  have "load i \<noteq> Some t" if "i \<in> set (task_items kv db)" "i \<noteq> j" for i
    using that j wf_store_ID [OF assms(1)] by (auto simp: item_ID_def)
  then have eq: "(\<exists>i \<in> set (task_items kv db) - {j}. load i = Some u)
      \<longleftrightarrow> (\<exists>i \<in> set (task_items kv db). load i = Some u) \<and> u \<noteq> t" for u
    using j by (metis DiffD1 DiffD2 DiffI insertI1 option.inject singletonD)
  show "set (tasks_of kv db') = set (tasks_of kv db) - {t}"
    by (rule set_eqI) (simp only: in_tasks_of [OF wf] items eq in_tasks_of [OF assms(1)] Diff_iff
        singleton_iff)
qed

end

end
