(* ===== verification/StoreProps.thy ===== *)
theory StoreProps
  imports StoreView
begin

text \<open>
  What each operation of \<open>BadgerStore\<close> does, in terms of the view: the writes as updates of
  the map from ids to tasks, the reads as selections of the task list in key order.
\<close>

section \<open>Writes as map updates\<close>

lemma view_insert:
  assumes "wf_store kv db" and "wf_store kv db'" and "view kv db (ID t) = None"
    and "set (tasks_of kv db') = insert t (set (tasks_of kv db))"
  shows "view kv db' = (view kv db)(ID t \<mapsto> t)"
proof
  fix x show "view kv db' x = ((view kv db)(ID t \<mapsto> t)) x"
  proof (cases "x = ID t")
    case True
    then have "view kv db' x = Some t" using assms(2,4) by (simp add: view_Some)
    with True show ?thesis by simp
  next
    case False
    then have "view kv db' x = Some u \<longleftrightarrow> view kv db x = Some u" for u
      using assms(1,2,4) by (auto simp: view_Some)
    then have "view kv db' x = view kv db x" by (metis option.exhaust)
    with False show ?thesis by simp
  qed
qed

lemma view_delete:
  assumes "wf_store kv db" and "wf_store kv db'" and "view kv db (ID t) = Some t"
    and "set (tasks_of kv db') = set (tasks_of kv db) - {t}"
  shows "view kv db' = (view kv db)(ID t := None)"
proof
  fix x show "view kv db' x = ((view kv db)(ID t := None)) x"
  proof (cases "x = ID t")
    case True
    have "view kv db' (ID t) = None"
      unfolding view_None [OF assms(2)] assms(4)
      using assms(3) tasks_of_ID [OF assms(1)] view_Some [OF assms(1)] by (metis DiffE insertI1)
    with True show ?thesis by simp
  next
    case False
    then have "view kv db' x = Some u \<longleftrightarrow> view kv db x = Some u" for u
      using assms(1,2,4) by (auto simp: view_Some)
    then have "view kv db' x = view kv db x" by (metis option.exhaust)
    with False show ?thesis by simp
  qed
qed

lemma Save_error: "Save kv ttl t db = (Some e, db') \<Longrightarrow> db' = db"
  unfolding Save_def by (rule db_Update_error)

lemma Update_error: "Update kv ttl t db = (Some e, db') \<Longrightarrow> db' = db"
  unfolding Update_def by (rule db_Update_error)

lemma Delete_error: "Delete kv x db = (Some e, db') \<Longrightarrow> db' = db"
  unfolding Delete_def by (rule db_Update_error)

lemma RecoverRunning_error: "RecoverRunning kv ttl db = (Some e, db') \<Longrightarrow> db' = db"
  unfolding RecoverRunning_def by (rule db_Update_error)

lemma DeleteTasks_error: "DeleteTasks kv u s b a db = ((n, Some e), db') \<Longrightarrow> db' = db"
  by (auto simp: DeleteTasks_def split: prod.splits dest: db_Update_error)

context badger
begin

lemma commit_view:
  assumes "kv_commit kv db txn = Inr db'"
  shows "wf_store kv db' = wf_store kv txn" "view kv db' = view kv txn"
    "tasks_of kv db' = tasks_of kv txn" "task_items kv db' = task_items kv txn"
  using same_items [OF commit_items [OF assms]] by simp_all

lemma put_map:
  assumes "wf_store kv db" and "put kv ttl db t = Inr db'" and "wf_task t"
    and "view kv db (ID t) = None"
  shows "wf_store kv db' \<and> view kv db' = (view kv db)(ID t \<mapsto> t)"
  using put_view [OF assms] view_insert [OF assms(1) _ assms(4)] by blast

lemma delete_map:
  assumes "wf_store kv db" and "view kv db (ID t) = Some t" and "kv_delete kv db (taskKey t) = Inr db'"
  shows "wf_store kv db' \<and> view kv db' = (view kv db)(ID t := None)"
proof -
  have "t \<in> set (tasks_of kv db)" using assms(1,2) by (simp add: view_Some)
  from delete_view [OF assms(1) this assms(3)] view_delete [OF assms(1) _ assms(2)]
  show ?thesis by blast
qed

lemma replace_map:
  assumes "wf_store kv db" and "view kv db (ID u) = Some u" and "ID t = ID u" and "wf_task t"
    and "kv_delete kv db (taskKey u) = Inr db1" and "put kv ttl db1 t = Inr db2"
  shows "wf_store kv db2 \<and> view kv db2 = (view kv db)(ID t \<mapsto> t)"
proof -
  have d: "wf_store kv db1" "view kv db1 = (view kv db)(ID u := None)"
    using delete_map [OF assms(1,2,5)] by auto
  then show ?thesis using put_map [OF d(1) assms(6,4)] assms(3) by simp
qed

lemma Save_map:
  assumes "wf_store kv db" and "wf_task (t\<lparr>Status := StatusPending\<rparr>)" and "view kv db (ID t) = None"
    and "Save kv ttl t db = (None, db')"
  shows "wf_store kv db' \<and> view kv db' = (view kv db)(ID t \<mapsto> t\<lparr>Status := StatusPending\<rparr>)"
proof -
  obtain txn where "put kv ttl db (t\<lparr>Status := StatusPending\<rparr>) = Inr txn"
    and c: "kv_commit kv db txn = Inr db'"
    using assms(4) by (auto simp: Save_def db_Update_ok)
  with put_map [OF assms(1) _ assms(2)] assms(3) commit_view [OF c] show ?thesis by simp
qed

lemma Update_map:
  assumes "wf_store kv db" and "wf_task t" and "Update kv ttl t db = (None, db')"
  shows "wf_store kv db' \<and> view kv db' = (view kv db)(ID t \<mapsto> t)"
proof -
  have no_colon: "colon \<notin> set (ID t)" using assms(2) by (simp add: wf_task_def)
  obtain txn where c: "kv_commit kv db txn = Inr db'"
    and body: "(case findKey kv db (ID t) of
       Some old \<Rightarrow> (case kv_delete kv db old of Inl e \<Rightarrow> Inl e | Inr txn' \<Rightarrow> put kv ttl txn' t)
     | None \<Rightarrow> put kv ttl db t) = Inr txn"
    using assms(3) by (auto simp: Update_def db_Update_ok)
  have "wf_store kv txn \<and> view kv txn = (view kv db)(ID t \<mapsto> t)"
  proof (cases "view kv db (ID t)")
    case None
    with body have "put kv ttl db t = Inr txn"
      by (simp add: findKey_view [OF assms(1) no_colon])
    from put_map [OF assms(1) this assms(2) None] show ?thesis .
  next
    case (Some u)
    then have u: "ID u = ID t" "view kv db (ID u) = Some u"
      using view_ID [OF assms(1)] by auto
    from body Some obtain txn1 where "kv_delete kv db (taskKey u) = Inr txn1"
      "put kv ttl txn1 t = Inr txn"
      by (auto simp: findKey_view [OF assms(1) no_colon] split: sum.splits)
    with replace_map [OF assms(1) u(2)] u(1) assms(2) show ?thesis by simp
  qed
  with commit_view [OF c] show ?thesis by simp
qed

lemma Delete_map:
  assumes "wf_store kv db" and "colon \<notin> set x" and "Delete kv x db = (None, db')"
  shows "wf_store kv db' \<and> view kv db' = (view kv db)(x := None)"
proof -
  obtain txn where c: "kv_commit kv db txn = Inr db'"
    and body: "(case findKey kv db x of Some k \<Rightarrow> kv_delete kv db k | None \<Rightarrow> Inr db) = Inr txn"
    using assms(3) by (auto simp: Delete_def db_Update_ok)
  have "wf_store kv txn \<and> view kv txn = (view kv db)(x := None)"
  proof (cases "view kv db x")
    case None
    with body assms(1) show ?thesis
      by (auto simp: findKey_view [OF assms(1,2)] fun_upd_idem)
  next
    case (Some u)
    then have u: "ID u = x" "view kv db (ID u) = Some u" using view_ID [OF assms(1)] by auto
    with body Some delete_map [OF assms(1) u(2)] show ?thesis
      by (simp add: findKey_view [OF assms(1,2)])
  qed
  with commit_view [OF c] show ?thesis by simp
qed

section \<open>Scans of one partition\<close>

lemma filter_task_items:
  assumes "has_prefix keyPrefix pfx"
  shows "filter (\<lambda>i. has_prefix pfx (item_key i) \<and> P i) (kv_items kv db)
    = filter (\<lambda>i. has_prefix pfx (item_key i) \<and> P i) (task_items kv db)"
  using prefix_order.trans [OF assms] by (auto simp: task_items_def scan_prefix intro: filter_cong)

lemma status_scan:
  assumes "wf_store kv db" and "status_Valid s"
  shows "scan kv db (statusPrefix s) (statusPrefix s)
    = filter (\<lambda>i. Status (the (load i)) = s) (task_items kv db)"
proof -
  have "scan kv db (statusPrefix s) (statusPrefix s)
      = filter (\<lambda>i. has_prefix (statusPrefix s) (item_key i)) (task_items kv db)"
    using filter_task_items [of "statusPrefix s" "\<lambda>_. True" db] by (simp add: scan_prefix)
  also have "\<dots> = filter (\<lambda>i. Status (the (load i)) = s) (task_items kv db)"
    using wf_load(2,3) [OF assms(1)] taskKey_statusPrefix [OF _ assms(2)]
    by (intro filter_cong) auto
  finally show ?thesis .
qed

end

section \<open>Due tasks\<close>

lemma due_loop_readable:
  assumes "\<forall>i \<in> set is. load i \<noteq> None" and "length acc \<le> limit"
  shows "due_loop limit endKey is acc
    = (acc @ take (limit - length acc) (map (the \<circ> load) (takeWhile (\<lambda>i. item_key i \<le> endKey) is)), None)"
  using assms
proof (induction "is" arbitrary: acc)
  case (Cons i "is")
  then obtain v t where v: "item_value i = Inr v" "unmarshal_task v = Some t" "load i = Some t"
    by (auto simp: load_def split: sum.splits)
  show ?case
  proof (cases "length acc = limit \<or> endKey < item_key i")
    case True
    then show ?thesis by (auto simp: not_le)
  next
    case False
    with Cons.prems have "Suc (length acc) \<le> limit" by simp
    then obtain k where k: "limit - length acc = Suc k" "limit - Suc (length acc) = k"
      by (metis Suc_diff_le diff_Suc_Suc)
    with False v Cons show ?thesis by (simp add: not_less)
  qed
qed simp

lemma takeWhile_sorted_le:
  "ssorted (map f xs) \<Longrightarrow> takeWhile (\<lambda>x. f x \<le> k) xs = filter (\<lambda>x. f x \<le> (k::string)) xs"
proof (induction xs)
  case (Cons x xs)
  show ?case
  proof (cases "f x \<le> k")
    case False
    then have "\<forall>y \<in> set xs. \<not> f y \<le> k" using Cons.prems by (auto simp: ssorted_Cons)
    with False show ?thesis by (simp add: filter_False)
  qed (use Cons in \<open>auto simp: ssorted_Cons\<close>)
qed simp

lemma map_load_filter:
  "map (the \<circ> load) (filter (\<lambda>i. P (the (load i))) xs) = filter P (map (the \<circ> load) xs)"
  by (simp add: filter_map o_def)

definition due_now :: "time \<Rightarrow> task \<Rightarrow> bool" where
  "due_now e t \<longleftrightarrow> Status t = StatusPending \<and> Unix (ExecuteAt t) < Unix e"

context badger
begin

lemma GetDueTasks_eq:
  assumes "wf_store kv db" and "fits16 (Unix e)"
  shows "GetDueTasks kv s e limit db = (take (due_limit limit) (filter (due_now e) (tasks_of kv db)), None)"
proof -
  let ?pfx = "statusPrefix StatusPending"
  let ?endKey = "?pfx @ fmt016d (Unix e)"
  let ?is = "filter (\<lambda>i. Status (the (load i)) = StatusPending) (task_items kv db)"
  have load: "\<forall>i \<in> set ?is. load i \<noteq> None"
    using wf_load(1) [OF assms(1)] by force
  have "takeWhile (\<lambda>i. item_key i \<le> ?endKey) ?is = filter (\<lambda>i. item_key i \<le> ?endKey) ?is"
    by (rule takeWhile_sorted_le) (rule ssorted_map_filter [OF task_items_sorted])
  also have "\<dots> = filter (\<lambda>i. due_now e (the (load i))) (task_items kv db)"
    unfolding filter_filter due_now_def
    using wf_load(2,3) [OF assms(1)] taskKey_endKey [OF _ assms(2)]
    by (intro filter_cong) auto
  finally have "map (the \<circ> load) (takeWhile (\<lambda>i. item_key i \<le> ?endKey) ?is)
      = filter (due_now e) (tasks_of kv db)"
    by (simp only: tasks_of_def map_load_filter)
  with due_loop_readable [OF load, of "[]"] show ?thesis
    by (simp add: GetDueTasks_def status_scan [OF assms(1)])
qed

text \<open>The task list of one partition is ordered by second, then id.\<close>

lemma tasks_of_ordered:
  assumes "wf_store kv db"
  shows "sorted_wrt (\<lambda>t u. taskKey t < taskKey u) (tasks_of kv db)"
proof -
  have "map item_key (task_items kv db) = map taskKey (tasks_of kv db)"
    using wf_load(2) [OF assms] by (simp add: tasks_of_def)
  then show ?thesis
    using task_items_sorted [of db] by (simp add: ssorted_def sorted_wrt_map)
qed

lemma pending_ordered:
  assumes "wf_store kv db"
  shows "sorted_wrt (\<lambda>t u. Unix (ExecuteAt t) \<le> Unix (ExecuteAt u))
    (filter (due_now e) (tasks_of kv db))"
proof -
  have "sorted_wrt (\<lambda>t u. taskKey t < taskKey u) (filter (due_now e) (tasks_of kv db))"
    by (rule sorted_wrt_filter [OF tasks_of_ordered [OF assms]])
  then show ?thesis
    by (rule sorted_wrt_mono_rel [rotated])
      (use tasks_of_wf [OF assms] in \<open>auto simp: due_now_def taskKey_less\<close>)
qed

end

end
