(* ===== verification/StoreScans.thy ===== *)
theory StoreScans
  imports StoreProps
begin

text \<open>
  The scanning operations of \<open>BadgerStore\<close> in terms of the task list: one page of
  \<open>ListTasks\<close> is a window of the matching tasks after the cursor's key, \<open>Counts\<close> counts
  the task list, \<open>RecoverRunning\<close> and \<open>DeleteTasks\<close> change exactly the tasks they
  name.
\<close>

section \<open>One page of a listing\<close>

definition listed :: "list_filter \<Rightarrow> task \<Rightarrow> bool" where
  "listed f t \<longleftrightarrow> (FilterStatus f = [] \<or> Status t = FilterStatus f) \<and> filter_matches f t"

definition list_items :: "'db kv \<Rightarrow> list_filter \<Rightarrow> 'db \<Rightarrow> item list" where
  "list_items kv f db = filter (\<lambda>i. listed f (the (load i))) (task_items kv db)"

text \<open>The page taken from the remaining matching items, and its cursor.\<close>

definition page_of :: "nat \<Rightarrow> item list \<Rightarrow> task list \<times> string" where
  "page_of m is = (map (the \<circ> load) (take m is),
     if length is \<le> m then [] else encodeCursor (item_key (is ! (m - 1))))"

lemma list_loop_readable:
  fixes f :: list_filter and skip :: "string option" and limit :: nat
  assumes "\<forall>i \<in> set is. load i \<noteq> None" and "length acc \<le> limit"
  defines "ms \<equiv> filter (\<lambda>i. skip \<noteq> Some (item_key i) \<and> filter_matches f (the (load i))) is"
  shows "list_loop limit f skip is acc lk =
    (acc @ map (the \<circ> load) (take (limit - length acc) ms),
     if length ms \<le> limit - length acc then []
     else encodeCursor (if length acc = limit then lk else item_key (ms ! (limit - length acc - 1))))"
  unfolding ms_def using assms(1,2)
proof (induction "is" arbitrary: acc lk)
  case (Cons i "is")
  then obtain v t where v: "item_value i = Inr v" "unmarshal_task v = Some t" "load i = Some t"
    by (auto simp: load_def split: sum.splits)
  consider (skip) "skip = Some (item_key i) \<or> \<not> filter_matches f t"
    | (full) "\<not> (skip = Some (item_key i) \<or> \<not> filter_matches f t)" "length acc = limit"
    | (take) k where "\<not> (skip = Some (item_key i) \<or> \<not> filter_matches f t)" "length acc \<noteq> limit"
        "limit - length acc = Suc k" "limit - Suc (length acc) = k" "Suc (length acc) \<le> limit"
    using Cons.prems(2) by (metis Suc_diff_Suc Suc_leI le_neq_implies_less)
  then show ?case
  proof cases
    case skip
    with v Cons.prems(1) Cons.IH [OF _ Cons.prems(2)] show ?thesis by auto
  next
    case full
    with v show ?thesis by simp
  next
    case take
    have "list_loop limit f skip is (acc @ [t]) (item_key i) =
      (acc @ [t] @ map (the \<circ> load) (List.take k
          (filter (\<lambda>i. skip \<noteq> Some (item_key i) \<and> filter_matches f (the (load i))) is)),
       if length (filter (\<lambda>i. skip \<noteq> Some (item_key i) \<and> filter_matches f (the (load i))) is) \<le> k
       then [] else encodeCursor (if Suc (length acc) = limit then item_key i
         else item_key (filter (\<lambda>i. skip \<noteq> Some (item_key i) \<and> filter_matches f (the (load i))) is ! (k - 1))))"
      using Cons.IH [of "acc @ [t]" "item_key i"] Cons.prems(1) take by simp
    moreover have "Suc (length acc) = limit \<longleftrightarrow> k = 0" using take by auto
    ultimately show ?thesis using take v by (cases k) auto
  qed
qed simp

lemma page_limit_pos: "0 < page_limit n"
  by (simp add: page_limit_def DefaultPageSize_def MaxPageSize_def)

lemma page_limit_le: "page_limit n \<le> MaxPageSize"
  by (auto simp: page_limit_def DefaultPageSize_def MaxPageSize_def)

definition status_filter_ok :: "list_filter \<Rightarrow> bool" where
  "status_filter_ok f \<longleftrightarrow> FilterStatus f = [] \<or> status_Valid (FilterStatus f)"

lemma list_prefix_keyPrefix [simp]: "has_prefix keyPrefix (list_prefix f)"
  by (simp add: list_prefix_def)

lemma list_prefix_nonempty [simp]: "list_prefix f \<noteq> []"
  by (simp add: list_prefix_def keyPrefix_def statusPrefix_def)

context badger
begin

lemma list_prefix_item:
  assumes "wf_store kv db" and "status_filter_ok f" and "i \<in> set (task_items kv db)"
  shows "has_prefix (list_prefix f) (item_key i)
    \<longleftrightarrow> FilterStatus f = [] \<or> Status (the (load i)) = FilterStatus f"
  using wf_load(2,3) [OF assms(1,3)] assms(2) taskKey_statusPrefix
  by (auto simp: list_prefix_def status_filter_ok_def)

lemma scan_from:
  assumes "wf_store kv db" and "status_filter_ok f" and "list_prefix f \<le> start"
  shows "scan kv db start (list_prefix f)
    = filter (\<lambda>i. (FilterStatus f = [] \<or> Status (the (load i)) = FilterStatus f) \<and> start \<le> item_key i)
        (task_items kv db)"
  unfolding scan_filter [OF assms(3)] filter_task_items [OF list_prefix_keyPrefix]
  using list_prefix_item [OF assms(1,2)] by (intro filter_cong) auto

lemma load_task_items:
  "wf_store kv db \<Longrightarrow> \<forall>i \<in> set (filter P (task_items kv db)). load i \<noteq> None"
  using wf_load(1) by force

lemma ListTasks_first:
  assumes "wf_store kv db" and "status_filter_ok f"
  shows "ListTasks kv f [] n db = Inr (page_of (page_limit n) (list_items kv f db))"
proof -
  let ?P = "\<lambda>i. (FilterStatus f = [] \<or> Status (the (load i)) = FilterStatus f) \<and> list_prefix f \<le> item_key i"
  have le: "list_prefix f \<le> item_key i"
    if "i \<in> set (task_items kv db)" "FilterStatus f = [] \<or> Status (the (load i)) = FilterStatus f" for i
    using list_prefix_item [OF assms that(1)] that(2) prefix_le by blast
  have "filter (\<lambda>i. filter_matches f (the (load i))) (filter ?P (task_items kv db)) = list_items kv f db"
    unfolding list_items_def filter_filter listed_def using le by (intro filter_cong) auto
  with list_loop_readable [OF load_task_items [OF assms(1), of ?P], where acc = "[]" and limit = "page_limit n" and f = f and skip = None]
  show ?thesis
    using page_limit_pos [of n]
    by (simp add: ListTasks_def scan_from [OF assms] page_of_def)
qed

lemma ListTasks_cursor:
  assumes "wf_store kv db" and "status_filter_ok f" and "has_prefix (list_prefix f) c"
  shows "ListTasks kv f (encodeCursor c) n db
    = Inr (page_of (page_limit n) (filter (\<lambda>i. c < item_key i) (list_items kv f db)))"
proof -
  let ?P = "\<lambda>i. (FilterStatus f = [] \<or> Status (the (load i)) = FilterStatus f) \<and> c \<le> item_key i"
  have c: "c \<noteq> []" using assms(3) by auto
  have "filter (\<lambda>i. Some c \<noteq> Some (item_key i) \<and> filter_matches f (the (load i)))
      (filter ?P (task_items kv db)) = filter (\<lambda>i. c < item_key i) (list_items kv f db)"
    unfolding list_items_def filter_filter listed_def
    by (intro filter_cong) (auto simp: order_le_less)
  with list_loop_readable [OF load_task_items [OF assms(1), of ?P], where acc = "[]" and limit = "page_limit n" and f = f and skip = "Some c"]
  show ?thesis
    using page_limit_pos [of n] c assms(3)
    by (simp add: ListTasks_def scan_from [OF assms(1,2)] prefix_le page_of_def)
qed

text \<open>After the first \<open>k\<close> matching items, the items beyond the cursor are the rest.\<close>

lemma list_items_sorted: "ssorted (map item_key (list_items kv f db))"
  unfolding list_items_def by (rule ssorted_map_filter [OF task_items_sorted])

lemma list_items_after:
  assumes "0 < k" and "k \<le> length (list_items kv f db)"
  shows "filter (\<lambda>i. item_key (list_items kv f db ! (k - 1)) < item_key i) (list_items kv f db)
    = drop k (list_items kv f db)"
proof -
  let ?L = "list_items kv f db"
  let ?c = "item_key (?L ! (k - 1))"
  have split: "?L = take (k - 1) ?L @ (?L ! (k - 1)) # drop k ?L"
    using assms by (metis Suc_diff_1 Suc_le_lessD id_take_nth_drop)
  then have "ssorted (map item_key (take (k - 1) ?L @ (?L ! (k - 1)) # drop k ?L))"
    using list_items_sorted [of f db] by simp
  then have s: "\<forall>i \<in> set (take (k - 1) ?L). item_key i < ?c" "\<forall>i \<in> set (drop k ?L). ?c < item_key i"
    by (auto simp: ssorted_append ssorted_Cons)
  have "filter (\<lambda>i. ?c < item_key i) (take (k - 1) ?L @ (?L ! (k - 1)) # drop k ?L) = drop k ?L"
    using s by (auto simp: filter_empty_conv filter_id_conv dest: order.asym)
  with split show ?thesis by simp
qed

lemma list_items_prefix:
  assumes "wf_store kv db" and "status_filter_ok f" and "i \<in> set (list_items kv f db)"
  shows "has_prefix (list_prefix f) (item_key i)"
  using assms list_prefix_item by (auto simp: list_items_def listed_def)

end

section \<open>Counting\<close>

definition status_count :: "task list \<Rightarrow> task_status \<Rightarrow> nat option" where
  "status_count ts s = (let n = length (filter (\<lambda>t. Status t = s) ts) in if n = 0 then None else Some n)"

lemma counts_loop_eq:
  assumes "\<forall>i \<in> set is. item_key i = taskKey (the (load i)) \<and> wf_task (the (load i))"
  shows "counts_loop cutoff is c =
    \<lparr>ByStatus = (\<lambda>s. case (ByStatus c s, status_count (map (\<lambda>i. the (load i)) is) s) of
         (None, m) \<Rightarrow> m | (Some n, None) \<Rightarrow> Some n | (Some n, Some m) \<Rightarrow> Some (n + m)),
     Overdue = Overdue c + length (filter (\<lambda>t. Status t = StatusPending \<and> Unix (ExecuteAt t) \<le> cutoff)
       (map (\<lambda>i. the (load i)) is))\<rparr>"
  using assms
proof (induction "is" arbitrary: c)
  case Nil
  then show ?case
    by (cases c) (auto simp: status_count_def fun_eq_iff split: option.splits)
next
  case (Cons i "is")
  let ?t = "the (load i)"
  have k: "parseKey (item_key i) = Some (Status ?t, Unix (ExecuteAt ?t))"
    using Cons.prems parseKey_taskKey by simp
  have IH: "counts_loop cutoff is c' =
    \<lparr>ByStatus = (\<lambda>s. case (ByStatus c' s, status_count (map (\<lambda>i. the (load i)) is) s) of
         (None, m) \<Rightarrow> m | (Some n, None) \<Rightarrow> Some n | (Some n, Some m) \<Rightarrow> Some (n + m)),
     Overdue = Overdue c' + length (filter (\<lambda>t. Status t = StatusPending \<and> Unix (ExecuteAt t) \<le> cutoff)
       (map (\<lambda>i. the (load i)) is))\<rparr>" for c'
    using Cons by simp
  show ?case
    by (simp add: k IH) (auto simp: bump_def status_count_def Let_def fun_eq_iff split: option.splits)
qed

context badger
begin

lemma Counts_eq:
  assumes "wf_store kv db"
  shows "Counts kv now db =
    \<lparr>ByStatus = status_count (tasks_of kv db),
     Overdue = length (filter (\<lambda>t. Status t = StatusPending \<and> Unix (ExecuteAt t) \<le> Unix now)
       (tasks_of kv db))\<rparr>"
proof -
  have "\<forall>i \<in> set (task_items kv db). item_key i = taskKey (the (load i)) \<and> wf_task (the (load i))"
    using wf_load(2,3) [OF assms] by blast
  from counts_loop_eq [OF this] show ?thesis
    by (simp add: Counts_def task_items_def [symmetric] tasks_of_def o_def)
qed

end

section \<open>Recovery\<close>

definition requeue :: "task \<Rightarrow> task" where
  "requeue t = (if Status t = StatusRunning then t\<lparr>Status := StatusPending\<rparr> else t)"

lemma collect_stuck_readable:
  "\<forall>i \<in> set is. load i \<noteq> None \<Longrightarrow> collect_stuck is = Inr (map (the \<circ> load) is)"
proof (induction "is")
  case (Cons i "is")
  then obtain v t where "item_value i = Inr v" "unmarshal_task v = Some t" "load i = Some t"
    by (auto simp: load_def split: sum.splits)
  with Cons show ?case by simp
qed simp

context badger
begin

lemma requeue_all_map:
  assumes "wf_store kv db" and "distinct (map ID ts)"
    and "\<forall>t \<in> set ts. view kv db (ID t) = Some t"
    and "requeue_all kv ttl ts db = Inr db'"
  shows "wf_store kv db' \<and> view kv db' =
    (\<lambda>x. map_option (\<lambda>t. if t \<in> set ts then t\<lparr>Status := StatusPending\<rparr> else t) (view kv db x))"
  using assms
proof (induction ts arbitrary: db)
  case Nil
  then show ?case by (auto simp: option.map_ident fun_eq_iff)
next
  case (Cons t ts)
  let ?p = "t\<lparr>Status := StatusPending\<rparr>"
  obtain db1 db2 where d: "kv_delete kv db (taskKey t) = Inr db1"
    and p: "put kv ttl db1 ?p = Inr db2" and r: "requeue_all kv ttl ts db2 = Inr db'"
    using Cons.prems(4) by (auto split: sum.splits)
  have vt: "view kv db (ID t) = Some t" using Cons.prems(3) by simp
  then have "wf_task t" using view_ID [OF Cons.prems(1)] by blast
  then have "wf_task ?p" by simp
  from replace_map [OF Cons.prems(1) vt _ this d p]
  have db2: "wf_store kv db2" "view kv db2 = (view kv db)(ID t \<mapsto> ?p)" by simp_all
  have ts: "\<forall>u \<in> set ts. view kv db2 (ID u) = Some u"
  proof
    fix u assume u: "u \<in> set ts"
    then have "ID u \<noteq> ID t" using Cons.prems(2) by (metis distinct.simps(2) image_eqI list.map(2) set_map)
    with u Cons.prems(3) db2(2) show "view kv db2 (ID u) = Some u" by simp
  qed
  have IH: "wf_store kv db' \<and> view kv db' =
      (\<lambda>x. map_option (\<lambda>t. if t \<in> set ts then t\<lparr>Status := StatusPending\<rparr> else t) (view kv db2 x))"
    using Cons.IH [OF db2(1) _ ts r] Cons.prems(2) by simp
  have p: "?p \<notin> set ts"
  proof
    assume "?p \<in> set ts"
    then have "ID ?p \<in> ID ` set ts" by (rule imageI)
    with Cons.prems(2) show False by simp
  qed
  have "map_option (\<lambda>u. if u \<in> set (t # ts) then u\<lparr>Status := StatusPending\<rparr> else u) (view kv db x)
      = map_option (\<lambda>u. if u \<in> set ts then u\<lparr>Status := StatusPending\<rparr> else u) (view kv db2 x)" for x
  proof (cases "x = ID t")
    case True
    with vt db2(2) p show ?thesis by simp
  next
    case False
    then have "view kv db2 x = view kv db x" using db2(2) by simp
    moreover have "u \<noteq> t" if "view kv db x = Some u" for u
      using view_ID [OF Cons.prems(1) that] False by auto
    ultimately show ?thesis by (cases "view kv db x") simp_all
  qed
  then show ?case using IH by (simp only: simp_thms)
qed

lemma RecoverRunning_map:
  assumes "wf_store kv db" and "RecoverRunning kv ttl db = (None, db')"
  shows "wf_store kv db' \<and> view kv db' = map_option requeue \<circ> view kv db"
proof -
  let ?is = "filter (\<lambda>i. Status (the (load i)) = StatusRunning) (task_items kv db)"
  let ?ts = "filter (\<lambda>t. Status t = StatusRunning) (tasks_of kv db)"
  have scan: "scan kv db (statusPrefix StatusRunning) (statusPrefix StatusRunning) = ?is"
    by (rule status_scan [OF assms(1)]) simp
  have "collect_stuck ?is = Inr ?ts"
    using collect_stuck_readable [OF load_task_items [OF assms(1)]]
    unfolding tasks_of_def map_load_filter [of "\<lambda>t. Status t = StatusRunning", symmetric] .
  then obtain txn where r: "requeue_all kv ttl ?ts db = Inr txn" and c: "kv_commit kv db txn = Inr db'"
    using assms(2) scan by (auto simp: RecoverRunning_def db_Update_ok)
  have "distinct (task_items kv db)" using distinct_items by (simp add: task_items_def scan_prefix)
  moreover have "inj_on item_ID (set (task_items kv db))"
    using wf_store_ID [OF assms(1)] by (auto intro: inj_onI)
  ultimately have "distinct (map item_ID (task_items kv db))" by (simp add: distinct_map)
  moreover have "map item_ID (task_items kv db) = map ID (tasks_of kv db)"
    using wf_load(4) [OF assms(1)] by (simp add: tasks_of_def)
  ultimately have dist: "distinct (map ID ?ts)" by (simp add: distinct_map_filter)
  have vs: "\<forall>t \<in> set ?ts. view kv db (ID t) = Some t"
    using view_Some [OF assms(1)] by simp
  have "wf_store kv txn" and v: "view kv txn =
    (\<lambda>x. map_option (\<lambda>t. if t \<in> set ?ts then t\<lparr>Status := StatusPending\<rparr> else t) (view kv db x))"
    using requeue_all_map [OF assms(1) dist vs r] by simp_all
  moreover have "view kv txn x = map_option requeue (view kv db x)" for x
    using view_Some [OF assms(1), of x] by (cases "view kv db x") (auto simp: v requeue_def)
  ultimately show ?thesis using commit_view [OF c] by (auto simp: fun_eq_iff)
qed

end

section \<open>Bulk deletion\<close>

context badger
begin

lemma delete_loop_view:
  assumes "wf_store kv db" and "\<forall>i \<in> set is. load i \<noteq> None \<and> item_key i = taskKey (the (load i))"
    and "distinct (map (the \<circ> load) is)" and "set (map (the \<circ> load) is) \<subseteq> set (tasks_of kv db)"
    and "delete_loop kv P is n db = (m, Inr db')"
  shows "wf_store kv db' \<and> m = n + length (filter P (map (the \<circ> load) is))
    \<and> set (tasks_of kv db') = set (tasks_of kv db) - {t \<in> set (map (the \<circ> load) is). P t}"
  using assms
proof (induction "is" arbitrary: n db)
  case (Cons i "is")
  then obtain v t where v: "item_value i = Inr v" "unmarshal_task v = Some t" "load i = Some t"
    by (auto simp: load_def split: sum.splits)
  show ?case
  proof (cases "P t")
    case False
    with v Cons show ?thesis by auto
  next
    case True
    with v Cons.prems obtain db1 where d: "kv_delete kv db (taskKey t) = Inr db1"
      and r: "delete_loop kv P is (Suc n) db1 = (m, Inr db')"
      by (auto split: sum.splits)
    have db1: "wf_store kv db1" "set (tasks_of kv db1) = set (tasks_of kv db) - {t}"
      using delete_view [OF Cons.prems(1) _ d] Cons.prems(4) v by auto
    have "set (map (the \<circ> load) is) \<subseteq> set (tasks_of kv db1)"
      using Cons.prems(3,4) db1(2) v by auto
    from Cons.IH [OF db1(1) _ _ this r] Cons.prems(2,3) db1(2) True v show ?thesis by auto
  qed
qed simp

lemma DeleteTasks_view:
  fixes url status :: string and before after :: "time option"
  assumes "wf_store kv db" and "DeleteTasks kv url status before after db = ((n, None), db')"
  defines "P \<equiv> delete_matches url status before after"
  shows "wf_store kv db' \<and> n = length (filter P (tasks_of kv db))
    \<and> set (tasks_of kv db') = {t \<in> set (tasks_of kv db). \<not> P t}"
proof -
  obtain txn where l: "delete_loop kv P (task_items kv db) 0 db = (n, Inr txn)"
    and c: "kv_commit kv db txn = Inr db'"
    using assms(2)
    by (auto simp: DeleteTasks_def P_def task_items_def db_Update_ok split: prod.splits)
  have "inj_on (the \<circ> load) (set (task_items kv db))"
    using wf_store_ID [OF assms(1)] wf_load(4) [OF assms(1)] by (auto intro!: inj_onI)
  then have "distinct (map (the \<circ> load) (task_items kv db))"
    using distinct_items by (simp add: distinct_map task_items_def scan_prefix)
  moreover have "\<forall>i \<in> set (task_items kv db). load i \<noteq> None \<and> item_key i = taskKey (the (load i))"
    using wf_load(1,2) [OF assms(1)] by (metis option.distinct(1))
  ultimately show ?thesis
    using delete_loop_view [OF assms(1) _ _ _ l] commit_view [OF c] by (auto simp: tasks_of_def)
qed

lemma DeleteTasks_map:
  assumes "wf_store kv db" and "DeleteTasks kv url status before after db = ((n, None), db')"
  shows "view kv db' = (\<lambda>x. case view kv db x of None \<Rightarrow> None
    | Some t \<Rightarrow> if delete_matches url status before after t then None else Some t)"
proof
  fix x
  note d = DeleteTasks_view [OF assms]
  show "view kv db' x = (case view kv db x of None \<Rightarrow> None
    | Some t \<Rightarrow> if delete_matches url status before after t then None else Some t)"
  proof (cases "view kv db x")
    case None
    then have "view kv db' x = None" using d assms(1) by (simp add: view_None)
    with None show ?thesis by simp
  next
    case (Some t)
    then have t: "t \<in> set (tasks_of kv db)" "ID t = x" using assms(1) by (simp_all add: view_Some)
    show ?thesis
    proof (cases "delete_matches url status before after t")
      case False
      with d t have "view kv db' x = Some t" by (simp add: view_Some)
      with Some False show ?thesis by simp
    next
      case True
      then have "view kv db' x = None"
        using d t tasks_of_ID [OF assms(1)] by (auto simp: view_None)
      with Some True show ?thesis by simp
    qed
  qed
qed

end

end
