(* ===== verification/StoreIface.thy ===== *)
theory StoreIface
  imports StoreScans
begin

text \<open>
  The \<open>Store\<close> interface of \<open>internal/scheduler/store.go\<close>, which the runner and the HTTP
  handlers are written against: a record of operations over a state \<open>'s\<close>, and the
  locale \<open>task_store\<close> with the contract its clients rely on. The contract speaks of a map
  from ids to tasks (\<open>tasks\<close>) that means something while the provider's invariant \<open>ok\<close>
  holds, of the list of tasks a filter selects (\<open>listing\<close>), and of the position in that
  list a cursor stands for (\<open>at_cursor\<close>). \<open>BadgerStore\<close> provides it, whatever the
  key-value database, as long as that behaves as \<open>badger\<close> says.
\<close>

record 's Store =
  st_Save :: "task \<Rightarrow> 's \<Rightarrow> string option \<times> 's"
  st_Update :: "task \<Rightarrow> 's \<Rightarrow> string option \<times> 's"
  st_Delete :: "string \<Rightarrow> 's \<Rightarrow> string option \<times> 's"
  st_GetTask :: "string \<Rightarrow> 's \<Rightarrow> string + task option"
  st_DeleteTasks :: "string \<Rightarrow> string \<Rightarrow> time option \<Rightarrow> time option \<Rightarrow> 's \<Rightarrow> (nat \<times> string option) \<times> 's"
  st_GetDueTasks :: "time \<Rightarrow> time \<Rightarrow> int \<Rightarrow> 's \<Rightarrow> task list \<times> string option"
  st_ListTasks :: "list_filter \<Rightarrow> string \<Rightarrow> int \<Rightarrow> 's \<Rightarrow> store_error + task list \<times> string"
  st_RecoverRunning :: "'s \<Rightarrow> string option \<times> 's"
  st_Counts :: "time \<Rightarrow> 's \<Rightarrow> string + counts"

locale task_store =
  fixes st :: "'s Store"
    and ok :: "'s \<Rightarrow> bool"
    and tasks :: "'s \<Rightarrow> string \<Rightarrow> task option"
    and listing :: "'s \<Rightarrow> list_filter \<Rightarrow> task list"
    and at_cursor :: "'s \<Rightarrow> list_filter \<Rightarrow> string \<Rightarrow> nat \<Rightarrow> bool"
  assumes tasks_wf: "ok s \<Longrightarrow> tasks s x = Some t \<Longrightarrow> ID t = x \<and> wf_task t"
    and save_ok: "ok s \<Longrightarrow> wf_task (t\<lparr>Status := StatusPending\<rparr>) \<Longrightarrow> tasks s (ID t) = None \<Longrightarrow>
      st_Save st t s = (None, s') \<Longrightarrow>
      ok s' \<and> tasks s' = (tasks s)(ID t \<mapsto> t\<lparr>Status := StatusPending\<rparr>)"
    and save_err: "st_Save st t s = (Some e, s') \<Longrightarrow> s' = s"
    and update_ok: "ok s \<Longrightarrow> wf_task t \<Longrightarrow> st_Update st t s = (None, s') \<Longrightarrow>
      ok s' \<and> tasks s' = (tasks s)(ID t \<mapsto> t)"
    and update_err: "st_Update st t s = (Some e, s') \<Longrightarrow> s' = s"
    and delete_ok: "ok s \<Longrightarrow> colon \<notin> set x \<Longrightarrow> st_Delete st x s = (None, s') \<Longrightarrow>
      ok s' \<and> tasks s' = (tasks s)(x := None)"
    and delete_err: "st_Delete st x s = (Some e, s') \<Longrightarrow> s' = s"
    and get_task: "ok s \<Longrightarrow> colon \<notin> set x \<Longrightarrow> st_GetTask st x s = Inr (tasks s x)"
    and get_task_stored: "ok s \<Longrightarrow>
      \<exists>r. st_GetTask st x s = Inr r \<and> (case r of None \<Rightarrow> True | Some t \<Rightarrow> tasks s (ID t) = Some t)"
    and delete_tasks_ok: "ok s \<Longrightarrow> st_DeleteTasks st url status before after s = ((cnt, None), s') \<Longrightarrow>
      ok s' \<and> tasks s' = (\<lambda>x. case tasks s x of None \<Rightarrow> None
        | Some t \<Rightarrow> if delete_matches url status before after t then None else Some t)"
    and delete_tasks_err: "st_DeleteTasks st url status before after s = ((cnt, Some e), s') \<Longrightarrow> s' = s"
    and due_tasks: "ok s \<Longrightarrow> fits16 (Unix until) \<Longrightarrow>
      \<exists>ts. st_GetDueTasks st from_time until limit s = (ts, None) \<and> distinct (map ID ts)
        \<and> length ts \<le> due_limit limit
        \<and> (\<forall>t \<in> set ts. tasks s (ID t) = Some t \<and> due_now until t)"
    and recover_ok: "ok s \<Longrightarrow> st_RecoverRunning st s = (None, s') \<Longrightarrow>
      ok s' \<and> tasks s' = map_option requeue \<circ> tasks s"
    and recover_err: "st_RecoverRunning st s = (Some e, s') \<Longrightarrow> s' = s"
    and listing_set: "ok s \<Longrightarrow> t \<in> set (listing s f) \<longleftrightarrow> tasks s (ID t) = Some t \<and> listed f t"
    and list_start: "at_cursor s f [] 0"
    and list_page: "ok s \<Longrightarrow> status_filter_ok f \<Longrightarrow> at_cursor s f c k \<Longrightarrow>
      \<exists>next. st_ListTasks st f c n s = Inr (take (page_limit n) (drop k (listing s f)), next)
        \<and> (if length (listing s f) \<le> k + page_limit n then next = []
           else next \<noteq> [] \<and> at_cursor s f next (k + page_limit n))"

text \<open>
  A client that follows the cursors: it asks for one page after the other until the cursor is
  empty, at most \<open>fuel\<close> pages.
\<close>

fun walk_pages :: "'s Store \<Rightarrow> list_filter \<Rightarrow> int \<Rightarrow> nat \<Rightarrow> string \<Rightarrow> 's \<Rightarrow> task list option" where
  "walk_pages st f n 0 c s = None"
| "walk_pages st f n (Suc fuel) c s =
     (case st_ListTasks st f c n s of
        Inl e \<Rightarrow> None
      | Inr (ts, next) \<Rightarrow>
          if next = [] then Some ts else map_option (append ts) (walk_pages st f n fuel next s))"

context task_store
begin

lemma walk_pages_rest:
  assumes "ok s" and "status_filter_ok f"
  shows "at_cursor s f c k \<Longrightarrow> length (listing s f) < k + fuel \<Longrightarrow>
    walk_pages st f n fuel c s = Some (drop k (listing s f)) \<or> length (listing s f) < k"
proof (induction fuel arbitrary: c k)
  case (Suc fuel)
  let ?L = "listing s f" and ?m = "page_limit n"
  obtain c' where page: "st_ListTasks st f c n s = Inr (take ?m (drop k ?L), c')"
    and next_c: "if length ?L \<le> k + ?m then c' = [] else c' \<noteq> [] \<and> at_cursor s f c' (k + ?m)"
    using list_page [OF assms Suc.prems(1)] by blast
  show ?case
  proof (cases "length ?L \<le> k + ?m")
    case True
    then show ?thesis using next_c by (simp add: page)
  next
    case False
    then have c': "c' \<noteq> []" "at_cursor s f c' (k + ?m)" using next_c by simp_all
    have "length ?L < (k + ?m) + fuel" using Suc.prems(2) page_limit_pos [of n] by linarith
    from Suc.IH [OF c'(2) this] False
    have "walk_pages st f n fuel c' s = Some (drop ?m (drop k ?L))" by (simp add: add.commute)
    moreover have "take ?m (drop k ?L) @ drop (?m + k) ?L = drop k ?L"
      using append_take_drop_id [of ?m "drop k ?L"] by (simp only: drop_drop)
    ultimately show ?thesis using c'(1) by (simp add: page)
  qed
qed simp

lemma walk_pages_all:
  assumes "ok s" and "status_filter_ok f" and "length (listing s f) < fuel"
  shows "walk_pages st f n fuel [] s = Some (listing s f)"
  using walk_pages_rest [OF assms(1,2) list_start, of fuel n] assms(3) by simp

end

text \<open>An id the store can take and does not use yet, as \<open>uuid.NewString\<close> returns.\<close>

definition fresh_id :: "string \<Rightarrow> (string \<Rightarrow> task option) \<Rightarrow> bool" where
  "fresh_id uuid m \<longleftrightarrow> uuid \<noteq> [] \<and> colon \<notin> set uuid \<and> m uuid = None"

section \<open>BadgerStore provides the interface\<close>

definition badger_store :: "'db kv \<Rightarrow> duration \<Rightarrow> 'db Store" where
  "badger_store kv ttl =
     \<lparr>st_Save = Save kv ttl, st_Update = Update kv ttl, st_Delete = Delete kv,
      st_GetTask = GetTask kv, st_DeleteTasks = DeleteTasks kv, st_GetDueTasks = GetDueTasks kv,
      st_ListTasks = ListTasks kv, st_RecoverRunning = RecoverRunning kv ttl, st_Counts = (\<lambda>now db. Inr (Counts kv now db))\<rparr>"

definition db_listing :: "'db kv \<Rightarrow> 'db \<Rightarrow> list_filter \<Rightarrow> task list" where
  "db_listing kv db f = filter (listed f) (tasks_of kv db)"

definition db_at_cursor :: "'db kv \<Rightarrow> 'db \<Rightarrow> list_filter \<Rightarrow> string \<Rightarrow> nat \<Rightarrow> bool" where
  "db_at_cursor kv db f c k \<longleftrightarrow>
     k = 0 \<and> c = []
     \<or> 0 < k \<and> k \<le> length (list_items kv f db) \<and> c = encodeCursor (item_key (list_items kv f db ! (k - 1)))"

lemma badger_store_ops [simp]:
  "st_Save (badger_store kv ttl) = Save kv ttl"
  "st_Update (badger_store kv ttl) = Update kv ttl"
  "st_Delete (badger_store kv ttl) = Delete kv"
  "st_GetTask (badger_store kv ttl) = GetTask kv"
  "st_DeleteTasks (badger_store kv ttl) = DeleteTasks kv"
  "st_GetDueTasks (badger_store kv ttl) = GetDueTasks kv"
  "st_ListTasks (badger_store kv ttl) = ListTasks kv"
  "st_RecoverRunning (badger_store kv ttl) = RecoverRunning kv ttl"
  "st_Counts (badger_store kv ttl) = (\<lambda>now db. Inr (Counts kv now db))"
  by (simp_all add: badger_store_def)

lemma db_listing_items: "db_listing kv db f = map (the \<circ> load) (list_items kv f db)"
  by (simp add: db_listing_def tasks_of_def list_items_def map_load_filter)

context badger
begin

lemma distinct_IDs:
  assumes "wf_store kv db"
  shows "distinct (map ID (tasks_of kv db))"
proof -
  have "inj_on item_ID (set (task_items kv db))"
    using wf_store_ID [OF assms] by (auto intro: inj_onI)
  then have "distinct (map item_ID (task_items kv db))"
    using distinct_items by (simp add: distinct_map task_items_def scan_prefix)
  moreover have "map item_ID (task_items kv db) = map ID (tasks_of kv db)"
    using wf_load(4) [OF assms] by (simp add: tasks_of_def)
  ultimately show ?thesis by simp
qed

text \<open>Whatever id is asked for, a task that is found is stored under its own id.\<close>

lemma GetTask_stored:
  assumes "wf_store kv db"
  shows "\<exists>r. GetTask kv x db = Inr r \<and> (case r of None \<Rightarrow> True | Some t \<Rightarrow> view kv db (ID t) = Some t)"
proof (cases "find (\<lambda>i. has_suffix ('':'' @ x) (item_key i)) (task_items kv db)")
  case None
  then show ?thesis by (simp add: GetTask_def task_items_def)
next
  case (Some i)
  then have i: "i \<in> set (task_items kv db)" using find_SomeD by metis
  then obtain t where "load i = Some t" "t \<in> set (tasks_of kv db)"
    using wf_load(1) [OF assms] in_tasks_of [OF assms] by metis
  with Some show ?thesis
    by (auto simp: GetTask_def task_items_def load_Some view_Some [OF assms])
qed

lemma due_contract:
  assumes "wf_store kv db" and "fits16 (Unix e)"
  shows "\<exists>ts. GetDueTasks kv b e limit db = (ts, None) \<and> distinct (map ID ts)
    \<and> length ts \<le> due_limit limit \<and> (\<forall>t \<in> set ts. view kv db (ID t) = Some t \<and> due_now e t)"
proof -
  let ?ts = "take (due_limit limit) (filter (due_now e) (tasks_of kv db))"
  have d: "distinct (map ID ?ts)"
    using distinct_IDs [OF assms(1)] by (simp add: take_map [symmetric] distinct_map_filter)
  have v: "\<forall>t \<in> set ?ts. view kv db (ID t) = Some t \<and> due_now e t"
  proof
    fix t assume "t \<in> set ?ts"
    then have "t \<in> set (filter (due_now e) (tasks_of kv db))" by (rule in_set_takeD)
    then show "view kv db (ID t) = Some t \<and> due_now e t" by (simp add: view_Some [OF assms(1)])
  qed
  show ?thesis
    by (rule exI [of _ ?ts], intro conjI GetDueTasks_eq [OF assms] d v) simp
qed

lemma page_contract:
  assumes "wf_store kv db" and "status_filter_ok f" and "db_at_cursor kv db f c k"
  shows "\<exists>next. ListTasks kv f c n db = Inr (take (page_limit n) (drop k (db_listing kv db f)), next)
    \<and> (if length (db_listing kv db f) \<le> k + page_limit n then next = []
       else next \<noteq> [] \<and> db_at_cursor kv db f next (k + page_limit n))"
proof -
  let ?L = "list_items kv f db" and ?m = "page_limit n"
  have list: "ListTasks kv f c n db = Inr (page_of ?m (drop k ?L))"
    using assms(3) unfolding db_at_cursor_def
  proof
    assume "k = 0 \<and> c = []"
    then show ?thesis using ListTasks_first [OF assms(1,2)] by simp
  next
    assume c: "0 < k \<and> k \<le> length ?L \<and> c = encodeCursor (item_key (?L ! (k - 1)))"
    then have "has_prefix (list_prefix f) (item_key (?L ! (k - 1)))"
      by (intro list_items_prefix [OF assms(1,2)] nth_mem) auto
    from ListTasks_cursor [OF assms(1,2) this] c list_items_after [of k f db] show ?thesis by simp
  qed
  have len: "length (db_listing kv db f) = length ?L" by (simp add: db_listing_items)
  show ?thesis
  proof (cases "length ?L \<le> k + ?m")
    case True
    then show ?thesis by (simp add: list page_of_def len) (simp add: db_listing_items take_map drop_map)
  next
    case False
    then have "item_key (drop k ?L ! (?m - 1)) = item_key (?L ! (k + ?m - 1))"
      using page_limit_pos [of n] by simp
    moreover have "item_key (?L ! (k + ?m - 1)) \<noteq> []"
      using False list_items_prefix [OF assms(1,2), of "?L ! (k + ?m - 1)"] by auto
    ultimately show ?thesis using False page_limit_pos [of n]
      by (simp add: list page_of_def len db_at_cursor_def)
        (simp add: db_listing_items take_map drop_map)
  qed
qed

end

sublocale badger \<subseteq> store: task_store "badger_store kv ttl" "wf_store kv" "view kv"
  "db_listing kv" "db_at_cursor kv" for ttl
proof (unfold_locales, unfold badger_store_ops, goal_cases)
  case 1 then show ?case by (rule view_ID)
next
  case 2 then show ?case by (rule Save_map)
next
  case 3 then show ?case by (rule Save_error)
next
  case 4 then show ?case by (rule Update_map)
next
  case 5 then show ?case by (rule Update_error)
next
  case 6 then show ?case by (rule Delete_map)
next
  case 7 then show ?case by (rule Delete_error)
next
  case 8 then show ?case by (rule GetTask_view)
next
  case 9 then show ?case by (rule GetTask_stored)
next
  case 10 then show ?case using DeleteTasks_view DeleteTasks_map by blast
next
  case 11 then show ?case by (rule DeleteTasks_error)
next
  case 12 then show ?case by (rule due_contract)
next
  case 13 then show ?case by (rule RecoverRunning_map)
next
  case 14 then show ?case by (rule RecoverRunning_error)
next
  case 15 then show ?case by (auto simp: db_listing_def view_Some)
next
  case 16 show ?case by (simp add: db_at_cursor_def)
next
  case 17 then show ?case by (rule page_contract)
qed

context badger
begin

lemma contract: "task_store (badger_store kv ttl) (wf_store kv) (view kv) (db_listing kv) (db_at_cursor kv)"
  by (rule store.task_store_axioms)

end

interpretation mem_store: task_store "badger_store (mem_kv capacity) ttl" "wf_store (mem_kv capacity)"
  "view (mem_kv capacity)" "db_listing (mem_kv capacity)" "db_at_cursor (mem_kv capacity)"
  for capacity ttl
  by (rule mem.store.task_store_axioms)

end
