(* ===== verification/MemStore.thy ===== *)
theory MemStore
  imports StoreIface
begin

text \<open>
  The in-memory instance as a concrete store: the database that holds a given list of tasks,
  what it looks like through the view, and when its writes succeed. The small stores of the
  examples are built from it.
\<close>

definition mem_item :: "duration \<Rightarrow> task \<Rightarrow> item" where
  "mem_item ttl t = \<lparr>item_key = taskKey t, item_value = Inr (Doc (marshal_task t)),
     item_ttl = (if IsTerminal (Status t) \<and> 0 < ttl then Some ttl else None)\<rparr>"

definition mem_db :: "duration \<Rightarrow> task list \<Rightarrow> item list" where
  "mem_db ttl ts = map (mem_item ttl) ts"

definition storable :: "task list \<Rightarrow> bool" where
  "storable ts \<longleftrightarrow> list_all wf_task ts \<and> distinct (map ID ts)"

lemma mem_item_simps [simp]: "item_key (mem_item ttl t) = taskKey t" "load (mem_item ttl t) = Some t"
  "item_ID (mem_item ttl t) = ID t"
  by (simp_all add: mem_item_def load_def unmarshal_marshal item_ID_def)

lemma set_mem_items: "distinct (map item_key db) \<Longrightarrow> set (mem_items db) = set db"
proof (induction db)
  case (Cons i db)
  then show ?case using mem_items_Cons [of i db] by (auto simp: image_iff)
qed (simp add: mem_items_def)

lemma storable_keys: "storable ts \<Longrightarrow> distinct (map taskKey ts)"
proof -
  assume "storable ts"
  then have "distinct ts" and "inj_on ID (set ts)" and "\<forall>t \<in> set ts. wf_task t"
    by (simp_all add: storable_def distinct_map list_all_iff)
  moreover have "inj_on taskKey (set ts)"
    by (rule inj_onI) (metis calculation(2,3) inj_onD taskKey_inj)
  ultimately show ?thesis by (simp add: distinct_map)
qed

lemma kv_items_mem [simp]: "kv_items (mem_kv c) = mem_items"
  by (simp add: mem_kv_def)

lemma mem_task_items:
  assumes "storable ts"
  shows "set (task_items (mem_kv c) (mem_db ttl ts)) = mem_item ttl ` set ts"
proof -
  have "distinct (map item_key (mem_db ttl ts))"
    using storable_keys [OF assms] by (simp add: mem_db_def o_def)
  then show ?thesis using set_mem_items by (auto simp: mem.set_task_items mem_db_def)
qed

lemma mem_wf:
  assumes "storable ts"
  shows "wf_store (mem_kv c) (mem_db ttl ts)"
proof -
  have "wf_item (mem_item ttl t)" if "t \<in> set ts" for t
    using assms that by (simp add: wf_item_def storable_def list_all_iff) (simp add: mem_item_def)
  moreover have "inj_on ID (set ts)" using assms by (simp add: storable_def distinct_map)
  ultimately show ?thesis
    unfolding wf_store_def mem_task_items [OF assms] by (auto dest: inj_onD)
qed

lemma mem_tasks_of: "storable ts \<Longrightarrow> set (tasks_of (mem_kv c) (mem_db ttl ts)) = set ts"
  by (simp add: tasks_of_def mem_task_items image_image)

lemma mem_view_iff:
  "storable ts \<Longrightarrow> view (mem_kv c) (mem_db ttl ts) x = Some t \<longleftrightarrow> t \<in> set ts \<and> ID t = x"
  by (simp add: view_Some mem_wf mem_tasks_of)

lemma mem_view_None:
  "storable ts \<Longrightarrow> view (mem_kv c) (mem_db ttl ts) x = None \<longleftrightarrow> x \<notin> ID ` set ts"
  using view_None [OF mem_wf] mem_tasks_of by fastforce

section \<open>Writes that succeed\<close>

lemma mem_put: "length db < c \<Longrightarrow> marshal_ok t \<Longrightarrow> \<exists>db'. put (mem_kv c) ttl db t = Inr db'"
  by (simp add: put_def mem_kv_def)

lemma mem_commit [simp]: "kv_commit (mem_kv c) db txn = Inr txn"
  by (simp add: mem_kv_def)

lemma mem_Save:
  assumes "length db < c" and "marshal_ok (t\<lparr>Status := StatusPending\<rparr>)"
  shows "Save (mem_kv c) ttl t db = (None, snd (Save (mem_kv c) ttl t db))"
  using mem_put [OF assms, of ttl] by (auto simp: Save_def db_Update_def)

lemma mem_Update:
  assumes "length db < c" and "marshal_ok t"
  shows "Update (mem_kv c) ttl t db = (None, snd (Update (mem_kv c) ttl t db))"
proof (cases "findKey (mem_kv c) db (ID t)")
  case None
  with mem_put [OF assms, of ttl] show ?thesis by (auto simp: Update_def db_Update_def)
next
  case (Some k)
  have "k \<noteq> []"
    using Some find_SomeD unfolding findKey_def by fastforce
  then have d: "kv_delete (mem_kv c) db k = Inr (filter (\<lambda>i. item_key i \<noteq> k) db)" by (simp add: mem_kv_def)
  have "length (filter (\<lambda>i. item_key i \<noteq> k) db) < c" by (rule le_less_trans [OF length_filter_le assms(1)])
  from mem_put [OF this assms(2), of ttl] Some d show ?thesis by (auto simp: Update_def db_Update_def)
qed

lemma mem_Update_length: "length (snd (Update (mem_kv c) ttl t db)) \<le> Suc (length db)"
proof (cases "findKey (mem_kv c) db (ID t)")
  case None
  then show ?thesis by (simp add: Update_def db_Update_def put_def mem_kv_def)
next
  case (Some k)
  have "length (filter (\<lambda>i. item_key i \<noteq> k) db) \<le> length db" by (rule length_filter_le)
  with Some show ?thesis by (auto simp: Update_def db_Update_def put_def mem_kv_def)
qed

lemma mem_Delete: "Delete (mem_kv c) x db = (None, snd (Delete (mem_kv c) x db))"
proof (cases "findKey (mem_kv c) db x")
  case (Some k)
  then have "k \<noteq> []" using find_SomeD unfolding findKey_def by fastforce
  with Some show ?thesis by (simp add: Delete_def db_Update_def) (simp add: mem_kv_def)
qed (simp add: Delete_def db_Update_def)

lemma taskKey_not_Nil [simp]: "taskKey t \<noteq> []"
  by (simp add: taskKey_def)

lemma mem_delete [simp]:
  "kv_delete (mem_kv c) db (taskKey t) = Inr (filter (\<lambda>i. item_key i \<noteq> taskKey t) db)"
  by (simp add: mem_kv_def)

lemma length_upsert: "length (upsert i js) \<le> Suc (length js)"
  by (induction js) auto

lemma length_mem_items: "length (mem_items db) \<le> length db"
proof (induction db)
  case (Cons i db)
  then show ?case using length_upsert [of i "mem_items db"] by (simp add: mem_items_def)
qed (simp add: mem_items_def)

lemma mem_requeue_all:
  "length txn + length ts \<le> c \<Longrightarrow> \<forall>t \<in> set ts. marshal_ok (t\<lparr>Status := StatusPending\<rparr>) \<Longrightarrow>
    \<exists>txn'. requeue_all (mem_kv c) ttl ts txn = Inr txn'"
proof (induction ts arbitrary: txn)
  case (Cons t ts)
  let ?d = "filter (\<lambda>i. item_key i \<noteq> taskKey t) txn" and ?u = "t\<lparr>Status := StatusPending\<rparr>"
  define n where "n = length ?d"
  have d: "n \<le> length txn" unfolding n_def by (rule length_filter_le)
  moreover have "length txn < c" using Cons.prems(1) by simp
  ultimately have "length ?d < c" unfolding n_def by (rule le_less_trans)
  then obtain k v i where p: "put (mem_kv c) ttl ?d ?u = Inr (i # ?d)"
    using Cons.prems(2) by (simp add: put_def mem_kv_def)
  have "length (i # ?d) + length ts \<le> c" using d Cons.prems(1) by (simp add: n_def [symmetric])
  from Cons.IH [OF this] Cons.prems(2) p show ?case by simp
qed simp

lemma mem_RecoverRunning:
  assumes "wf_store (mem_kv c) db" and "2 * length db \<le> c"
    and "\<forall>t \<in> set (tasks_of (mem_kv c) db). marshal_ok (t\<lparr>Status := StatusPending\<rparr>)"
  shows "RecoverRunning (mem_kv c) ttl db = (None, snd (RecoverRunning (mem_kv c) ttl db))"
proof -
  let ?is = "scan (mem_kv c) db (statusPrefix StatusRunning) (statusPrefix StatusRunning)"
  let ?ts = "map (the \<circ> load) ?is"
  have eq: "?is = filter (\<lambda>i. Status (the (load i)) = StatusRunning) (task_items (mem_kv c) db)"
    by (rule mem.status_scan [OF assms(1)]) simp
  then have sub: "set ?is \<subseteq> set (task_items (mem_kv c) db)" by simp
  have "\<forall>i \<in> set ?is. load i \<noteq> None" unfolding eq by (rule mem.load_task_items [OF assms(1)])
  then have "collect_stuck ?is = Inr ?ts" by (rule collect_stuck_readable)
  moreover have "\<exists>txn. requeue_all (mem_kv c) ttl ?ts db = Inr txn"
  proof (rule mem_requeue_all)
    have "length ?is \<le> length (mem_items db)" unfolding mem.scan_prefix by simp
    then show "length db + length ?ts \<le> c" using assms(2) length_mem_items [of db] by simp
    show "\<forall>t \<in> set ?ts. marshal_ok (t\<lparr>Status := StatusPending\<rparr>)"
      using sub assms(3) by (auto simp: tasks_of_def)
  qed
  ultimately show ?thesis by (auto simp: RecoverRunning_def db_Update_def Let_def)
qed

lemma mem_RecoverRunning_none:
  assumes "wf_store (mem_kv c) db" and "\<forall>t \<in> set (tasks_of (mem_kv c) db). Status t \<noteq> StatusRunning"
  shows "RecoverRunning (mem_kv c) ttl db = (None, db)"
proof -
  have "filter (\<lambda>i. Status (the (load i)) = StatusRunning) (task_items (mem_kv c) db) = []"
    using assms(2) by (simp add: filter_empty_conv tasks_of_def)
  with mem.status_scan [OF assms(1), of StatusRunning]
  show ?thesis by (simp add: RecoverRunning_def db_Update_def Let_def)
qed

lemma mem_delete_loop:
  "\<forall>i \<in> set is. load i \<noteq> None \<and> item_key i = taskKey (the (load i)) \<Longrightarrow>
    \<exists>m txn'. delete_loop (mem_kv c) P is n txn = (m, Inr txn')"
proof (induction "is" arbitrary: n txn)
  case (Cons i "is")
  then obtain v t where v: "item_value i = Inr v" "unmarshal_task v = Some t" "load i = Some t"
    by (auto simp: load_def split: sum.splits)
  from Cons show ?case by (simp add: v)
qed simp

lemma mem_DeleteTasks:
  assumes "wf_store (mem_kv c) db"
  shows "DeleteTasks (mem_kv c) url status before after db =
    ((fst (fst (DeleteTasks (mem_kv c) url status before after db)), None),
     snd (DeleteTasks (mem_kv c) url status before after db))"
proof -
  have "\<forall>i \<in> set (task_items (mem_kv c) db). load i \<noteq> None \<and> item_key i = taskKey (the (load i))"
    using wf_load(1,2) [OF assms(1)] by (metis option.distinct(1))
  from mem_delete_loop [OF this] obtain m txn where
    "delete_loop (mem_kv c) (delete_matches url status before after) (task_items (mem_kv c) db) 0 db = (m, Inr txn)"
    by blast
  then show ?thesis by (simp add: DeleteTasks_def task_items_def db_Update_def)
qed

end
