(* ===== verification/StoreTheorems.thy ===== *)
theory StoreTheorems
  imports MemStore
begin

text \<open>
  The properties of the storage component, for every key-value database that behaves as
  \<open>badger\<close> says, with witnesses on the in-memory instance. A small database with one
  pending and one finished task serves as the concrete input.
\<close>

section \<open>Example data\<close>

definition ex_pending :: task where
  "ex_pending = zero_task\<lparr>ID := ''a'', URL := ''http://x'', Method := ''POST'',
     ExecuteAt := 1700000000 * Second, Retries := 2, RetryInterval := 1000,
     RetryMode := RetryFixed, Status := StatusPending\<rparr>"

definition ex_done :: task where
  "ex_done = ex_pending\<lparr>ID := ''b'', ExecuteAt := 1600000000 * Second, Status := StatusSucceeded,
     FinishedAt := Some (1600000001 * Second)\<rparr>"

definition ex_running :: task where
  "ex_running = ex_pending\<lparr>ID := ''c'', Status := StatusRunning\<rparr>"

definition ex_db :: "item list" where
  "ex_db = mem_db Hour [ex_done, ex_pending]"

text \<open>The same store after a crash in the middle of a delivery.\<close>

definition ex_crashed :: "item list" where
  "ex_crashed = mem_db Hour [ex_done, ex_pending, ex_running]"

lemma ex_wf: "wf_task ex_pending" "wf_task ex_done" "wf_task ex_running"
  by code_simp+

lemma ex_storable: "storable [ex_done, ex_pending]" "storable [ex_done, ex_pending, ex_running]"
  by code_simp+

lemma ex_db_wf: "wf_store (mem_kv 8) ex_db" "wf_store (mem_kv 8) ex_crashed"
  unfolding ex_db_def ex_crashed_def by (rule mem_wf, rule ex_storable)+

lemma ex_id: "ID ex_pending = ''a''" "ID ex_done = ''b''"
  by code_simp+

lemma ex_db_view: "view (mem_kv 8) ex_db ''a'' = Some ex_pending" "view (mem_kv 8) ex_db ''b'' = Some ex_done"
  "view (mem_kv 8) ex_db (ID ex_pending) = Some ex_pending"
  unfolding ex_db_def by (simp_all add: mem_view_iff ex_storable ex_id)

lemma ex_db_fresh: "fresh_id ''n'' (view (mem_kv 8) ex_db)"
  unfolding ex_db_def fresh_id_def by (simp add: mem_view_None ex_storable ex_id)

lemma ex_tasks: "view (mem_kv 8) ex_db x = Some u \<Longrightarrow> u = ex_pending \<or> u = ex_done"
  unfolding ex_db_def by (auto simp: mem_view_iff ex_storable)

lemma ex_room [simp]: "length ex_db < 8" "length ex_crashed < 8"
  by (simp_all add: ex_db_def ex_crashed_def mem_db_def)

lemmas ex_badger = mem.badger_axioms [of 8]

section \<open>Writes\<close>

text \<open>
  \<open>Save\<close> is an insertion into the map from ids to tasks: when it reports success, the
  store still satisfies its invariant, the task is stored under its id with status pending,
  whatever status it came with, and every other task is as it was.
\<close>
theorem Save_inserts:
  assumes "badger kv" and "wf_store kv db" and "wf_task (t\<lparr>Status := StatusPending\<rparr>)"
    and "view kv db (ID t) = None" and "Save kv ttl t db = (None, db')"
  shows "wf_store kv db' \<and> view kv db' = (view kv db)(ID t \<mapsto> t\<lparr>Status := StatusPending\<rparr>)"
  by (rule badger.Save_map [OF assms])

lemma Save_inserts_witness:
  "let db' = snd (Save (mem_kv 8) Hour (ex_done\<lparr>ID := ''n''\<rparr>) ex_db)
   in wf_store (mem_kv 8) db' \<and> view (mem_kv 8) db' = (view (mem_kv 8) ex_db)
     (ID (ex_done\<lparr>ID := ''n''\<rparr>) \<mapsto> ex_done\<lparr>ID := ''n'', Status := StatusPending\<rparr>)"
  unfolding Let_def
proof (rule Save_inserts [OF ex_badger ex_db_wf(1) _ _ mem_Save [OF ex_room(1)]])
  show "view (mem_kv 8) ex_db (ID (ex_done\<lparr>ID := ''n''\<rparr>)) = None"
    using ex_db_fresh by (simp add: fresh_id_def)
qed code_simp+

text \<open>
  \<open>Update\<close> overwrites: when it reports success, the map from ids to tasks is the old one
  with this task at its id, wherever the old version was stored (the key moves with the
  status and the fire time), so no second copy under the old key survives.
\<close>
theorem Update_overwrites:
  assumes "badger kv" and "wf_store kv db" and "wf_task t" and "Update kv ttl t db = (None, db')"
  shows "wf_store kv db' \<and> view kv db' = (view kv db)(ID t \<mapsto> t)"
  by (rule badger.Update_map [OF assms])

lemma Update_overwrites_witness:
  "let t = ex_pending\<lparr>Status := StatusRunning, ExecuteAt := 0\<rparr>;
       db' = snd (Update (mem_kv 8) Hour t ex_db)
   in wf_store (mem_kv 8) db' \<and> view (mem_kv 8) db' = (view (mem_kv 8) ex_db)(ID t \<mapsto> t)"
  unfolding Let_def by (rule Update_overwrites [OF ex_badger ex_db_wf(1) _ mem_Update [OF ex_room(1)]]; code_simp)

text \<open>
  \<open>Delete\<close> removes the task with this id and no other, and reports success when there is
  no such task.
\<close>
lemma Delete_removes:
  assumes "badger kv" and "wf_store kv db" and "colon \<notin> set x" and "Delete kv x db = (None, db')"
  shows "wf_store kv db' \<and> view kv db' = (view kv db)(x := None)"
  by (rule badger.Delete_map [OF assms])

lemma Delete_removes_witness:
  "let db' = snd (Delete (mem_kv 8) ''a'' ex_db)
   in wf_store (mem_kv 8) db' \<and> view (mem_kv 8) db' = (view (mem_kv 8) ex_db)(''a'' := None)"
  unfolding Let_def by (rule Delete_removes [OF ex_badger ex_db_wf(1) _ mem_Delete]) code_simp



lemma ex_recovers: "RecoverRunning (mem_kv 8) Hour ex_crashed = (None, snd (RecoverRunning (mem_kv 8) Hour ex_crashed))"
proof (rule mem_RecoverRunning [OF ex_db_wf(2)])
  have "marshal_ok (ex_done\<lparr>Status := StatusPending\<rparr>)" "marshal_ok (ex_pending\<lparr>Status := StatusPending\<rparr>)"
    "marshal_ok (ex_running\<lparr>Status := StatusPending\<rparr>)" by code_simp+
  then show "\<forall>t \<in> set (tasks_of (mem_kv 8) ex_crashed). marshal_ok (t\<lparr>Status := StatusPending\<rparr>)"
    by (simp add: ex_crashed_def mem_tasks_of ex_storable)
qed (simp add: ex_crashed_def mem_db_def)

text \<open>
  Crash recovery: \<open>RecoverRunning\<close> turns exactly the running tasks back into pending ones,
  in one transaction, with everything else about them and all other tasks as they were.
\<close>
theorem RecoverRunning_requeues:
  assumes "badger kv" and "wf_store kv db" and "RecoverRunning kv ttl db = (None, db')"
  shows "wf_store kv db' \<and> view kv db' = (\<lambda>x. map_option
    (\<lambda>t. if Status t = StatusRunning then t\<lparr>Status := StatusPending\<rparr> else t) (view kv db x))"
  using badger.RecoverRunning_map [OF assms] by (simp add: o_def requeue_def [abs_def])

lemma RecoverRunning_requeues_witness:
  "let db' = snd (RecoverRunning (mem_kv 8) Hour ex_crashed)
   in wf_store (mem_kv 8) db' \<and> view (mem_kv 8) db' = (\<lambda>x. map_option
    (\<lambda>t. if Status t = StatusRunning then t\<lparr>Status := StatusPending\<rparr> else t) (view (mem_kv 8) ex_crashed x))"
  unfolding Let_def by (rule RecoverRunning_requeues [OF ex_badger ex_db_wf(2) ex_recovers])

text \<open>
  Bulk deletion removes the tasks that match every given filter (url, status, strict time
  bounds) and no others, and the count it returns is the number of tasks removed.
\<close>
theorem DeleteTasks_exact:
  assumes "badger kv" and "wf_store kv db" and "DeleteTasks kv url status before after db = ((n, None), db')"
  shows "wf_store kv db'
    \<and> n = length (filter (delete_matches url status before after) (tasks_of kv db))
    \<and> set (tasks_of kv db') = {t \<in> set (tasks_of kv db). \<not> delete_matches url status before after t}"
  by (rule badger.DeleteTasks_view [OF assms])

lemma DeleteTasks_exact_witness:
  "let r = DeleteTasks (mem_kv 8) [] StatusSucceeded None None ex_db; db' = snd r
   in wf_store (mem_kv 8) db'
    \<and> fst (fst r) = length (filter (delete_matches [] StatusSucceeded None None) (tasks_of (mem_kv 8) ex_db))
    \<and> set (tasks_of (mem_kv 8) db')
      = {t \<in> set (tasks_of (mem_kv 8) ex_db). \<not> delete_matches [] StatusSucceeded None None t}"
  unfolding Let_def by (rule DeleteTasks_exact [OF ex_badger ex_db_wf(1) mem_DeleteTasks [OF ex_db_wf(1)]])

section \<open>Reads\<close>

text \<open>
  Reading one task by id scans for a key that ends with the id; for any id without a
  colon the answer is the task stored under that id, or none, and never another task whose
  id has this one as its tail.
\<close>
theorem GetTask_reads:
  assumes "badger kv" and "wf_store kv db" and "colon \<notin> set x"
  shows "GetTask kv x db = Inr (view kv db x)"
  by (rule badger.GetTask_view [OF assms])

lemma GetTask_reads_witness: "GetTask (mem_kv 8) ''b'' ex_db = Inr (view (mem_kv 8) ex_db ''b'')"
  by (rule GetTask_reads [OF ex_badger ex_db_wf(1)]) code_simp

text \<open>
  C31: \<open>GetDueTasks\<close> returns, oldest second first, exactly the pending tasks whose fire time
  lies in a second before that of \<open>end\<close>, cut off at the batch limit; \<open>start\<close> plays no role.
\<close>
theorem GetDueTasks_exact:
  assumes "badger kv" and "wf_store kv db" and "fits16 (Unix until)"
  shows "GetDueTasks kv start until limit db
      = (take (due_limit limit) (filter (\<lambda>t. Status t = StatusPending
          \<and> Unix (ExecuteAt t) < Unix until) (tasks_of kv db)), None)
    \<and> sorted_wrt (\<lambda>t u. Unix (ExecuteAt t) \<le> Unix (ExecuteAt u)) (fst (GetDueTasks kv start until limit db))"
proof -
  have d: "filter (due_now until) = filter (\<lambda>t. Status t = StatusPending \<and> Unix (ExecuteAt t) < Unix until)"
    by (simp add: due_now_def [abs_def])
  note eq = badger.GetDueTasks_eq [OF assms, of start limit]
  have "sorted_wrt (\<lambda>t u. Unix (ExecuteAt t) \<le> Unix (ExecuteAt u))
      (fst (GetDueTasks kv start until limit db))"
    unfolding eq fst_conv by (rule sorted_wrt_take [OF badger.pending_ordered [OF assms(1,2)]])
  with eq show ?thesis by (simp add: d)
qed

lemma GetDueTasks_exact_witness:
  "GetDueTasks (mem_kv 8) 0 (1700000001 * Second) 1000 ex_db
      = (take (due_limit 1000) (filter (\<lambda>t. Status t = StatusPending
          \<and> Unix (ExecuteAt t) < Unix (1700000001 * Second)) (tasks_of (mem_kv 8) ex_db)), None)
    \<and> sorted_wrt (\<lambda>t u. Unix (ExecuteAt t) \<le> Unix (ExecuteAt u))
        (fst (GetDueTasks (mem_kv 8) 0 (1700000001 * Second) 1000 ex_db))"
  by (rule GetDueTasks_exact [OF ex_badger ex_db_wf(1)]) code_simp

text \<open>
  A task that is due in the very second of \<open>end\<close> is not returned, not even when it is due
  at \<open>end\<close> itself or before it: its key continues after the timestamp with a colon and so
  lies beyond the end key. The interface says "due at or before end".
\<close>
theorem GetDueTasks_misses_last_second:
  assumes "badger kv" and "wf_store kv db" and "fits16 (Unix until)"
    and "view kv db x = Some t" and "Unix (ExecuteAt t) = Unix until"
  shows "t \<notin> set (fst (GetDueTasks kv start until limit db))"
proof
  assume "t \<in> set (fst (GetDueTasks kv start until limit db))"
  then have "t \<in> set (filter (due_now until) (tasks_of kv db))"
    unfolding badger.GetDueTasks_eq [OF assms(1-3)] fst_conv by (rule in_set_takeD)
  with assms(5) show False by (simp add: due_now_def)
qed

lemma GetDueTasks_misses_last_second_witness:
  "ExecuteAt ex_pending \<le> 1700000000 * Second
   \<and> ex_pending \<notin> set (fst (GetDueTasks (mem_kv 8) 0 (1700000000 * Second) 1000 ex_db))"
proof
  show "ExecuteAt ex_pending \<le> 1700000000 * Second" by code_simp
  show "ex_pending \<notin> set (fst (GetDueTasks (mem_kv 8) 0 (1700000000 * Second) 1000 ex_db))"
    by (rule GetDueTasks_misses_last_second [OF ex_badger ex_db_wf(1) _ ex_db_view(1)]) code_simp+
qed



text \<open>
  The counts agree with the store: per status the number of stored tasks (statuses with
  none are absent), and as overdue the pending tasks whose second is not after the current
  one. Keys alone are read, so this rests on the key layout.
\<close>
theorem Counts_exact:
  assumes "badger kv" and "wf_store kv db"
  shows "Counts kv now db =
    \<lparr>ByStatus = (\<lambda>s. let n = length (filter (\<lambda>t. Status t = s) (tasks_of kv db))
       in if n = 0 then None else Some n),
     Overdue = length (filter (\<lambda>t. Status t = StatusPending \<and> Unix (ExecuteAt t) \<le> Unix now) (tasks_of kv db))\<rparr>"
  using badger.Counts_eq [OF assms] by (simp add: status_count_def [abs_def])

lemma Counts_exact_witness:
  "Counts (mem_kv 8) (1700000000 * Second) ex_db =
    \<lparr>ByStatus = (\<lambda>s. let n = length (filter (\<lambda>t. Status t = s) (tasks_of (mem_kv 8) ex_db))
       in if n = 0 then None else Some n),
     Overdue = length (filter (\<lambda>t. Status t = StatusPending
       \<and> Unix (ExecuteAt t) \<le> Unix (1700000000 * Second)) (tasks_of (mem_kv 8) ex_db))\<rparr>"
  by (rule Counts_exact [OF ex_badger ex_db_wf(1)])

section \<open>Keys and documents\<close>

text \<open>
  C35: The key of a task: two well-formed tasks of one status are ordered by fire second and
  then id, tasks with one key agree in status, second and id, and reading a key back gives
  status and second.
\<close>
theorem taskKey_faithful:
  assumes "wf_task t" and "wf_task u"
  shows "(taskKey t = taskKey u \<longleftrightarrow>
      Status t = Status u \<and> Unix (ExecuteAt t) = Unix (ExecuteAt u) \<and> ID t = ID u)
    \<and> (Status t = Status u \<longrightarrow> (taskKey t < taskKey u \<longleftrightarrow>
        Unix (ExecuteAt t) < Unix (ExecuteAt u) \<or> Unix (ExecuteAt t) = Unix (ExecuteAt u) \<and> ID t < ID u))
    \<and> parseKey (taskKey t) = Some (Status t, Unix (ExecuteAt t))"
  using taskKey_inj [OF assms] taskKey_less [OF assms] parseKey_taskKey [OF assms(1)]
  by (auto simp: taskKey_def)

lemma taskKey_faithful_witness:
  "(taskKey ex_pending = taskKey ex_done \<longleftrightarrow> Status ex_pending = Status ex_done
      \<and> Unix (ExecuteAt ex_pending) = Unix (ExecuteAt ex_done) \<and> ID ex_pending = ID ex_done)
    \<and> parseKey (taskKey ex_pending) = Some (StatusPending, 1700000000)"
proof -
  have e: "Status ex_pending = StatusPending" "Unix (ExecuteAt ex_pending) = 1700000000" by code_simp+
  from taskKey_faithful [OF ex_wf(1,2)] show ?thesis unfolding e by blast
qed


text \<open>A cursor decodes to the key it was made from, whatever bytes the key has.\<close>
theorem cursor_roundtrip: "decodeCursor (encodeCursor k) = Some k \<and> (encodeCursor k = [] \<longleftrightarrow> k = [])"
  by (simp add: encodeCursor_def b64_encode_Nil_iff decodeCursor_def b64_decode_encode)

text \<open>
  History retention: when \<open>Update\<close> succeeds, the item it leaves for the task carries the
  configured TTL exactly when the status is terminal and a TTL is configured, so pending and
  running tasks never expire.
\<close>
theorem Update_ttl:
  assumes "badger kv" and "Update kv ttl t db = (None, db')"
    and "i \<in> set (kv_items kv db')" and "item_key i = taskKey t"
  shows "item_ttl i = (if IsTerminal (Status t) \<and> 0 < ttl then Some ttl else None)"
proof -
  from assms(2) obtain txn1 txn2 where p: "put kv ttl txn1 t = Inr txn2" and c: "kv_commit kv db txn2 = Inr db'"
    by (auto simp: Update_def db_Update_ok split: option.splits sum.splits)
  have "i \<in> set (kv_items kv txn2)" using badger.commit_items [OF assms(1) c] assms(3) by simp
  with badger.put_items [OF assms(1) p] assms(4) show ?thesis by auto
qed

lemma Update_ttl_witness:
  "let db' = snd (Update (mem_kv 8) Hour ex_done [])
   in \<exists>i \<in> set (kv_items (mem_kv 8) db'). item_key i = taskKey ex_done \<and>
     item_ttl i = (if IsTerminal (Status ex_done) \<and> 0 < Hour then Some Hour else None)"
proof -
  let ?db' = "snd (Update (mem_kv 8) Hour ex_done [])"
  let ?i = "mem_item Hour ex_done"
  have "Update (mem_kv 8) Hour ex_done [] = (None, ?db')"
    by (rule mem_Update) code_simp+
  moreover have i: "?i \<in> set (kv_items (mem_kv 8) ?db')" by code_simp
  ultimately have "item_ttl ?i = (if IsTerminal (Status ex_done) \<and> 0 < Hour then Some Hour else None)"
    by (rule Update_ttl [OF ex_badger]) simp
  with i show ?thesis unfolding Let_def by (intro bexI [of _ ?i]) simp_all
qed

end
