(* ===== verification/Attempt.thy ===== *)
theory Attempt
  imports Task GoTime
begin

text \<open>
  \<open>internal/runner/attempt.go\<close>: the retry state of one delivery. A delay is a 64-bit
  \<open>time.Duration\<close>, so the millisecond conversion and the exponential shift wrap around as
  they do in Go; \<open>rand.Int64N\<close> and the clock are arguments. The retry counter starts at 0
  and is increased only below the number of retries, so it is a natural number.
\<close>

definition maxBackoff :: duration where
  "maxBackoff = 5 * Minute"

record attemptStrategy =
  interval :: go_int
  retries :: go_int
  mode :: retry_mode

record attempt =
  strategy :: attemptStrategy
  lastTime :: time
  count :: nat
  hint :: duration

definition serverHint :: "duration \<Rightarrow> attempt \<Rightarrow> attempt" where
  "serverHint d a = a\<lparr>hint := (if maxBackoff < d then maxBackoff else d)\<rparr>"

definition newAttempt :: "go_int \<Rightarrow> go_int \<Rightarrow> retry_mode \<Rightarrow> attempt" where
  "newAttempt rcount ival m =
     \<lparr>strategy = \<lparr>interval = ival * word_of_int Millisecond, retries = rcount, mode = m\<rparr>,
      lastTime = zero_time, count = 0, hint = 0\<rparr>"

definition shouldRetry :: "attempt \<Rightarrow> bool" where
  "shouldRetry a \<longleftrightarrow> int (count a) < sint (retries (strategy a))"

text \<open>The ceiling of the exponential wait: \<open>interval << count\<close>, capped.\<close>

definition backoff :: "attempt \<Rightarrow> duration" where
  "backoff a =
     (let b = sint (push_bit (count a) (interval (strategy a)))
      in if b \<le> 0 \<or> maxBackoff < b then maxBackoff else b)"

definition delay :: "(int \<Rightarrow> int) \<Rightarrow> attempt \<Rightarrow> duration" where
  "delay rnd a =
     (let d0 = sint (interval (strategy a));
          d = (if mode (strategy a) = RetryExponential then rnd (backoff a + 1) else d0)
      in if d < hint a then hint a else d)"

text \<open>
  \<open>next\<close>: \<open>None\<close> when the retries are used up, otherwise the new state and how long the
  call slept (\<open>None\<close> when it did not sleep). \<open>now\<close> and \<open>woken\<close> are the two readings of
  the clock.
\<close>

definition next_try ::
  "(int \<Rightarrow> int) \<Rightarrow> time \<Rightarrow> time \<Rightarrow> attempt \<Rightarrow> (attempt \<times> duration option) option" where
  "next_try rnd now woken a =
     (if shouldRetry a then
        let d = delay rnd a;
            slept = (if lastTime a = zero_time then None
              else let timeSince = time_Sub now (lastTime a)
                in if timeSince < d then Some (d - timeSince) else None)
        in Some (a\<lparr>lastTime := woken, count := Suc (count a), hint := 0\<rparr>, slept)
      else None)"

text \<open>\<open>rand.Int64N(n)\<close> returns a value in \<open>[0, n)\<close> for positive \<open>n\<close>.\<close>

definition rand_ok :: "(int \<Rightarrow> int) \<Rightarrow> bool" where
  "rand_ok rnd \<longleftrightarrow> (\<forall>n > 0. 0 \<le> rnd n \<and> rnd n < n)"

section \<open>Delays\<close>

lemma maxBackoff_pos: "0 < maxBackoff"
  by (simp add: maxBackoff_def Minute_def Second_def)

lemma backoff_range: "0 < backoff a" "backoff a \<le> maxBackoff"
  using maxBackoff_pos by (auto simp: backoff_def Let_def)

lemma sint_shift:
  assumes "0 \<le> sint (w :: go_int)" and "sint w * 2 ^ n < 2 ^ 63"
  shows "sint (push_bit n w) = sint w * 2 ^ n"
proof -
  have "push_bit n w = word_of_int (sint w * 2 ^ n)"
    by (simp add: push_bit_eq_mult wi_hom_mult [symmetric])
  then have "sint (push_bit n w) = signed_take_bit 63 (sint w * 2 ^ n)"
    by (simp only: sint_sbintrunc') simp
  also have "\<dots> = sint w * 2 ^ n"
  proof -
    have "0 \<le> sint w * 2 ^ n" using assms(1) by (rule mult_nonneg_nonneg) simp
    with assms(2) show ?thesis by (intro signed_take_bit_int_eq_self) linarith+
  qed
  finally show ?thesis .
qed

lemma backoff_exact:
  assumes "0 < sint (interval (strategy a))" and "sint (interval (strategy a)) * 2 ^ count a < 2 ^ 63"
  shows "backoff a = min (sint (interval (strategy a)) * 2 ^ count a) maxBackoff"
proof -
  define b where "b = sint (interval (strategy a)) * 2 ^ count a"
  have "0 < b" unfolding b_def using assms(1) by (rule mult_pos_pos) simp
  moreover have "sint (push_bit (count a) (interval (strategy a))) = b"
    unfolding b_def using assms by (intro sint_shift) simp_all
  ultimately show ?thesis unfolding b_def [symmetric] by (simp add: backoff_def min_def)
qed

lemma delay_ge_hint: "hint a \<le> delay rnd a"
  by (simp add: delay_def Let_def)

lemma delay_exponential:
  assumes "rand_ok rnd" and "mode (strategy a) = RetryExponential" and "hint a \<le> maxBackoff"
  shows "0 \<le> delay rnd a" "delay rnd a \<le> max (backoff a) (hint a)"
proof -
  have "0 \<le> rnd (backoff a + 1) \<and> rnd (backoff a + 1) < backoff a + 1"
    using assms(1) [unfolded rand_ok_def, rule_format, of "backoff a + 1"] backoff_range(1) [of a]
    by simp
  then show "0 \<le> delay rnd a" "delay rnd a \<le> max (backoff a) (hint a)"
    using assms(2) by (auto simp: delay_def Let_def)
qed

lemma serverHint_cap: "hint (serverHint d a) = min d maxBackoff"
  by (simp add: serverHint_def)

lemma serverHint_simps [simp]:
  "strategy (serverHint d a) = strategy a" "count (serverHint d a) = count a"
  "lastTime (serverHint d a) = lastTime a"
  by (simp_all add: serverHint_def)

text \<open>How often \<open>next\<close> can still say yes.\<close>

definition tries_left :: "attempt \<Rightarrow> nat" where
  "tries_left a = nat (sint (retries (strategy a)) - int (count a))"

lemma shouldRetry_iff: "shouldRetry a \<longleftrightarrow> 0 < tries_left a"
  by (simp add: shouldRetry_def tries_left_def)

lemma tries_left_serverHint [simp]: "tries_left (serverHint d a) = tries_left a"
  by (simp add: tries_left_def)

lemma tries_left_newAttempt: "tries_left (newAttempt r i m) = nat (sint r)"
  by (simp add: tries_left_def newAttempt_def)

lemma next_try_None: "next_try rnd now woken a = None \<longleftrightarrow> \<not> shouldRetry a"
  by (simp add: next_try_def Let_def)

lemma next_try_Some:
  assumes "next_try rnd now woken a = Some (a', slept)"
  shows "shouldRetry a" "count a' = Suc (count a)" "strategy a' = strategy a" "hint a' = 0"
    "lastTime a' = woken" "tries_left a = Suc (tries_left a')"
  using assms by (auto simp: next_try_def Let_def shouldRetry_def tries_left_def split: if_splits)

section \<open>Properties\<close>

text \<open>
  The wait before a retry: never below the wait the server asked for, which is capped at
  five minutes; in fixed mode otherwise the configured interval; in exponential mode a point
  between 0 and the ceiling, which is itself never more than five minutes.
\<close>
theorem delay_bounds:
  assumes "rand_ok rnd" and "hint a \<le> maxBackoff"
  shows "hint a \<le> delay rnd a
    \<and> (mode (strategy a) \<noteq> RetryExponential \<longrightarrow> delay rnd a = max (sint (interval (strategy a))) (hint a))
    \<and> (mode (strategy a) = RetryExponential \<longrightarrow>
        0 \<le> delay rnd a \<and> delay rnd a \<le> max (backoff a) (hint a) \<and> delay rnd a \<le> maxBackoff)
    \<and> 0 < backoff a \<and> backoff a \<le> maxBackoff \<and> hint (serverHint d a) = min d maxBackoff"
proof -
  have "mode (strategy a) \<noteq> RetryExponential \<Longrightarrow> delay rnd a = max (sint (interval (strategy a))) (hint a)"
    by (simp add: delay_def Let_def)
  moreover have "delay rnd a \<le> maxBackoff" if "mode (strategy a) = RetryExponential"
    using delay_exponential(2) [OF assms(1) that assms(2)] backoff_range(2) [of a] assms(2)
    by (meson max.bounded_iff order_trans)
  ultimately show ?thesis
    using delay_ge_hint [of a rnd] delay_exponential [OF assms(1) _ assms(2)] backoff_range [of a]
      serverHint_cap [of d a] by blast
qed

lemma delay_bounds_witness:
  "let a = serverHint (3 * Second) (newAttempt 2 100 RetryExponential)
   in hint a \<le> delay (\<lambda>n. n - 1) a \<and> delay (\<lambda>n. n - 1) a \<le> maxBackoff
     \<and> hint (serverHint Hour a) = min Hour maxBackoff"
proof -
  let ?a = "serverHint (3 * Second) (newAttempt 2 100 RetryExponential)"
  have "rand_ok (\<lambda>n. n - 1)" by (simp add: rand_ok_def)
  moreover have "hint ?a \<le> maxBackoff" and m: "mode (strategy ?a) = RetryExponential" by code_simp+
  ultimately show ?thesis using delay_bounds [of "\<lambda>n. n - 1" ?a Hour] unfolding Let_def by blast
qed

text \<open>
  As long as the shifted interval fits 64 bits, the exponential ceiling is the documented
  one: interval times two to the number of retries made, capped at five minutes.
\<close>
lemma backoff_doubles:
  assumes "0 < sint (interval (strategy a))" and "sint (interval (strategy a)) * 2 ^ count a < 2 ^ 63"
  shows "backoff a = min (sint (interval (strategy a)) * 2 ^ count a) maxBackoff"
  by (rule backoff_exact [OF assms])

lemma backoff_doubles_witness:
  "backoff ((newAttempt 9 1000 RetryExponential)\<lparr>count := 3\<rparr>) = 8 * Second"
proof -
  let ?a = "(newAttempt 9 1000 RetryExponential)\<lparr>count := 3\<rparr>"
  have "backoff ?a = min (sint (interval (strategy ?a)) * 2 ^ count ?a) maxBackoff"
    by (rule backoff_doubles) code_simp+
  also have "\<dots> = 8 * Second" by code_simp
  finally show ?thesis .
qed

text \<open>
  The shift can also wrap around to a small positive value, which the check for a
  non-positive one does not catch: with this interval (146 years) the ceiling of the third
  wait is about two milliseconds.
\<close>
lemma backoff_wraps:
  "backoff ((newAttempt 5 4611686018428 RetryExponential)\<lparr>count := 2\<rparr>) = 2448384"
  by code_simp

text \<open>
  The first retry of a delivery never waits, neither for the configured interval nor for
  the wait the server asked for: no earlier try has been recorded yet.
\<close>
lemma first_retry_immediate:
  assumes "next_try rnd now woken (serverHint d (newAttempt r i m)) = Some (a', slept)"
  shows "slept = None \<and> hint a' = 0"
  using assms by (auto simp: next_try_def Let_def newAttempt_def serverHint_def split: if_splits)

lemma first_retry_immediate_witness:
  "case next_try (\<lambda>n. 0) (9 * Second) (9 * Second) (serverHint Minute (newAttempt 3 5000 RetryFixed)) of
     None \<Rightarrow> False | Some (a', slept) \<Rightarrow> slept = None \<and> hint a' = 0"
proof -
  obtain a' slept where n: "next_try (\<lambda>n. 0) (9 * Second) (9 * Second)
      (serverHint Minute (newAttempt 3 5000 RetryFixed)) = Some (a', slept)"
  proof (cases "next_try (\<lambda>n. 0) (9 * Second) (9 * Second) (serverHint Minute (newAttempt 3 5000 RetryFixed))")
    case None
    then have "\<not> shouldRetry (serverHint Minute (newAttempt 3 5000 RetryFixed))" by (simp add: next_try_None)
    moreover have "shouldRetry (serverHint Minute (newAttempt 3 5000 RetryFixed))" by code_simp
    ultimately show thesis by blast
  qed (use that in auto)
  from first_retry_immediate [OF n] n show ?thesis by simp
qed

end
