(* ===== verification/Metrics.thy ===== *)
theory Metrics
  imports GoTime
begin

text \<open>
  The counters of \<open>internal/metrics/metrics.go\<close>: atomic 64-bit integers, which wrap around,
  and two histograms. A bucket bound is a number of seconds in the source and nanoseconds
  here; every bound is a whole number of milliseconds, and both \<open>Seconds()\<close> and the bound
  are the nearest \<open>float64\<close>, so comparing nanoseconds decides the same bucket.
  \<open>sort.SearchFloat64s\<close> is the binary search of \<open>sort.Search\<close>.
  Proved: the search finds the first bound that is not below the value, and every
  observation is counted in exactly one bucket, so the buckets of a histogram add up to its
  count.
\<close>

record histogram =
  upper :: "duration list"
  buckets :: "64 word list"
  sumNs :: "64 word"
  hcount :: "64 word"

record metrics =
  deliveriesOK :: "64 word"
  deliveriesFail :: "64 word"
  tasksSucceeded :: "64 word"
  tasksFailed :: "64 word"
  tasksSkipped :: "64 word"
  tasksReplayed :: "64 word"
  inflight_gauge :: "64 word"
  deliveryDuration :: histogram
  lateness :: histogram

definition newHistogram :: "duration list \<Rightarrow> histogram" where
  "newHistogram bounds =
     \<lparr>upper = sort bounds, buckets = replicate (length bounds + 1) 0, sumNs = 0, hcount = 0\<rparr>"

definition deliveryBounds :: "duration list" where
  "deliveryBounds = map (\<lambda>ms. ms * Millisecond)
     [5, 10, 25, 50, 100, 250, 500, 1000, 2500, 5000, 10000, 30000]"

definition latenessBounds :: "duration list" where
  "latenessBounds = map (\<lambda>ms. ms * Millisecond)
     [100, 250, 500, 1000, 2500, 5000, 10000, 30000, 60000, 300000, 900000, 3600000]"

definition init_metrics :: metrics where
  "init_metrics =
     \<lparr>deliveriesOK = 0, deliveriesFail = 0, tasksSucceeded = 0, tasksFailed = 0,
      tasksSkipped = 0, tasksReplayed = 0, inflight_gauge = 0,
      deliveryDuration = newHistogram deliveryBounds, lateness = newHistogram latenessBounds\<rparr>"

text \<open>\<open>sort.Search\<close>: the least index in \<open>[i, j)\<close> where \<open>p\<close> holds, or \<open>j\<close>.\<close>

function search_index :: "(nat \<Rightarrow> bool) \<Rightarrow> nat \<Rightarrow> nat \<Rightarrow> nat" where
  "search_index p i j =
     (if i < j then
        let h = (i + j) div 2
        in if p h then search_index p i h else search_index p (Suc h) j
      else i)"
  by pat_completeness auto
termination
  by (relation "measure (\<lambda>(p, i, j). j - i)") auto

declare search_index.simps [simp del]

definition search_bounds :: "duration list \<Rightarrow> duration \<Rightarrow> nat" where
  "search_bounds xs v = search_index (\<lambda>k. v \<le> xs ! k) 0 (length xs)"

definition observe :: "duration \<Rightarrow> histogram \<Rightarrow> histogram" where
  "observe d h =
     (let k = search_bounds (upper h) d
      in h\<lparr>buckets := (buckets h)[k := buckets h ! k + 1],
           sumNs := sumNs h + word_of_int (max d 0),
           hcount := hcount h + 1\<rparr>)"

definition hist_reset :: "histogram \<Rightarrow> histogram" where
  "hist_reset h = h\<lparr>buckets := map (\<lambda>_. 0) (buckets h), sumNs := 0, hcount := 0\<rparr>"

definition ObserveDelivery :: "duration \<Rightarrow> bool \<Rightarrow> metrics \<Rightarrow> metrics" where
  "ObserveDelivery d succ m =
     (let m' = (if succ then m\<lparr>deliveriesOK := deliveriesOK m + 1\<rparr>
        else m\<lparr>deliveriesFail := deliveriesFail m + 1\<rparr>)
      in m'\<lparr>deliveryDuration := observe d (deliveryDuration m')\<rparr>)"

definition ObserveTaskFinished :: "bool \<Rightarrow> metrics \<Rightarrow> metrics" where
  "ObserveTaskFinished succ m =
     (if succ then m\<lparr>tasksSucceeded := tasksSucceeded m + 1\<rparr>
      else m\<lparr>tasksFailed := tasksFailed m + 1\<rparr>)"

definition ObserveSkipped :: "metrics \<Rightarrow> metrics" where
  "ObserveSkipped m = m\<lparr>tasksSkipped := tasksSkipped m + 1\<rparr>"

definition ObserveReplay :: "metrics \<Rightarrow> metrics" where
  "ObserveReplay m = m\<lparr>tasksReplayed := tasksReplayed m + 1\<rparr>"

definition InflightAdd :: "int \<Rightarrow> metrics \<Rightarrow> metrics" where
  "InflightAdd delta m = m\<lparr>inflight_gauge := inflight_gauge m + word_of_int delta\<rparr>"

definition ObserveLateness :: "duration \<Rightarrow> metrics \<Rightarrow> metrics" where
  "ObserveLateness d m = m\<lparr>lateness := observe (max d 0) (lateness m)\<rparr>"

definition Reset :: "metrics \<Rightarrow> metrics" where
  "Reset m = m\<lparr>deliveriesOK := 0, deliveriesFail := 0, tasksSucceeded := 0, tasksFailed := 0,
     tasksSkipped := 0, tasksReplayed := 0, inflight_gauge := 0,
     deliveryDuration := hist_reset (deliveryDuration m), lateness := hist_reset (lateness m)\<rparr>"

section \<open>The search and the buckets\<close>

lemma search_index_spec:
  assumes "\<forall>k l. k \<le> l \<and> l < n \<and> p k \<longrightarrow> p l" and "i \<le> j" and "j \<le> n"
    and "\<forall>k < i. \<not> p k" and "\<forall>k. j \<le> k \<and> k < n \<longrightarrow> p k"
  shows "search_index p i j \<le> j \<and> (\<forall>k < search_index p i j. \<not> p k)
    \<and> (\<forall>k. search_index p i j \<le> k \<and> k < n \<longrightarrow> p k)"
  using assms
proof (induction p i j rule: search_index.induct)
  case (1 p i j)
  let ?h = "(i + j) div 2"
  show ?case
  proof (cases "i < j")
    case False
    then have "search_index p i j = i" by (simp add: search_index.simps [of p i j])
    with False "1.prems" show ?thesis by auto
  next
    case True
    then have h: "i \<le> ?h" "?h < j" by auto
    show ?thesis
    proof (cases "p ?h")
      case p: True
      have "\<forall>k. ?h \<le> k \<and> k < n \<longrightarrow> p k" using "1.prems"(1) p by blast
      from "1.IH"(1) [OF True refl p "1.prems"(1) h(1) _ "1.prems"(4) this] "1.prems"(3) h
      show ?thesis by (simp add: search_index.simps [of p i j] True p)
    next
      case p: False
      have "\<forall>k < Suc ?h. \<not> p k"
        using "1.prems"(1,3) p h(2) by (metis less_Suc_eq_le order_less_le_trans)
      from "1.IH"(2) [OF True refl p "1.prems"(1) _ "1.prems"(3) this "1.prems"(5)] h
      show ?thesis by (simp add: search_index.simps [of p i j] True p)
    qed
  qed
qed

text \<open>On ascending bounds the search returns the first bound not below the value.\<close>

lemma search_bounds_spec:
  assumes "sorted xs"
  shows "search_bounds xs v = length (takeWhile (\<lambda>b. b < v) xs)"
proof -
  let ?k = "search_bounds xs v"
  have mono: "\<forall>k l. k \<le> l \<and> l < length xs \<and> v \<le> xs ! k \<longrightarrow> v \<le> xs ! l"
    using assms by (meson order_trans sorted_nth_mono)
  have k: "?k \<le> length xs \<and> (\<forall>i < ?k. \<not> v \<le> xs ! i) \<and> (\<forall>i. ?k \<le> i \<and> i < length xs \<longrightarrow> v \<le> xs ! i)"
    unfolding search_bounds_def by (rule search_index_spec [OF mono]) simp_all
  have "takeWhile (\<lambda>b. b < v) xs = take ?k xs"
  proof (rule takeWhile_eq_take_P_nth)
    show "xs ! i < v" if "i < ?k" "i < length xs" for i
      using k that by (simp add: not_le)
    show "\<not> xs ! ?k < v" if "?k < length xs"
      using k that by (simp add: not_less)
  qed
  then have "length (takeWhile (\<lambda>b. b < v) xs) = length (take ?k xs)" by (rule arg_cong)
  also have "\<dots> = ?k" using k by simp
  finally show ?thesis by (rule sym)
qed

lemma search_bounds_le: "sorted xs \<Longrightarrow> search_bounds xs v \<le> length xs"
  by (simp add: search_bounds_spec length_takeWhile_le)

definition wf_hist :: "histogram \<Rightarrow> bool" where
  "wf_hist h \<longleftrightarrow> sorted (upper h) \<and> length (buckets h) = length (upper h) + 1
     \<and> sum_list (buckets h) = hcount h"

lemma sum_list_bump:
  "k < length xs \<Longrightarrow> sum_list (xs[k := xs ! k + 1]) = sum_list xs + (1 :: 64 word)"
proof (induction xs arbitrary: k)
  case (Cons x xs)
  then show ?case by (cases k) (auto simp: algebra_simps)
qed simp

lemma sum_list_zeros: "sum_list (replicate n (0 :: 64 word)) = 0"
  by (induction n) auto

lemma sum_list_map_zero: "sum_list (map (\<lambda>_. 0 :: 64 word) xs) = 0"
  by (induction xs) auto

lemma wf_newHistogram: "wf_hist (newHistogram bounds)"
  by (simp add: wf_hist_def newHistogram_def sum_list_zeros)

lemma wf_observe: "wf_hist h \<Longrightarrow> wf_hist (observe d h)"
  using search_bounds_le [of "upper h" d]
  by (simp add: wf_hist_def observe_def Let_def sum_list_bump)

lemma wf_hist_reset: "wf_hist h \<Longrightarrow> wf_hist (hist_reset h)"
  by (simp add: wf_hist_def hist_reset_def sum_list_map_zero)

definition wf_metrics :: "metrics \<Rightarrow> bool" where
  "wf_metrics m \<longleftrightarrow> wf_hist (deliveryDuration m) \<and> wf_hist (lateness m)
     \<and> hcount (deliveryDuration m) = deliveriesOK m + deliveriesFail m"

lemma wf_init_metrics: "wf_metrics init_metrics"
  by (simp add: wf_metrics_def init_metrics_def wf_newHistogram) (simp add: newHistogram_def)

lemma wf_metrics_steps:
  assumes "wf_metrics m"
  shows "wf_metrics (ObserveDelivery d succ m)" "wf_metrics (ObserveTaskFinished succ m)"
    "wf_metrics (ObserveSkipped m)" "wf_metrics (ObserveReplay m)"
    "wf_metrics (InflightAdd delta m)" "wf_metrics (ObserveLateness d m)" "wf_metrics (Reset m)"
  using assms wf_observe wf_hist_reset
  by (auto simp: wf_metrics_def ObserveDelivery_def ObserveTaskFinished_def ObserveSkipped_def
      ObserveReplay_def InflightAdd_def ObserveLateness_def Reset_def Let_def)
    (auto simp: observe_def hist_reset_def Let_def)

end
