(* ===== verification/GoParse.thy ===== *)
theory GoParse
  imports GoTime "HOL-Library.Monad_Syntax"
begin

text \<open>
  The parsers of Go's standard library that Schedy hands user input to:
  \<open>time.ParseDuration\<close> and \<open>time.Parse(time.RFC3339, \<cdot>)\<close>. \<open>None\<close> is an error.

  \<open>ParseDuration\<close> reads an optional sign and then number-unit pairs; the accumulated value
  must stay within \<open>int64\<close>. The fraction of a number is taken exactly and rounded down
  here, where Go multiplies in \<open>float64\<close> (the two can differ by a nanosecond when the
  fraction has more digits than the unit has).

  \<open>Parse\<close> with the RFC 3339 layout reads a date, \<open>T\<close>, a time of day whose seconds may have
  a fraction, and \<open>Z\<close> or a numeric offset.
  Proved: a positive duration lies in the range of \<open>int64\<close>; a parsed instant lies between
  the years 0 and 9999, up to its offset.
\<close>

section \<open>Durations\<close>

text \<open>\<open>leadingInt\<close>: \<open>None\<close> on overflow, otherwise the value and the rest.\<close>

fun leadingInt :: "nat \<Rightarrow> string \<Rightarrow> (nat \<times> string) option" where
  "leadingInt x [] = Some (x, [])"
| "leadingInt x (c # s) =
     (if \<not> is_digit c then Some (x, c # s)
      else if 2 ^ 63 div 10 < x then None
      else let y = x * 10 + digit_val c in if 2 ^ 63 < y then None else leadingInt y s)"

text \<open>\<open>leadingFraction\<close>: digits beyond the range of \<open>int64\<close> are dropped, not an error.\<close>

fun leadingFraction :: "nat \<Rightarrow> nat \<Rightarrow> bool \<Rightarrow> string \<Rightarrow> nat \<times> nat \<times> string" where
  "leadingFraction x scale overflow [] = (x, scale, [])"
| "leadingFraction x scale overflow (c # s) =
     (if \<not> is_digit c then (x, scale, c # s)
      else if overflow then leadingFraction x scale True s
      else if (2 ^ 63 - 1) div 10 < x then leadingFraction x scale True s
      else let y = x * 10 + digit_val c
        in if 2 ^ 63 < y then leadingFraction x scale True s
           else leadingFraction y (scale * 10) False s)"

definition unitMap :: "string \<Rightarrow> nat option" where
  "unitMap u =
     (if u = ''ns'' then Some 1
      else if u = ''us'' \<or> u = [CHR 0xC2, CHR 0xB5, CHR ''s''] \<or> u = [CHR 0xCE, CHR 0xBC, CHR ''s'']
        then Some 1000
      else if u = ''ms'' then Some 1000000
      else if u = ''s'' then Some 1000000000
      else if u = ''m'' then Some 60000000000
      else if u = ''h'' then Some 3600000000000
      else None)"

definition unit_char :: "char \<Rightarrow> bool" where
  "unit_char c \<longleftrightarrow> c \<noteq> CHR ''.'' \<and> \<not> is_digit c"

text \<open>An optional point and digits: their value, its scale, the rest, and whether there was a digit.\<close>

definition fraction_part :: "string \<Rightarrow> nat \<times> nat \<times> string \<times> bool" where
  "fraction_part s =
     (case s of
        [] \<Rightarrow> (0, 1, s, False)
      | c # r \<Rightarrow>
          if c = CHR ''.'' then
            (case leadingFraction 0 1 False r of (f, sc, r') \<Rightarrow> (f, sc, r', length r' \<noteq> length r))
          else (0, 1, s, False))"

text \<open>One number with its unit: the nanoseconds it stands for and the rest.\<close>

definition duration_part :: "string \<Rightarrow> (nat \<times> string) option" where
  "duration_part s =
     do { (v, s1) \<leftarrow> leadingInt 0 s;
          let pre = (length s1 \<noteq> length s);
          let (f, scale, s2, post) = fraction_part s1;
          (if \<not> pre \<and> \<not> post then None else Some ());
          let u = takeWhile unit_char s2;
          unit \<leftarrow> unitMap u;
          (if 2 ^ 63 div unit < v then None else Some ());
          let w = v * unit + (f * unit) div scale;
          if 2 ^ 63 < w then None else Some (w, dropWhile unit_char s2) }"

text \<open>A part takes at least one byte, so the length of the text bounds the rounds.\<close>

fun duration_parts :: "nat \<Rightarrow> nat \<Rightarrow> string \<Rightarrow> nat option" where
  "duration_parts fuel d [] = Some d"
| "duration_parts 0 d s = None"
| "duration_parts (Suc fuel) d s =
     do { (w, r) \<leftarrow> duration_part s;
          if 2 ^ 63 < d + w then None else duration_parts fuel (d + w) r }"

definition ParseDuration :: "string \<Rightarrow> duration option" where
  "ParseDuration s =
     (let (neg, r) = (case s of
          [] \<Rightarrow> (False, [])
        | c # cs \<Rightarrow> if c = CHR ''-'' \<or> c = CHR ''+'' then (c = CHR ''-'', cs) else (False, s))
      in if r = ''0'' then Some 0
         else if r = [] then None
         else case duration_parts (length r) 0 r of
             None \<Rightarrow> None
           | Some d \<Rightarrow>
               if neg then Some (- int d)
               else if 2 ^ 63 - 1 < d then None
               else Some (int d))"

lemma leadingInt_length: "leadingInt x s = Some (v, r) \<Longrightarrow> length r \<le> length s"
  by (induction x s rule: leadingInt.induct) (auto simp: Let_def split: if_splits)

lemma leadingFraction_length: "leadingFraction x sc ov s = (f, sc', r) \<Longrightarrow> length r \<le> length s"
  by (induction x sc ov s rule: leadingFraction.induct) (auto simp: Let_def split: if_splits)

lemma fraction_part_length: "fraction_part s = (f, sc, r, post) \<Longrightarrow> length r \<le> length s"
  using leadingFraction_length
  by (fastforce simp: fraction_part_def split: list.splits if_splits prod.splits)

lemma unitMap_nonempty: "unitMap u = Some n \<Longrightarrow> u \<noteq> []"
  by (auto simp: unitMap_def)

lemma dropWhile_shorter: "takeWhile P s \<noteq> [] \<Longrightarrow> length (dropWhile P s) < length s"
  by (cases s) (auto simp: less_Suc_eq_le length_dropWhile_le split: if_splits)

lemma duration_part_shorter:
  assumes "duration_part s = Some (w, r)"
  shows "length r < length s"
proof -
  obtain v s1 where v: "leadingInt 0 s = Some (v, s1)"
    using assms by (auto simp: duration_part_def split: bind_splits)
  obtain f sc s2 post where f: "fraction_part s1 = (f, sc, s2, post)" by (metis prod_cases4)
  obtain u where u: "unitMap (takeWhile unit_char s2) = Some u" and r: "r = dropWhile unit_char s2"
    using assms v f by (auto simp: duration_part_def Let_def split: bind_splits if_splits)
  have "length s2 \<le> length s1" by (rule fraction_part_length [OF f])
  with leadingInt_length [OF v] dropWhile_shorter [OF unitMap_nonempty [OF u]] r
  show ?thesis by simp
qed

text \<open>The length of the text is enough fuel: more of it changes nothing.\<close>

lemma duration_parts_fuel:
  "length s \<le> fuel \<Longrightarrow> duration_parts fuel d s = duration_parts (length s) d s"
proof (induction "length s" arbitrary: s d fuel rule: less_induct)
  case less
  show ?case
  proof (cases s)
    case (Cons c cs)
    with less.prems obtain f where f: "fuel = Suc f" "length cs \<le> f" by (cases fuel) auto
    have "duration_parts f e r = duration_parts (length cs) e r"
      if "duration_part (c # cs) = Some (w, r)" for w r e
    proof -
      have "length r < length s" "length r \<le> length cs" "length r \<le> f"
        using duration_part_shorter [OF that] f Cons by auto
      then show ?thesis using less.hyps by metis
    qed
    with f Cons show ?thesis by (auto split: bind_splits)
  qed simp
qed

lemma duration_parts_le: "duration_parts fuel d s = Some e \<Longrightarrow> d \<le> 2 ^ 63 \<Longrightarrow> e \<le> 2 ^ 63"
  by (induction fuel d s rule: duration_parts.induct)
    (auto split: prod.splits if_splits option.splits bind_splits)

lemma ParseDuration_range: "ParseDuration s = Some d \<Longrightarrow> min_duration \<le> d \<and> d \<le> max_duration"
  using duration_parts_le [of _ 0]
  by (fastforce simp: ParseDuration_def min_duration_def max_duration_def Let_def
      split: option.splits if_splits list.splits prod.splits)

section \<open>RFC 3339 timestamps\<close>

definition leap :: "nat \<Rightarrow> bool" where
  "leap y \<longleftrightarrow> y mod 4 = 0 \<and> (y mod 100 \<noteq> 0 \<or> y mod 400 = 0)"

definition days_in :: "nat \<Rightarrow> nat \<Rightarrow> nat" where
  "days_in y m = (if m = 2 then if leap y then 29 else 28
     else if m \<in> {4, 6, 9, 11} then 30 else 31)"

text \<open>Days from 1 January of year 0 to 1 January of year \<open>y\<close>.\<close>

definition days_before_year :: "nat \<Rightarrow> nat" where
  "days_before_year y = 365 * y
     + (if y = 0 then 0 else Suc ((y - 1) div 4 - (y - 1) div 100 + (y - 1) div 400))"

definition days_before_month :: "nat \<Rightarrow> nat \<Rightarrow> nat" where
  "days_before_month y m = sum_list (map (days_in y) [1..<m])"

definition civil_seconds :: "nat \<Rightarrow> nat \<Rightarrow> nat \<Rightarrow> nat \<Rightarrow> nat \<Rightarrow> nat \<Rightarrow> int" where
  "civil_seconds y mo d h mi s =
     (int (days_before_year y + days_before_month y mo + (d - 1)) - 719528) * 86400
       + int (h * 3600 + mi * 60 + s)"

text \<open>Exactly \<open>n\<close> digits.\<close>

definition take_digits :: "nat \<Rightarrow> string \<Rightarrow> (nat \<times> string) option" where
  "take_digits n s =
     (let ds = take n s
      in if length ds = n \<and> list_all is_digit ds then Some (digits_value ds, drop n s) else None)"

definition expect :: "char \<Rightarrow> string \<Rightarrow> string option" where
  "expect c s = (case s of [] \<Rightarrow> None | x # r \<Rightarrow> if x = c then Some r else None)"

text \<open>The hour may have one digit (\<open>getnum\<close> without \<open>fixed\<close>).\<close>

definition hour_digits :: "string \<Rightarrow> (nat \<times> string) option" where
  "hour_digits s =
     (case s of
        a # b # r \<Rightarrow> if is_digit a \<and> is_digit b then take_digits 2 s else take_digits 1 s
      | _ \<Rightarrow> take_digits 1 s)"

text \<open>A fraction is a point or comma with at least one digit; nine digits count.\<close>

definition fraction_ns :: "string \<Rightarrow> nat \<times> string" where
  "fraction_ns s =
     (case s of
        p # c # r \<Rightarrow>
          if (p = CHR ''.'' \<or> p = CHR '','') \<and> is_digit c then
            (let ds = takeWhile is_digit (c # r); kept = take 9 ds
             in (digits_value kept * 10 ^ (9 - length kept), dropWhile is_digit (c # r)))
          else (0, s)
      | _ \<Rightarrow> (0, s))"

definition zone_offset :: "string \<Rightarrow> (int \<times> string) option" where
  "zone_offset s =
     (case s of
        [] \<Rightarrow> None
      | z # r \<Rightarrow>
          if z = CHR ''Z'' then Some (0, r)
          else if z = CHR ''+'' \<or> z = CHR ''-'' then
            do { (h, r1) \<leftarrow> take_digits 2 r;
                 r2 \<leftarrow> expect colon r1;
                 (m, r3) \<leftarrow> take_digits 2 r2;
                 if 24 < h \<or> 60 < m then None
                 else Some ((if z = CHR ''-'' then - 1 else 1) * int (h * 3600 + m * 60), r3) }
          else None)"

definition ParseRFC3339 :: "string \<Rightarrow> time option" where
  "ParseRFC3339 s =
     do { (y, s) \<leftarrow> take_digits 4 s;
          s \<leftarrow> expect (CHR ''-'') s;
          (mo, s) \<leftarrow> take_digits 2 s;
          s \<leftarrow> expect (CHR ''-'') s;
          (d, s) \<leftarrow> take_digits 2 s;
          s \<leftarrow> expect (CHR ''T'') s;
          (h, s) \<leftarrow> hour_digits s;
          s \<leftarrow> expect colon s;
          (mi, s) \<leftarrow> take_digits 2 s;
          s \<leftarrow> expect colon s;
          (sec, s) \<leftarrow> take_digits 2 s;
          let (ns, s) = fraction_ns s;
          (off, s) \<leftarrow> zone_offset s;
          if s = [] \<and> 1 \<le> mo \<and> mo \<le> 12 \<and> 1 \<le> d \<and> d \<le> days_in y mo
             \<and> h < 24 \<and> mi < 60 \<and> sec < 60
          then Some ((civil_seconds y mo d h mi sec - off) * Second + int ns)
          else None }"

section \<open>Range of a timestamp\<close>

lemma digits_value_less: "list_all is_digit ds \<Longrightarrow> digits_value ds < 10 ^ length ds"
proof (induction ds rule: rev_induct)
  case (snoc c ds)
  then have "digits_value ds < 10 ^ length ds" and "digit_val c < 10"
    by (auto simp: is_digit_def digit_val_def)
  then have "10 * digits_value ds + digit_val c < 10 * 10 ^ length ds" by linarith
  then show ?case by simp
qed (simp add: digits_value_def)

lemma take_digits_less: "take_digits n s = Some (v, r) \<Longrightarrow> v < 10 ^ n"
  using digits_value_less [of "take n s"] by (auto simp: take_digits_def Let_def split: if_splits)

lemma fraction_ns_less: "fst (fraction_ns s) < 10 ^ 9"
proof -
  have le: "digits_value kept * 10 ^ (9 - length kept) < 10 ^ 9"
    if "list_all is_digit kept" "length kept \<le> 9" for kept
  proof -
    have "digits_value kept * 10 ^ (9 - length kept) < 10 ^ length kept * 10 ^ (9 - length kept)"
      using digits_value_less [OF that(1)] by simp
    also have "\<dots> = 10 ^ 9" using that(2) by (simp add: power_add [symmetric])
    finally show ?thesis .
  qed
  have kept: "digits_value (take 9 (takeWhile is_digit ds))
      * 10 ^ (9 - length (take 9 (takeWhile is_digit ds))) < 10 ^ 9" for ds
    by (rule le) (auto simp: list_all_iff dest: set_takeWhileD in_set_takeD)
  have "digits_value (c # take 8 (takeWhile is_digit r))
      * 10 ^ (8 - min (length (takeWhile is_digit r)) 8) < 1000000000" if "is_digit c" for c r
    using kept [of "c # r"] that by simp
  then show ?thesis
    by (auto simp: fraction_ns_def Let_def split: list.splits)
qed

lemma zone_offset_bound: "zone_offset s = Some (off, r) \<Longrightarrow> - 90000 \<le> off"
  by (auto simp: zone_offset_def split: list.splits if_splits bind_splits)

lemma days_before_month_le: "days_before_month y mo \<le> 31 * mo"
proof -
  have d: "days_in y m \<le> 31" for m by (simp add: days_in_def)
  have "sum_list (map (days_in y) xs) \<le> 31 * length xs" for xs
  proof (induction xs)
    case (Cons m xs)
    with d [of m] show ?case by simp
  qed simp
  from this [of "[1..<mo]"] show ?thesis by (simp add: days_before_month_def)
qed

lemma civil_seconds_less:
  assumes "y < 10000" and "mo \<le> 12" and "d \<le> 99" and "h < 24" and "mi < 60" and "sec < 60"
  shows "civil_seconds y mo d h mi sec < 10 ^ 12"
proof -
  have "days_before_year y \<le> 365 * y + 2 * y + 2"
  proof -
    have "(y - 1) div 4 \<le> y - 1" "(y - 1) div 400 \<le> y - 1" by (rule div_le_dividend)+
    then have "(y - 1) div 4 - (y - 1) div 100 + (y - 1) div 400 \<le> 2 * y" by linarith
    moreover have "days_before_year y \<le> 365 * y + Suc ((y - 1) div 4 - (y - 1) div 100 + (y - 1) div 400)"
      unfolding days_before_year_def by (rule add_left_mono) (simp split: if_split)
    ultimately show ?thesis by linarith
  qed
  moreover have "days_before_month y mo \<le> 372" using days_before_month_le [of y mo] assms(2) by linarith
  ultimately have "int (days_before_year y + days_before_month y mo + (d - 1)) \<le> 4000000"
    using assms(1,3) by linarith
  moreover have "int (h * 3600 + mi * 60 + sec) < 86400" using assms(4-6) by simp
  ultimately show ?thesis by (simp add: civil_seconds_def)
qed
lemma timestamp_bound:
  assumes t: "Some ((civil_seconds (fst p) mo d h mi sec - fst q) * Second + int (fst (fraction_ns s4))) = Some t"
    and "take_digits 4 s = Some p" and v: "mo \<le> 12" "d \<le> days_in (fst p) mo" "h < 24" "mi < 60" "sec < 60"
    and off: "zone_offset s2 = Some q"
  shows "t < 10 ^ 22"
proof -
  have "d \<le> 99" using v(2) by (simp add: days_in_def split: if_splits)
  then have "civil_seconds (fst p) mo d h mi sec < 10 ^ 12"
    using take_digits_less [of 4 s "fst p" "snd p"] assms(2) v by (intro civil_seconds_less) simp_all
  moreover have "- 90000 \<le> fst q" using zone_offset_bound [of s2 "fst q" "snd q"] off by simp
  moreover have "int (fst (fraction_ns s4)) < 10 ^ 9" using fraction_ns_less [of s4] by simp
  ultimately show ?thesis using t by (auto simp: Second_def)
qed

lemma ParseRFC3339_bound: "ParseRFC3339 s = Some t \<Longrightarrow> t < 10 ^ 22"
  unfolding ParseRFC3339_def Let_def case_prod_beta Option.bind_eq_Some_conv
  by (elim exE conjE, simp only: split: if_split_asm)
    (erule timestamp_bound, assumption+, simp)

end
