(* ===== verification/Executor.thy ===== *)
theory Executor
  imports Task GoParse
begin

text \<open>
  \<open>internal/executor/executor.go\<close>: building the HTTP request of one delivery and reading
  its outcome. What lies outside the process is an argument: the validity check of
  \<open>http.NewRequest\<close>, the rendering of a JSON payload as text, the keyed hash, the clock,
  the parser of HTTP dates, and the network, which answers a request with a transport error
  or a response.

  Request headers are an association list from canonical names, one value per name, because
  the code only uses \<open>Set\<close>, \<open>Get\<close> and \<open>Del\<close>.
  Proved: which headers and which body go out whatever the task's own headers say, and what
  an outcome records.
\<close>

definition maxBodyCapture :: nat where "maxBodyCapture = 2048"
definition defaultTimeout :: duration where "defaultTimeout = 10 * Second"

record Result =
  ResStatusCode :: int
  ResErr :: "string option"
  ResDuration :: duration
  ResBody :: string
  ResBodyTruncated :: bool
  ResRetryAfter :: duration

record http_request =
  rq_method :: string
  rq_url :: string
  rq_headers :: "(string \<times> string) list"
  rq_body :: "string option"

record http_response =
  rs_code :: int
  rs_retry_after :: string
  rs_body :: string

record exec_env =
  env_signingSecret :: string
  env_new_request :: "string \<Rightarrow> string \<Rightarrow> string option"
  env_json :: "json \<Rightarrow> string"
  env_hmac :: "string \<Rightarrow> string \<Rightarrow> string"
  env_parse_date :: "string \<Rightarrow> time option"

section \<open>Headers\<close>

definition token_char :: "char \<Rightarrow> bool" where
  "token_char c \<longleftrightarrow>
     (let n = of_char c :: nat
      in is_digit c \<or> (65 \<le> n \<and> n \<le> 90) \<or> (97 \<le> n \<and> n \<le> 122)
         \<or> c \<in> set ''!#$%&*+-.^_`|~'' \<or> n = 39)"

fun canonical_case :: "bool \<Rightarrow> string \<Rightarrow> string" where
  "canonical_case up [] = []"
| "canonical_case up (c # s) =
     (if up then byte_upper c else byte_lower c) # canonical_case (c = CHR ''-'') s"

text \<open>\<open>CanonicalMIMEHeaderKey\<close>: a name with a byte that no token has is left alone.\<close>

definition canonical_key :: "string \<Rightarrow> string" where
  "canonical_key k = (if list_all token_char k then canonical_case True k else k)"

definition header_Del :: "string \<Rightarrow> (string \<times> string) list \<Rightarrow> (string \<times> string) list" where
  "header_Del k h = filter (\<lambda>p. fst p \<noteq> canonical_key k) h"

definition header_Set :: "string \<Rightarrow> string \<Rightarrow> (string \<times> string) list \<Rightarrow> (string \<times> string) list" where
  "header_Set k v h = (canonical_key k, v) # header_Del k h"

definition header_Get :: "string \<Rightarrow> (string \<times> string) list \<Rightarrow> string" where
  "header_Get k h = (case map_of h (canonical_key k) of None \<Rightarrow> [] | Some v \<Rightarrow> v)"

section \<open>Building the request\<close>

definition timeout :: "task \<Rightarrow> duration" where
  "timeout t = (if 0 < sint (TimeoutMs t) then sint (TimeoutMs t * word_of_int Millisecond)
     else defaultTimeout)"

definition hex_digit :: "nat \<Rightarrow> char" where
  "hex_digit n = (if n < 10 then char_of (48 + n) else char_of (87 + n))"

definition hex :: "string \<Rightarrow> string" where
  "hex s = concat (map (\<lambda>c. let n = of_char c :: nat in [hex_digit (n div 16), hex_digit (n mod 16)]) s)"

definition sign_request ::
  "exec_env \<Rightarrow> time \<Rightarrow> string \<Rightarrow> (string \<times> string) list \<Rightarrow> (string \<times> string) list" where
  "sign_request env now body h =
     (if env_signingSecret env = [] then h
      else let ts = dec_int (Unix now);
               mac = env_hmac env (env_signingSecret env) (ts @ ''.'' @ body)
        in header_Set ''X-Schedy-Signature'' (''sha256='' @ hex mac)
             (header_Set ''X-Schedy-Timestamp'' ts h))"

definition task_method :: "task \<Rightarrow> string" where
  "task_method t = (if Method t = [] then ''POST'' else Method t)"

text \<open>\<open>GET\<close> and \<open>HEAD\<close> carry no body; a string payload goes out as it is.\<close>

definition request_body :: "exec_env \<Rightarrow> task \<Rightarrow> string option" where
  "request_body env t =
     (if task_method t = ''GET'' \<or> task_method t = ''HEAD'' then None
      else Some (case Payload t of JStr s \<Rightarrow> s | j \<Rightarrow> env_json env j))"

definition custom_headers :: "task \<Rightarrow> (string \<times> string) list" where
  "custom_headers t = foldl (\<lambda>h (k, v). header_Set k v h) []
     (case Headers t of None \<Rightarrow> [] | Some hs \<Rightarrow> hs)"

definition task_headers :: "exec_env \<Rightarrow> time \<Rightarrow> task \<Rightarrow> (string \<times> string) list" where
  "task_headers env now t =
     (let body = request_body env t;
          h1 = custom_headers t;
          h2 = (if body \<noteq> None \<and> header_Get ''Content-Type'' h1 = []
            then header_Set ''Content-Type'' ''application/json'' h1 else h1);
          h3 = (if header_Get ''User-Agent'' h2 = [] then header_Set ''User-Agent'' ''schedy'' h2 else h2);
          h4 = (if ID t \<noteq> [] then header_Set ''X-Schedy-Task-Id'' (ID t) h3
            else header_Del ''X-Schedy-Task-Id'' h3)
      in sign_request env now (case body of None \<Rightarrow> [] | Some b \<Rightarrow> b) h4)"

section \<open>Reading the outcome\<close>

definition retryAfterHint :: "exec_env \<Rightarrow> time \<Rightarrow> http_response \<Rightarrow> duration" where
  "retryAfterHint env now res =
     (if rs_code res \<noteq> 429 \<and> rs_code res \<noteq> 503 then 0
      else if rs_retry_after res = [] then 0
      else case parse_int64 (rs_retry_after res) of
          Some secs \<Rightarrow>
            if secs \<le> 0 then 0 else sint (word_of_int secs * word_of_int Second :: go_int)
        | None \<Rightarrow>
            (case env_parse_date env (rs_retry_after res) of
               Some t \<Rightarrow> if 0 < time_Sub t now then time_Sub t now else 0
             | None \<Rightarrow> 0))"

definition failure_text :: "int \<Rightarrow> string" where
  "failure_text code = ''unexpected status code: '' @ dec_int code"

text \<open>
  \<open>Execute\<close>: \<open>net\<close> is the answer of the network to the request together with the time the
  round trip took; \<open>now\<close> is the clock.
\<close>

definition Execute ::
  "exec_env \<Rightarrow> time \<Rightarrow> (http_request \<Rightarrow> duration \<Rightarrow> (string + http_response) \<times> duration) \<Rightarrow> task \<Rightarrow> Result"
where
  "Execute env now net t =
     (case env_new_request env (task_method t) (URL t) of
        Some e \<Rightarrow> \<lparr>ResStatusCode = 0, ResErr = Some e, ResDuration = 0, ResBody = [],
          ResBodyTruncated = False, ResRetryAfter = 0\<rparr>
      | None \<Rightarrow>
          (let rq = \<lparr>rq_method = task_method t, rq_url = URL t,
                 rq_headers = task_headers env now t, rq_body = request_body env t\<rparr>
           in case net rq (timeout t) of
                (Inl e, dur) \<Rightarrow> \<lparr>ResStatusCode = 0, ResErr = Some e, ResDuration = dur, ResBody = [],
                  ResBodyTruncated = False, ResRetryAfter = 0\<rparr>
              | (Inr res, dur) \<Rightarrow>
                  if rs_code res < 200 \<or> 300 \<le> rs_code res then
                    (let buf = take (maxBodyCapture + 1) (rs_body res);
                         truncated = maxBodyCapture < length buf
                     in \<lparr>ResStatusCode = rs_code res, ResErr = Some (failure_text (rs_code res)),
                          ResDuration = dur,
                          ResBody = (if truncated then take maxBodyCapture buf else buf),
                          ResBodyTruncated = truncated,
                          ResRetryAfter = retryAfterHint env now res\<rparr>)
                  else \<lparr>ResStatusCode = rs_code res, ResErr = None, ResDuration = dur, ResBody = [],
                    ResBodyTruncated = False, ResRetryAfter = 0\<rparr>))"

section \<open>Lemmas\<close>

lemma map_of_Del: "map_of (header_Del k h) x = (if x = canonical_key k then None else map_of h x)"
  by (induction h) (auto simp: header_Del_def)

lemma header_Get_Set: "header_Get k (header_Set k' v h) =
    (if canonical_key k = canonical_key k' then v else header_Get k h)"
  by (simp add: header_Get_def header_Set_def map_of_Del)

lemma header_Get_Del: "header_Get k (header_Del k' h) =
    (if canonical_key k = canonical_key k' then [] else header_Get k h)"
  by (simp add: header_Get_def map_of_Del)

lemma schedy_keys_distinct:
  "canonical_key ''X-Schedy-Task-Id'' \<noteq> canonical_key ''X-Schedy-Signature''"
  "canonical_key ''X-Schedy-Task-Id'' \<noteq> canonical_key ''X-Schedy-Timestamp''"
  "canonical_key ''X-Schedy-Timestamp'' \<noteq> canonical_key ''X-Schedy-Signature''"
  by code_simp+

lemma header_Get_sign:
  "canonical_key k \<noteq> canonical_key ''X-Schedy-Signature'' \<Longrightarrow>
   canonical_key k \<noteq> canonical_key ''X-Schedy-Timestamp'' \<Longrightarrow>
   header_Get k (sign_request env now body h) = header_Get k h"
  by (simp add: sign_request_def Let_def header_Get_Set)

section \<open>Properties\<close>

definition ex_exec_env :: exec_env where
  "ex_exec_env = \<lparr>env_signingSecret = ''k'', env_new_request = (\<lambda>m u. None),
     env_json = (\<lambda>j. ''{}''), env_hmac = (\<lambda>k d. d), env_parse_date = (\<lambda>s. None)\<rparr>"

text \<open>
  The task id header of a delivery is the id of the delivered task, whatever the task's own
  headers say; a request without a task id, such as the failure callback, carries none.
\<close>
lemma task_id_header:
  "header_Get ''X-Schedy-Task-Id'' (task_headers env now t) = ID t"
  by (simp add: task_headers_def Let_def header_Get_sign schedy_keys_distinct header_Get_Set header_Get_Del)

text \<open>
  C40: With a signing secret, every delivery carries the timestamp and the keyed hash over
  "timestamp.body" of exactly the body it sends, whatever the task's own headers say: a task
  can neither forge nor clear its signature.
\<close>
theorem signature_headers:
  assumes "env_signingSecret env \<noteq> []"
  shows "header_Get ''X-Schedy-Timestamp'' (task_headers env now t) = dec_int (Unix now)
    \<and> header_Get ''X-Schedy-Signature'' (task_headers env now t) =
        ''sha256='' @ hex (env_hmac env (env_signingSecret env)
          (dec_int (Unix now) @ ''.'' @ (case request_body env t of None \<Rightarrow> [] | Some b \<Rightarrow> b)))"
  using assms schedy_keys_distinct
  by (simp add: task_headers_def Let_def sign_request_def header_Get_Set)

lemma signature_headers_witness:
  "header_Get ''X-Schedy-Timestamp'' (task_headers ex_exec_env (5 * Second) zero_task) = dec_int (Unix (5 * Second))
    \<and> header_Get ''X-Schedy-Signature'' (task_headers ex_exec_env (5 * Second) zero_task) =
        ''sha256='' @ hex (env_hmac ex_exec_env (env_signingSecret ex_exec_env)
          (dec_int (Unix (5 * Second)) @ ''.'' @
            (case request_body ex_exec_env zero_task of None \<Rightarrow> [] | Some b \<Rightarrow> b)))"
  by (rule signature_headers) code_simp

text \<open>
  The outcome of an attempt: no error exactly for an answer with a 2xx status; a failed
  answer keeps the first 2048 bytes of its body and says whether there were more; nothing
  else keeps a body; a wait is only taken from a 429 or a 503.
\<close>
theorem Execute_outcome:
  fixes t :: task
  shows "let r = Execute env now net t;
      rq = \<lparr>rq_method = task_method t, rq_url = URL t, rq_headers = task_headers env now t,
        rq_body = request_body env t\<rparr>;
      answer = (if env_new_request env (task_method t) (URL t) = None then fst (net rq (timeout t)) else Inl [])
    in (ResErr r = None \<longleftrightarrow> (\<exists>res. answer = Inr res \<and> 200 \<le> rs_code res \<and> rs_code res < 300))
     \<and> (ResBody r = (case answer of Inl e \<Rightarrow> []
          | Inr res \<Rightarrow> if 200 \<le> rs_code res \<and> rs_code res < 300 then [] else take 2048 (rs_body res)))
     \<and> (ResBodyTruncated r \<longleftrightarrow> (\<exists>res. answer = Inr res \<and> ResErr r \<noteq> None \<and> 2048 < length (rs_body res)))
     \<and> (ResStatusCode r = (case answer of Inl e \<Rightarrow> 0 | Inr res \<Rightarrow> rs_code res))
     \<and> (ResRetryAfter r \<noteq> 0 \<longrightarrow> ResStatusCode r = 429 \<or> ResStatusCode r = 503)"
proof (cases "env_new_request env (task_method t) (URL t)")
  case (Some e)
  then show ?thesis by (simp add: Execute_def Let_def)
next
  case None
  let ?rq = "\<lparr>rq_method = task_method t, rq_url = URL t, rq_headers = task_headers env now t,
        rq_body = request_body env t\<rparr>"
  obtain answer dur where a: "net ?rq (timeout t) = (answer, dur)" by fastforce
  show ?thesis
  proof (cases answer)
    case (Inl e)
    with None a show ?thesis by (simp add: Execute_def Let_def)
  next
    case (Inr res)
    with None a show ?thesis
      by (auto simp: Execute_def Let_def maxBodyCapture_def min_def retryAfterHint_def)
  qed
qed

lemma Execute_outcome_witness:
  "let net = (\<lambda>rq d. (Inr \<lparr>rs_code = 503, rs_retry_after = ''7'', rs_body = ''busy''\<rparr>, Second));
       r = Execute ex_exec_env 0 net zero_task
   in ResErr r \<noteq> None \<and> ResRetryAfter r \<noteq> 0 \<and> (ResStatusCode r = 429 \<or> ResStatusCode r = 503)"
proof -
  let ?net = "\<lambda>(rq :: http_request) (d :: duration).
    (Inr \<lparr>rs_code = 503, rs_retry_after = ''7'', rs_body = ''busy''\<rparr> :: string + http_response, Second)"
  have "ResErr (Execute ex_exec_env 0 ?net zero_task) \<noteq> None"
    and "ResRetryAfter (Execute ex_exec_env 0 ?net zero_task) \<noteq> 0" by code_simp+
  with Execute_outcome [of ex_exec_env 0 ?net zero_task] show ?thesis unfolding Let_def by blast
qed

text \<open>
  A large number of seconds in Retry-After overflows the 64-bit duration: the wait comes
  out negative, which the runner ignores, although the documentation promises a wait capped
  at five minutes.
\<close>
lemma retry_after_overflow:
  "retryAfterHint env now \<lparr>rs_code = 429, rs_retry_after = ''9223372037'', rs_body = []\<rparr> < 0"
proof -
  have "parse_int64 ''9223372037'' = Some 9223372037" by code_simp
  then show ?thesis by (simp add: retryAfterHint_def Second_def)
qed

end
