(* ===== verification/Runner.thy ===== *)
theory Runner
  imports StoreIface Attempt Metrics Executor
begin

text \<open>
  \<open>internal/runner/runner.go\<close>, one delivery at a time: the claims of a tick, the re-read
  before firing, the delivery loop with its retries, the skipping of stale tasks, the
  failure callback and the successor of a recurring task. Every phase makes at most one
  store call, so the phases are the atomic steps of a delivery goroutine.

  The clock, the executor and the random source are arguments: a \<open>round\<close> holds what one
  pass of the delivery loop reads from them.
\<close>

record runner_cfg =
  onFailureURL :: string
  maxStaleness :: duration

record round =
  rd_exec :: "task \<Rightarrow> Result"
  rd_fired :: time
  rd_now :: time
  rd_woken :: time
  rd_rand :: "int \<Rightarrow> int"

section \<open>Claims\<close>

definition claim :: "string \<Rightarrow> string set \<Rightarrow> bool \<times> string set" where
  "claim tid inflight = (if tid \<in> inflight then (False, inflight) else (True, insert tid inflight))"

definition release :: "string \<Rightarrow> string set \<Rightarrow> string set" where
  "release tid inflight = inflight - {tid}"

text \<open>The loop of \<open>runOnce\<close>: the tasks a goroutine is started for, and the claims after it.\<close>

fun claim_all :: "task list \<Rightarrow> string set \<Rightarrow> task list \<times> string set" where
  "claim_all [] inflight = ([], inflight)"
| "claim_all (t # ts) inflight =
     (case claim (ID t) inflight of
        (False, inflight') \<Rightarrow> claim_all ts inflight'
      | (True, inflight') \<Rightarrow>
          (case claim_all ts inflight' of (started, inflight'') \<Rightarrow> (t # started, inflight'')))"

definition runOnce ::
  "'s Store \<Rightarrow> time \<Rightarrow> time \<Rightarrow> 's \<Rightarrow> string set \<Rightarrow> task list \<times> string set" where
  "runOnce st start end_time s inflight =
     (case st_GetDueTasks st start end_time (int MaxDueBatch) s of
        (tasks, Some e) \<Rightarrow> ([], inflight)
      | (tasks, None) \<Rightarrow> claim_all tasks inflight)"

section \<open>The re-read before firing\<close>

datatype fire_decision = Drop | Skip task duration | Fire task duration

definition recheck :: "'s Store \<Rightarrow> runner_cfg \<Rightarrow> task \<Rightarrow> time \<Rightarrow> 's \<Rightarrow> fire_decision" where
  "recheck st cfg t fireTime s =
     (case st_GetTask st (ID t) s of
        Inl e \<Rightarrow> Drop
      | Inr None \<Rightarrow> Drop
      | Inr (Some cur) \<Rightarrow>
          if Status cur \<noteq> StatusPending then Drop
          else if ExecuteAt cur \<noteq> ExecuteAt t then Drop
          else let late = time_Sub fireTime (ExecuteAt cur)
            in if 0 < maxStaleness cfg \<and> maxStaleness cfg < late then Skip cur late
               else Fire cur late)"

section \<open>The delivery loop\<close>

definition attempt_of :: "go_int \<Rightarrow> time \<Rightarrow> Result \<Rightarrow> attempt_rec" where
  "attempt_of n fired res =
     \<lparr>AttN = n, FiredAt = fired, AttStatusCode = word_of_int (ResStatusCode res),
      AttError = (case ResErr res of None \<Rightarrow> [] | Some e \<Rightarrow> e),
      DurationMs = word_of_int (sgn (ResDuration res) * (\<bar>ResDuration res\<bar> div Millisecond)),
      AttResponseBody = (if ResErr res = None then [] else ResBody res),
      AttResponseBodyTruncated = (ResErr res \<noteq> None \<and> ResBodyTruncated res)\<rparr>"

text \<open>
  One pass per \<open>round\<close>, from the \<open>k\<close>-th on. The result holds the task as it leaves the
  loop, the tasks handed to \<open>Execute\<close> in order, and the counters.
\<close>

function deliver_loop ::
  "(nat \<Rightarrow> round) \<Rightarrow> nat \<Rightarrow> go_int \<Rightarrow> task \<Rightarrow> attempt \<Rightarrow> metrics \<Rightarrow> task \<times> task list \<times> metrics"
where
  "deliver_loop env k n t a m =
     (let r = env k;
          res = rd_exec r t;
          t1 = t\<lparr>Attempts := Attempts t @ [attempt_of (n + 1) (rd_fired r) res]\<rparr>;
          m1 = ObserveDelivery (ResDuration res) (ResErr res = None) m
      in if ResErr res = None then (t1\<lparr>Status := StatusSucceeded\<rparr>, [t], m1)
         else let a1 = (if 0 < ResRetryAfter res then serverHint (ResRetryAfter res) a else a)
           in case next_try (rd_rand r) (rd_now r) (rd_woken r) a1 of
                Some (a2, slept) \<Rightarrow>
                  (case deliver_loop env (Suc k) (n + 1) t1 a2 m1 of
                     (t2, fired, m2) \<Rightarrow> (t2, t # fired, m2))
              | None \<Rightarrow> (t1\<lparr>Status := StatusFailed\<rparr>, [t], m1))"
  by pat_completeness auto
termination
  by (relation "measure (\<lambda>(env, k, n, t, a, m). tries_left a)")
    (auto dest: next_try_Some(6) split: if_splits)

declare deliver_loop.simps [simp del]

section \<open>Callback and successor\<close>

definition callback_payload :: "task \<Rightarrow> attempt_rec \<Rightarrow> json" where
  "callback_payload t last_att =
     JObj [(''id'', JStr (ID t)), (''status'', JStr (Status t)),
       (''attempts'', JInt (int (length (Attempts t)))), (''last_error'', JStr (AttError last_att)),
       (''status_code'', write_int (AttStatusCode last_att))]"

text \<open>The task that \<open>notifyFailure\<close> hands to \<open>Execute\<close>, if it does.\<close>

definition notifyFailure :: "runner_cfg \<Rightarrow> task \<Rightarrow> task option" where
  "notifyFailure cfg t =
     (let url = (if OnFailureURL t = [] then onFailureURL cfg else OnFailureURL t)
      in if url = [] \<or> Attempts t = [] then None
         else Some (zero_task\<lparr>URL := url, Method := ''POST'',
           Payload := callback_payload t (last (Attempts t))\<rparr>))"

definition successor :: "task \<Rightarrow> time \<Rightarrow> string \<Rightarrow> task option" where
  "successor t fireTime uuid =
     (if Schedule t = [] then None
      else case ParseDuration (Schedule t) of
          None \<Rightarrow> None
        | Some ival \<Rightarrow>
            if ival \<le> 0 then None
            else Some (t\<lparr>ID := uuid, IdempotencyKey := [], ExecuteAt := fireTime + ival,
              Status := StatusPending, Attempts := [], FinishedAt := None\<rparr>))"

definition reschedule :: "'s Store \<Rightarrow> task \<Rightarrow> time \<Rightarrow> string \<Rightarrow> 's \<Rightarrow> 's" where
  "reschedule st t fireTime uuid s =
     (case successor t fireTime uuid of None \<Rightarrow> s | Some nxt \<Rightarrow> snd (st_Save st nxt s))"

section \<open>Stale tasks\<close>

definition stale_error :: "runner_cfg \<Rightarrow> duration \<Rightarrow> string" where
  "stale_error cfg late = ''skipped: '' @ dur_String (dur_Round late Second)
     @ '' past execute_at, exceeds max staleness '' @ dur_String (maxStaleness cfg)"

definition retire_stale :: "runner_cfg \<Rightarrow> task \<Rightarrow> duration \<Rightarrow> time \<Rightarrow> task" where
  "retire_stale cfg t late fireTime =
     t\<lparr>Status := StatusFailed,
       Attempts := Attempts t @ [\<lparr>AttN = of_nat (length (Attempts t)) + 1, FiredAt = fireTime,
         AttStatusCode = 0, AttError = stale_error cfg late, DurationMs = 0,
         AttResponseBody = [], AttResponseBodyTruncated = False\<rparr>],
       FinishedAt := Some fireTime\<rparr>"

definition skipStale ::
  "'s Store \<Rightarrow> runner_cfg \<Rightarrow> task \<Rightarrow> duration \<Rightarrow> time \<Rightarrow> string \<Rightarrow> 's \<Rightarrow> metrics \<Rightarrow> task list \<times> 's \<times> metrics"
where
  "skipStale st cfg t late fireTime uuid s m =
     (let t' = retire_stale cfg t late fireTime;
          s' = snd (st_Update st t' s);
          m' = ObserveTaskFinished False (ObserveSkipped m)
      in (case notifyFailure cfg t' of None \<Rightarrow> [] | Some c \<Rightarrow> [c], reschedule st t' fireTime uuid s', m'))"

section \<open>One delivery from the re-read to the successor\<close>

text \<open>
  The goroutine body after its timer and its delivery slot, with no other store access in
  between: the tasks handed to \<open>Execute\<close>, the store and the counters. The in-flight gauge
  goes up when the slot is taken and down when the goroutine returns.
\<close>

definition mark_running :: "task \<Rightarrow> task" where
  "mark_running t = t\<lparr>Status := StatusRunning\<rparr>"

definition finish :: "time \<Rightarrow> task \<Rightarrow> task" where
  "finish now t = t\<lparr>FinishedAt := Some now\<rparr>"

definition deliver ::
  "'s Store \<Rightarrow> runner_cfg \<Rightarrow> (nat \<Rightarrow> round) \<Rightarrow> task \<Rightarrow> duration \<Rightarrow> time \<Rightarrow> time \<Rightarrow> string
    \<Rightarrow> 's \<Rightarrow> metrics \<Rightarrow> task list \<times> 's \<times> metrics"
where
  "deliver st cfg env cur late fireTime finTime uuid s m =
     (let m1 = ObserveLateness late m;
          att = newAttempt (Retries cur) (RetryInterval cur) (RetryMode cur);
          t = mark_running cur;
          s1 = snd (st_Update st t s);
          (t1, fired, m2) = deliver_loop env 0 (of_nat (length (Attempts t))) t att m1;
          m3 = ObserveTaskFinished (Status t1 = StatusSucceeded) m2;
          t2 = finish finTime t1;
          s2 = snd (st_Update st t2 s1);
          calls = (if Status t2 = StatusFailed
            then (case notifyFailure cfg t2 of None \<Rightarrow> [] | Some c \<Rightarrow> [c]) else [])
      in (fired @ calls, reschedule st t2 fireTime uuid s2, m3))"

definition run_task ::
  "'s Store \<Rightarrow> runner_cfg \<Rightarrow> (nat \<Rightarrow> round) \<Rightarrow> task \<Rightarrow> time \<Rightarrow> time \<Rightarrow> string
    \<Rightarrow> 's \<Rightarrow> metrics \<Rightarrow> task list \<times> 's \<times> metrics"
where
  "run_task st cfg env claimed fireTime finTime uuid s m =
     (let m0 = InflightAdd 1 m
      in case (case recheck st cfg claimed fireTime s of
                 Drop \<Rightarrow> ([], s, m0)
               | Skip cur late \<Rightarrow> skipStale st cfg cur late fireTime uuid s m0
               | Fire cur late \<Rightarrow> deliver st cfg env cur late fireTime finTime uuid s m0) of
           (fired, s', m') \<Rightarrow> (fired, s', InflightAdd (- 1) m'))"

end
