(* ===== verification/Config.thy ===== *)
theory Config
  imports Runner
begin

text \<open>
  What the process reads from its environment when it starts: \<open>New\<close> of
  \<open>internal/runner/runner.go\<close>, the settings that \<open>cmd/schedy/main.go\<close> reads itself,
  \<open>internal/logging/logging.go\<close> and \<open>internal/version/version.go\<close>. The environment is a
  function from names to values, the empty text for a variable that is not set. \<open>None\<close> means
  that the process exits with an error.
  Proved: which environments the process starts with, and the range of every setting.
\<close>

type_synonym environ = "string \<Rightarrow> string"

section \<open>The runner\<close>

definition DefaultMaxConcurrent :: nat where "DefaultMaxConcurrent = 50"

definition max_concurrent :: "environ \<Rightarrow> nat option" where
  "max_concurrent env =
     (let v = env ''SCHEDY_MAX_CONCURRENT_DELIVERIES''
      in if v = [] then Some DefaultMaxConcurrent
         else case parse_int64 v of
             None \<Rightarrow> None
           | Some n \<Rightarrow> if n < 1 then None else Some (nat n))"

definition max_staleness :: "environ \<Rightarrow> duration option" where
  "max_staleness env =
     (let v = env ''SCHEDY_MAX_STALENESS''
      in if v = [] then Some 0
         else case ParseDuration v of
             None \<Rightarrow> None
           | Some d \<Rightarrow> if d \<le> 0 then None else Some d)"

text \<open>\<open>New\<close>: the configuration of the runner and the capacity of its semaphore.\<close>

definition new_runner :: "environ \<Rightarrow> (runner_cfg \<times> nat) option" where
  "new_runner env =
     (case max_concurrent env of
        None \<Rightarrow> None
      | Some n \<Rightarrow>
          (case max_staleness env of
             None \<Rightarrow> None
           | Some d \<Rightarrow> Some (\<lparr>onFailureURL = env ''SCHEDY_ON_FAILURE_URL'', maxStaleness = d\<rparr>, n)))"

section \<open>Logging and version\<close>

datatype level = LevelDebug | LevelInfo | LevelWarn | LevelError
datatype log_handler = TextHandler level | JSONHandler level

definition parseLevel :: "string \<Rightarrow> level" where
  "parseLevel s =
     (let l = to_lower s
      in if l = ''debug'' then LevelDebug
         else if l = ''warn'' \<or> l = ''warning'' then LevelWarn
         else if l = ''error'' then LevelError
         else LevelInfo)"

definition Setup :: "environ \<Rightarrow> log_handler" where
  "Setup env =
     (let l = parseLevel (env ''SCHEDY_LOG_LEVEL'')
      in if fold_name (env ''SCHEDY_LOG_FORMAT'') = fold_name ''json'' then JSONHandler l else TextHandler l)"

text \<open>The stamped version and the version in the build information, if there is any.\<close>

definition version_String :: "string \<Rightarrow> string option \<Rightarrow> string" where
  "version_String Version build_info =
     (if Version \<noteq> [] then Version
      else case build_info of
          Some v \<Rightarrow> if v \<noteq> [] \<and> v \<noteq> ''(devel)'' then v else ''dev''
        | None \<Rightarrow> ''dev'')"

section \<open>The process\<close>

definition dataDir :: "environ \<Rightarrow> string" where
  "dataDir env = (let v = env ''SCHEDY_DATA_DIR'' in if v \<noteq> [] then v else ''data'')"

definition history_ttl :: "environ \<Rightarrow> duration option" where
  "history_ttl env =
     (let v = env ''SCHEDY_HISTORY_TTL'' in if v = [] then Some (72 * Hour) else ParseDuration v)"

record settings =
  set_dir :: string
  set_ttl :: duration
  set_runner :: runner_cfg
  set_slots :: nat
  set_api_key :: string
  set_cors :: string
  set_guard :: bool
  set_signing :: string

text \<open>
  What \<open>main\<close> runs with. The store is opened between the two checks, which the order of
  the exits shows but their outcome does not.
\<close>

definition configure :: "environ \<Rightarrow> settings option" where
  "configure env =
     (case history_ttl env of
        None \<Rightarrow> None
      | Some ttl \<Rightarrow>
          (case new_runner env of
             None \<Rightarrow> None
           | Some (cfg, n) \<Rightarrow> Some
               \<lparr>set_dir = dataDir env, set_ttl = ttl, set_runner = cfg, set_slots = n,
                set_api_key = env ''SCHEDY_API_KEY'', set_cors = env ''SCHEDY_CORS_ORIGIN'',
                set_guard = (env ''SCHEDY_ALLOW_PRIVATE_TARGETS'' = []),
                set_signing = env ''SCHEDY_SIGNING_SECRET''\<rparr>))"

lemma max_concurrent_Some:
  "max_concurrent env = Some n \<longleftrightarrow>
    (if env ''SCHEDY_MAX_CONCURRENT_DELIVERIES'' = [] then n = 50
     else parse_int64 (env ''SCHEDY_MAX_CONCURRENT_DELIVERIES'') = Some (int n) \<and> 0 < n)"
  by (auto simp: max_concurrent_def DefaultMaxConcurrent_def Let_def split: option.splits)

lemma max_staleness_Some:
  "max_staleness env = Some d \<longleftrightarrow>
    (if env ''SCHEDY_MAX_STALENESS'' = [] then d = 0
     else ParseDuration (env ''SCHEDY_MAX_STALENESS'') = Some d \<and> 0 < d)"
  by (auto simp: max_staleness_def Let_def split: option.splits)

lemma configure_Some:
  "configure env = Some c \<longleftrightarrow>
    (\<exists>ttl n d. history_ttl env = Some ttl \<and> max_concurrent env = Some n \<and> max_staleness env = Some d
      \<and> c = \<lparr>set_dir = dataDir env, set_ttl = ttl,
          set_runner = \<lparr>onFailureURL = env ''SCHEDY_ON_FAILURE_URL'', maxStaleness = d\<rparr>, set_slots = n,
          set_api_key = env ''SCHEDY_API_KEY'', set_cors = env ''SCHEDY_CORS_ORIGIN'',
          set_guard = (env ''SCHEDY_ALLOW_PRIVATE_TARGETS'' = []), set_signing = env ''SCHEDY_SIGNING_SECRET''\<rparr>)"
  by (auto simp: configure_def new_runner_def split: option.splits)

end
