(* ===== verification/Disk.thy ===== *)
theory Disk
  imports StoreTheorems Config
begin

text \<open>
  What \<open>internal/scheduler/badger_store.go\<close> does with the database as a whole: \<open>Backup\<close>,
  the offline \<open>Restore\<close> behind \<open>schedy restore\<close>, and the garbage collection loop. The file
  system and the calls of BadgerDB are arguments: reading a directory, opening a file (a
  stream of type \<open>'b\<close>), opening the database of a directory, \<open>DB.Load\<close>, \<open>DB.Backup\<close> and
  one pass of the garbage collector.
  Proved: \<open>Restore\<close> never touches a directory that has entries; what comes back after a
  restore and a start is what was backed up, with interrupted tasks pending again; garbage
  collection ends and changes no task.
\<close>

datatype read_error = NotExist | ReadFailed string

datatype restore_error = DirNotEmpty string | RestoreFailed string

record ('db, 'b) disk =
  dk_ReadDir :: "string \<Rightarrow> read_error + string list"
  dk_Open :: "string \<Rightarrow> string + 'b"
  dk_OpenDB :: "string \<Rightarrow> string + 'db"
  dk_Load :: "'db \<Rightarrow> 'b \<Rightarrow> string option \<times> 'db"
  dk_Backup :: "'db \<Rightarrow> string option \<times> 'b"
  dk_GC :: "'db \<Rightarrow> string option \<times> 'db"

section \<open>Backup and restore\<close>

definition Backup :: "('db, 'b) disk \<Rightarrow> 'db \<Rightarrow> string option \<times> 'b" where
  "Backup d db = dk_Backup d db"

text \<open>The result and the database of the directory, if it was opened at all.\<close>

definition Restore :: "('db, 'b) disk \<Rightarrow> string \<Rightarrow> string \<Rightarrow> restore_error option \<times> 'db option" where
  "Restore d dir backupFile =
     (case dk_ReadDir d dir of
        Inr (e # es) \<Rightarrow> (Some (DirNotEmpty dir), None)
      | Inl (ReadFailed err) \<Rightarrow> (Some (RestoreFailed err), None)
      | _ \<Rightarrow>
          (case dk_Open d backupFile of
             Inl err \<Rightarrow> (Some (RestoreFailed err), None)
           | Inr f \<Rightarrow>
               (case dk_OpenDB d dir of
                  Inl err \<Rightarrow> (Some (RestoreFailed err), None)
                | Inr db \<Rightarrow>
                    (case dk_Load d db f of (err, db') \<Rightarrow> (map_option RestoreFailed err, Some db')))))"

text \<open>\<open>schedy restore\<close>: the exit code.\<close>

definition runRestore :: "('db, 'b) disk \<Rightarrow> environ \<Rightarrow> string list \<Rightarrow> nat \<times> 'db option" where
  "runRestore d env args =
     (case args of
        [f] \<Rightarrow> (case Restore d (dataDir env) f of (err, db) \<Rightarrow> (if err = None then 0 else 1, db))
      | _ \<Rightarrow> (1, None))"

section \<open>Garbage collection\<close>

text \<open>The passes of one tick: until one reports an error, which nothing in the code bounds.\<close>

partial_function (option) gc_passes :: "('db \<Rightarrow> string option \<times> 'db) \<Rightarrow> 'db \<Rightarrow> 'db option" where
  "gc_passes gc db = (case gc db of (None, db') \<Rightarrow> gc_passes gc db' | (Some e, db') \<Rightarrow> Some db')"

text \<open>\<open>RunGC\<close> over the ticks up to the cancellation of its context.\<close>

fun RunGC :: "('db, 'b) disk \<Rightarrow> nat \<Rightarrow> 'db \<Rightarrow> 'db option" where
  "RunGC d 0 db = Some db"
| "RunGC d (Suc ticks) db = (case gc_passes (dk_GC d) db of None \<Rightarrow> None | Some db' \<Rightarrow> RunGC d ticks db')"

lemma gc_passes_end:
  fixes garbage :: "'db \<Rightarrow> nat"
  assumes "\<And>db. gc db = (None, snd (gc db)) \<Longrightarrow> garbage (snd (gc db)) < garbage db"
    and "\<And>db. f (snd (gc db)) = f db"
  shows "\<exists>db'. gc_passes gc db = Some db' \<and> f db' = f db"
proof (induction "garbage db" arbitrary: db rule: less_induct)
  case less
  obtain e db' where g: "gc db = (e, db')" by fastforce
  show ?case
  proof (cases e)
    case None
    with g assms(1) [of db] less [of db'] assms(2) [of db] show ?thesis
      by (subst gc_passes.simps) auto
  next
    case (Some x)
    with g assms(2) [of db] show ?thesis by (subst gc_passes.simps) auto
  qed
qed

section \<open>Documented behaviour\<close>

text \<open>
  What BadgerDB documents: loading a backup into an empty database gives the entries that the
  backup took, and a value log pass, which rewrites part of the log, keeps the entries and
  leaves less to reclaim.
\<close>

definition faithful_backup :: "'db kv \<Rightarrow> ('db, 'b) disk \<Rightarrow> bool" where
  "faithful_backup kv d \<longleftrightarrow>
     (\<forall>src b blank db. dk_Backup d src = (None, b) \<longrightarrow> kv_items kv blank = [] \<longrightarrow>
        dk_Load d blank b = (None, db) \<longrightarrow> kv_items kv db = kv_items kv src)"

definition faithful_gc :: "'db kv \<Rightarrow> ('db, 'b) disk \<Rightarrow> ('db \<Rightarrow> nat) \<Rightarrow> bool" where
  "faithful_gc kv d garbage \<longleftrightarrow>
     (\<forall>db. kv_items kv (snd (dk_GC d db)) = kv_items kv db
        \<and> (fst (dk_GC d db) = None \<longrightarrow> garbage (snd (dk_GC d db)) < garbage db))"

section \<open>Properties\<close>

text \<open>
  \<open>schedy restore\<close> opens the data directory only when it has no entries or does not
  exist: a directory with entries is refused with exit code 1, and nothing is loaded into it.
\<close>
theorem restore_refuses_data:
  assumes "dk_ReadDir d (dataDir env) = Inr entries" and "entries \<noteq> []"
  shows "runRestore d env args = (1, None)"
proof -
  obtain e es where "entries = e # es" using assms(2) by (cases entries) auto
  with assms(1) show ?thesis by (auto simp: runRestore_def Restore_def split: list.split)
qed

text \<open>
  C25: A backup brings the tasks back: when a backup of a running store was taken without error
  and restored with exit code 0, a process started on the result holds exactly the tasks of
  the moment of the backup, those that were being delivered pending again.
\<close>
theorem backup_restores:
  assumes "badger kv" and "wf_store kv src" and "faithful_backup kv d"
    and "Backup d src = (None, b)" and "dk_Open d backupFile = Inr b"
    and "dk_OpenDB d (dataDir env) = Inr blank" and "kv_items kv blank = []"
    and "runRestore d env [backupFile] = (0, Some db)" and "RecoverRunning kv ttl db = (None, db')"
  shows "wf_store kv db'
    \<and> view kv db' = (\<lambda>x. map_option (\<lambda>t. if Status t = StatusRunning then t\<lparr>Status := StatusPending\<rparr> else t) (view kv src x))"
proof -
  have l: "dk_Load d blank b = (None, db)"
    using assms(5,6,8) by (auto simp: runRestore_def Restore_def split: sum.splits list.splits read_error.splits prod.splits if_splits)
  then have i: "kv_items kv db = kv_items kv src"
    using assms(3,4,7) unfolding faithful_backup_def Backup_def by blast
  have w: "wf_store kv db" using assms(2) items_decide(1) [OF i] by simp
  from badger.RecoverRunning_map [OF assms(1) w assms(9)] show ?thesis
    by (simp add: items_decide(2) [OF i] o_def requeue_def [abs_def])
qed

text \<open>
  The garbage collection loop ends at every tick, provided a successful pass always leaves
  less to reclaim, and no task changes, whatever the number of ticks.
\<close>
theorem gc_keeps_tasks:
  assumes "faithful_gc kv d garbage" and "wf_store kv db"
  shows "\<exists>db'. RunGC d ticks db = Some db' \<and> wf_store kv db' \<and> view kv db' = view kv db"
proof -
  have "\<exists>db'. RunGC d ticks db = Some db' \<and> kv_items kv db' = kv_items kv db" for ticks db
  proof (induction ticks arbitrary: db)
    case (Suc ticks)
    have "\<exists>db'. gc_passes (dk_GC d) db = Some db' \<and> kv_items kv db' = kv_items kv db"
      by (rule gc_passes_end [where garbage = garbage]) (use assms(1) in \<open>auto simp: faithful_gc_def prod_eq_iff\<close>)
    with Suc show ?case by fastforce
  qed simp
  then show ?thesis using items_decide assms(2) by metis
qed

section \<open>An example\<close>

text \<open>A disk for the in-memory database, whose garbage is the entries that later ones replace.\<close>

definition mem_disk :: "string list \<Rightarrow> item list \<Rightarrow> (item list, item list) disk" where
  "mem_disk entries file =
     \<lparr>dk_ReadDir = (\<lambda>dir. Inr entries), dk_Open = (\<lambda>f. Inr file), dk_OpenDB = (\<lambda>dir. Inr []),
      dk_Load = (\<lambda>db b. (None, b @ db)), dk_Backup = (\<lambda>db. (None, db)),
      dk_GC = (\<lambda>db. if length (mem_items db) < length db then (None, mem_items db) else (Some ''no rewrite'', db))\<rparr>"

lemma mem_items_sorted_id: "ssorted (map item_key db) \<Longrightarrow> mem_items db = db"
proof (induction db)
  case (Cons i db)
  then have "mem_items db = db" by (simp add: ssorted_Cons)
  moreover have "upsert i db = i # db" using Cons.prems by (cases db) (auto simp: ssorted_Cons)
  ultimately show ?case by (simp add: mem_items_def)
qed (simp add: mem_items_def)

lemma restore_refuses_data_witness:
  "runRestore (mem_disk [''MANIFEST''] []) (\<lambda>v. []) [''backup''] = (1, None)"
  by (rule restore_refuses_data [where entries = "[''MANIFEST'']"]) (simp_all add: mem_disk_def)

lemma backup_restores_witness:
  "let db' = snd (RecoverRunning (mem_kv 8) Hour ex_crashed)
   in wf_store (mem_kv 8) db' \<and> view (mem_kv 8) db' = (\<lambda>x. map_option
    (\<lambda>t. if Status t = StatusRunning then t\<lparr>Status := StatusPending\<rparr> else t) (view (mem_kv 8) ex_crashed x))"
  unfolding Let_def
proof (rule backup_restores [OF ex_badger ex_db_wf(2), where d = "mem_disk [] ex_crashed" and backupFile = "''backup''"
      and env = "\<lambda>v. []" and b = ex_crashed and blank = "[]"])
  show "faithful_backup (mem_kv 8) (mem_disk [] ex_crashed)"
  proof -
    have nil: "blank = []" if "mem_items blank = []" for blank
    proof (cases blank)
      case (Cons i db)
      then have "i \<in> set (mem_items blank)" by (simp add: mem_items_Cons)
      with that show ?thesis by simp
    qed simp
    show ?thesis by (auto simp: faithful_backup_def mem_disk_def dest!: nil)
  qed
qed (rule ex_recovers | simp add: mem_disk_def Backup_def runRestore_def Restore_def mem_items_def)+

lemma gc_keeps_tasks_witness:
  "\<exists>db'. RunGC (mem_disk [] []) 3 ex_db = Some db' \<and> wf_store (mem_kv 8) db' \<and> view (mem_kv 8) db' = view (mem_kv 8) ex_db"
proof (rule gc_keeps_tasks [where garbage = length])
  show "faithful_gc (mem_kv 8) (mem_disk [] []) length"
    using mem_items_sorted_id [OF mem_items_sorted] by (auto simp: faithful_gc_def mem_disk_def)
qed (rule ex_db_wf(1))

end
