(* ===== verification/DeliveryProps.thy ===== *)
theory DeliveryProps
  imports Runner
begin

text \<open>
  What one delivery does: the delivery loop against a round-by-round description of it, the
  numbering of the attempts, the re-read before firing and the claims of a tick.
\<close>

section \<open>The delivery loop, round by round\<close>

text \<open>
  \<open>deliver_seq env k n t j\<close> is the task after \<open>j\<close> rounds that all failed and were retried:
  the task that round \<open>j\<close> hands to \<open>Execute\<close>.
\<close>

primrec deliver_seq :: "(nat \<Rightarrow> round) \<Rightarrow> nat \<Rightarrow> go_int \<Rightarrow> task \<Rightarrow> nat \<Rightarrow> task" where
  "deliver_seq env k n t 0 = t"
| "deliver_seq env k n t (Suc j) =
     (let u = deliver_seq env k n t j
      in u\<lparr>Attempts := Attempts u @
           [attempt_of (n + of_nat (Suc j)) (rd_fired (env (k + j))) (rd_exec (env (k + j)) u)]\<rparr>)"

definition round_result :: "(nat \<Rightarrow> round) \<Rightarrow> nat \<Rightarrow> go_int \<Rightarrow> task \<Rightarrow> nat \<Rightarrow> Result" where
  "round_result env k n t j = rd_exec (env (k + j)) (deliver_seq env k n t j)"

definition round_ok :: "(nat \<Rightarrow> round) \<Rightarrow> nat \<Rightarrow> go_int \<Rightarrow> task \<Rightarrow> nat \<Rightarrow> bool" where
  "round_ok env k n t j \<longleftrightarrow> ResErr (round_result env k n t j) = None"

text \<open>The last round: the first one that succeeds, or the one that uses up the retries.\<close>

definition last_round :: "(nat \<Rightarrow> round) \<Rightarrow> nat \<Rightarrow> go_int \<Rightarrow> task \<Rightarrow> nat \<Rightarrow> nat \<Rightarrow> bool" where
  "last_round env k n t tries N \<longleftrightarrow>
     N \<le> tries \<and> (\<forall>j < N. \<not> round_ok env k n t j) \<and> (round_ok env k n t N \<or> N = tries)"

definition observe_round ::
  "(nat \<Rightarrow> round) \<Rightarrow> nat \<Rightarrow> go_int \<Rightarrow> task \<Rightarrow> nat \<Rightarrow> metrics \<Rightarrow> metrics" where
  "observe_round env k n t j =
     ObserveDelivery (ResDuration (round_result env k n t j)) (round_ok env k n t j)"

lemma deliver_seq_shift:
  "deliver_seq env (Suc k) (n + 1) (deliver_seq env k n t (Suc 0)) j = deliver_seq env k n t (Suc j)"
proof (induction j)
  case (Suc j)
  have "n + 1 + of_nat (Suc j) = n + (of_nat (Suc (Suc j)) :: go_int)" by simp
  then show ?case
    by (simp only: deliver_seq.simps(2) [of env "Suc k" "n + 1" "deliver_seq env k n t (Suc 0)" j]
        Suc deliver_seq.simps(2) [of env k n t "Suc j"] add_Suc add_Suc_right)
qed simp

lemma round_shift:
  "round_result env (Suc k) (n + 1) (deliver_seq env k n t (Suc 0)) j = round_result env k n t (Suc j)"
  "round_ok env (Suc k) (n + 1) (deliver_seq env k n t (Suc 0)) j = round_ok env k n t (Suc j)"
  "observe_round env (Suc k) (n + 1) (deliver_seq env k n t (Suc 0)) j = observe_round env k n t (Suc j)"
  by (simp_all only: round_result_def round_ok_def observe_round_def deliver_seq_shift add_Suc
      add_Suc_right)

lemma last_round_0:
  "last_round env k n t tries 0 \<longleftrightarrow> round_ok env k n t 0 \<or> tries = 0"
  by (auto simp: last_round_def)

lemma last_round_Suc:
  "last_round env k n t (Suc tries) (Suc N) \<longleftrightarrow>
     \<not> round_ok env k n t 0 \<and> last_round env (Suc k) (n + 1) (deliver_seq env k n t (Suc 0)) tries N"
  unfolding last_round_def round_shift by (auto simp: less_Suc_eq_0_disj)

lemma last_round_unique:
  "last_round env k n t tries N \<Longrightarrow> last_round env k n t tries M \<Longrightarrow> N = M"
  unfolding last_round_def by (metis le_neq_implies_less linorder_neqE_nat not_less)

lemma upt_Suc_shift: "map f [0..<Suc (Suc N)] = f 0 # map (\<lambda>j. f (Suc j)) [0..<Suc N]"
  by (simp only: upt_conv_Cons zero_less_Suc list.map map_Suc_upt [symmetric] map_map o_def)

lemma deliver_loop_rounds:
  "\<exists>N. last_round env k n t (tries_left a) N
    \<and> deliver_loop env k n t a m =
      ((deliver_seq env k n t (Suc N))
         \<lparr>Status := if round_ok env k n t N then StatusSucceeded else StatusFailed\<rparr>,
       map (deliver_seq env k n t) [0..<Suc N],
       fold (observe_round env k n t) [0..<Suc N] m)"
proof (induction env k n t a m rule: deliver_loop.induct)
  case (1 env k n t a m)
  let ?r = "env k"
  let ?res = "rd_exec ?r t"
  let ?t1 = "deliver_seq env k n t (Suc 0)"
  let ?m1 = "ObserveDelivery (ResDuration ?res) (ResErr ?res = None) m"
  let ?a1 = "if 0 < ResRetryAfter ?res then serverHint (ResRetryAfter ?res) a else a"
  have t1: "t\<lparr>Attempts := Attempts t @ [attempt_of (n + 1) (rd_fired ?r) ?res]\<rparr> = ?t1"
    by simp
  have ok0: "round_ok env k n t 0 \<longleftrightarrow> ResErr ?res = None"
    by (simp add: round_ok_def round_result_def)
  have m1: "observe_round env k n t 0 m = ?m1"
    by (simp add: observe_round_def round_ok_def round_result_def)
  have tries: "tries_left ?a1 = tries_left a" by simp
  show ?case
  proof (cases "ResErr ?res = None")
    case True
    then show ?thesis
      by (intro exI [of _ 0]) (simp add: last_round_0 ok0 deliver_loop.simps [of env k n t a m]
          Let_def m1)
  next
    case False
    show ?thesis
    proof (cases "next_try (rd_rand ?r) (rd_now ?r) (rd_woken ?r) ?a1")
      case None
      then have "tries_left a = 0" using tries by (simp only: next_try_None shouldRetry_iff)
      with False None show ?thesis
        by (intro exI [of _ 0]) (simp add: last_round_0 ok0 deliver_loop.simps [of env k n t a m]
            Let_def m1)
    next
      case (Some p)
      then obtain a2 slept where p: "next_try (rd_rand ?r) (rd_now ?r) (rd_woken ?r) ?a1 = Some (a2, slept)"
        by (cases p) auto
      from next_try_Some(6) [OF p] tries have left: "tries_left a = Suc (tries_left a2)" by simp
      from "1.IH" [OF refl refl refl refl False refl p refl] t1
      obtain N where N: "last_round env (Suc k) (n + 1) ?t1 (tries_left a2) N"
        and eq: "deliver_loop env (Suc k) (n + 1) ?t1 a2 ?m1 =
          ((deliver_seq env (Suc k) (n + 1) ?t1 (Suc N))
             \<lparr>Status := if round_ok env (Suc k) (n + 1) ?t1 N then StatusSucceeded else StatusFailed\<rparr>,
           map (deliver_seq env (Suc k) (n + 1) ?t1) [0..<Suc N],
           fold (observe_round env (Suc k) (n + 1) ?t1) [0..<Suc N] ?m1)"
        by metis
      have "last_round env k n t (tries_left a) (Suc N)"
        using N False ok0 by (simp only: left last_round_Suc) simp
      moreover have "fold (observe_round env k n t) [0..<Suc (Suc N)] m
          = fold (\<lambda>j. observe_round env k n t (Suc j)) [0..<Suc N] ?m1"
        by (simp only: upt_conv_Cons zero_less_Suc fold.simps o_apply m1 map_Suc_upt [symmetric]
            fold_map o_def)
      moreover have "deliver_loop env k n t a m =
          (case deliver_loop env (Suc k) (n + 1) ?t1 a2 ?m1 of (t2, fired, m2) \<Rightarrow> (t2, t # fired, m2))"
        using False by (simp only: deliver_loop.simps [of env k n t a m] Let_def p t1 if_False
            option.case prod.case)
      moreover have "deliver_seq env (Suc k) (n + 1) ?t1 = (\<lambda>j. deliver_seq env k n t (Suc j))"
        and "observe_round env (Suc k) (n + 1) ?t1 = (\<lambda>j. observe_round env k n t (Suc j))"
        by (rule ext, rule deliver_seq_shift) (rule ext, rule round_shift)
      ultimately show ?thesis
        by (intro exI [of _ "Suc N"])
          (simp only: eq prod.case round_shift(2) upt_Suc_shift deliver_seq.simps(1) simp_thms)
    qed
  qed
qed

lemma deliver_seq_fields:
  "deliver_seq env k n t j = t\<lparr>Attempts := Attempts (deliver_seq env k n t j)\<rparr>"
proof (induction j)
  case (Suc j)
  then show ?case by (metis deliver_seq.simps(2) task.update_convs(15) task.surjective)
qed simp

lemma deliver_seq_Attempts:
  "Attempts (deliver_seq env k n t j) = Attempts t @
     map (\<lambda>i. attempt_of (n + of_nat (Suc i)) (rd_fired (env (k + i))) (round_result env k n t i)) [0..<j]"
  by (induction j) (simp_all add: Let_def round_result_def)

section \<open>Records of a life\<close>

text \<open>
  Two facts every stored task keeps: its attempts are numbered from 1 without a gap, and
  it has a finishing time exactly when its status is terminal.
\<close>

definition numbered :: "task \<Rightarrow> bool" where
  "numbered t \<longleftrightarrow> map AttN (Attempts t) = map (\<lambda>i. of_nat (Suc i)) [0..<length (Attempts t)]"

definition settled :: "task \<Rightarrow> bool" where
  "settled t \<longleftrightarrow> (FinishedAt t \<noteq> None \<longleftrightarrow> IsTerminal (Status t))"

definition sound_record :: "task \<Rightarrow> bool" where
  "sound_record t \<longleftrightarrow> numbered t \<and> settled t"

declare numbered_def [record_defs] settled_def [record_defs] sound_record_def [record_defs]

lemma AttN_attempt_of [simp]: "AttN (attempt_of n f r) = n"
  by (simp add: attempt_of_def)

lemma upt_add_map: "[0..<a + b] = [0..<a] @ map (\<lambda>i. a + i) [0..<b]"
  using upt_add_eq_append [of 0 a b] map_add_upt [of a b] by (simp add: add.commute)

lemma numbered_append:
  assumes "numbered t" and "map AttN log = map (\<lambda>i. of_nat (length (Attempts t)) + of_nat (Suc i)) [0..<length log]"
  shows "numbered (t\<lparr>Attempts := Attempts t @ log\<rparr>)"
  using assms by (simp add: numbered_def upt_add_map)

lemma deliver_seq_numbered:
  "numbered t \<Longrightarrow> numbered (deliver_seq env k (of_nat (length (Attempts t))) t j)"
proof -
  assume n: "numbered t"
  show ?thesis
    by (subst deliver_seq_fields, subst deliver_seq_Attempts, rule numbered_append [OF n])
      (simp add: o_def)
qed
end
