(* ===== verification/RunnerProps.thy ===== *)
theory RunnerProps
  imports DeliveryProps
begin

text \<open>
  The runner against any store that keeps the contract of \<open>task_store\<close>: which decision the
  re-read takes, what a delivery writes, which tasks it leaves alone, and the claims of a
  tick.
\<close>

section \<open>Claims\<close>

lemma claim_all_spec:
  "claim_all ts inflight = (started, inflight') \<Longrightarrow>
    distinct (map ID started) \<and> set started \<subseteq> set ts \<and> ID ` set started \<inter> inflight = {}
    \<and> inflight' = inflight \<union> ID ` set started \<and> ID ` set ts \<subseteq> inflight'"
proof (induction ts arbitrary: inflight started)
  case (Cons t ts)
  show ?case
  proof (cases "ID t \<in> inflight")
    case True
    with Cons.prems have "claim_all ts inflight = (started, inflight')" by (simp add: claim_def)
    from Cons.IH [OF this] True show ?thesis by auto
  next
    case False
    with Cons.prems obtain started' where
      r: "claim_all ts (insert (ID t) inflight) = (started', inflight')" "started = t # started'"
      by (auto simp: claim_def split: prod.splits)
    from Cons.IH [OF r(1)] r(2) False show ?thesis by auto
  qed
qed simp

section \<open>Against the store contract\<close>

definition stale :: "runner_cfg \<Rightarrow> duration \<Rightarrow> bool" where
  "stale cfg late \<longleftrightarrow> 0 < maxStaleness cfg \<and> maxStaleness cfg < late"

text \<open>The conditions under which a claimed task may still fire, and its re-read copy.\<close>

definition fireable :: "task \<Rightarrow> task option \<Rightarrow> bool" where
  "fireable t cur \<longleftrightarrow>
     (case cur of None \<Rightarrow> False | Some c \<Rightarrow> Status c = StatusPending \<and> ExecuteAt c = ExecuteAt t)"

text \<open>The task that a delivery of \<open>cur\<close> leaves behind, and the tasks it hands to \<open>Execute\<close>.\<close>

definition delivery ::
  "(nat \<Rightarrow> round) \<Rightarrow> task \<Rightarrow> metrics \<Rightarrow> task \<times> task list \<times> metrics" where
  "delivery env cur m =
     deliver_loop env 0 (of_nat (length (Attempts cur))) (mark_running cur)
       (newAttempt (Retries cur) (RetryInterval cur) (RetryMode cur)) m"

definition delivered :: "(nat \<Rightarrow> round) \<Rightarrow> task \<Rightarrow> time \<Rightarrow> task" where
  "delivered env cur finTime = finish finTime (fst (delivery env cur init_metrics))"

lemma mark_running_simps [simp]:
  "ID (mark_running t) = ID t" "Attempts (mark_running t) = Attempts t"
  "Status (mark_running t) = StatusRunning" "ExecuteAt (mark_running t) = ExecuteAt t"
  "FinishedAt (mark_running t) = FinishedAt t"
  by (simp_all add: mark_running_def)

lemma delivery_rounds:
  fixes env cur
  defines "n \<equiv> of_nat (length (Attempts cur))" and "t \<equiv> mark_running cur"
  shows "\<exists>N. last_round env 0 n t (nat (sint (Retries cur))) N
    \<and> delivery env cur m =
      ((deliver_seq env 0 n t (Suc N))
         \<lparr>Status := if round_ok env 0 n t N then StatusSucceeded else StatusFailed\<rparr>,
       map (deliver_seq env 0 n t) [0..<Suc N],
       fold (observe_round env 0 n t) [0..<Suc N] m)"
  using deliver_loop_rounds [of env 0 n t "newAttempt (Retries cur) (RetryInterval cur) (RetryMode cur)" m]
  by (simp only: delivery_def n_def t_def tries_left_newAttempt)

lemma delivery_metrics:
  "fst (delivery env cur m) = fst (delivery env cur init_metrics)"
  "fst (snd (delivery env cur m)) = fst (snd (delivery env cur init_metrics))"
  using delivery_rounds [of env cur m] delivery_rounds [of env cur init_metrics] last_round_unique
  by (metis fst_conv, metis fst_conv snd_conv)

lemma fst_delivery:
  "fst (delivery env cur m) = cur\<lparr>Status := Status (fst (delivery env cur m)),
     Attempts := Attempts (fst (delivery env cur m))\<rparr>"
  "Status (fst (delivery env cur m)) = StatusSucceeded \<or> Status (fst (delivery env cur m)) = StatusFailed"
proof -
  let ?n = "of_nat (length (Attempts cur)) :: go_int" and ?t = "mark_running cur"
  obtain N where N: "fst (delivery env cur m) = (deliver_seq env 0 ?n ?t (Suc N))
      \<lparr>Status := if round_ok env 0 ?n ?t N then StatusSucceeded else StatusFailed\<rparr>"
    using delivery_rounds [of env cur m] by (metis fst_conv)
  define ats where "ats = Attempts (deliver_seq env 0 ?n ?t (Suc N))"
  have u: "deliver_seq env 0 ?n ?t (Suc N) = ?t\<lparr>Attempts := ats\<rparr>"
    unfolding ats_def by (rule deliver_seq_fields)
  show "fst (delivery env cur m) = cur\<lparr>Status := Status (fst (delivery env cur m)),
     Attempts := Attempts (fst (delivery env cur m))\<rparr>"
    unfolding N u by (simp add: mark_running_def)
  show "Status (fst (delivery env cur m)) = StatusSucceeded \<or> Status (fst (delivery env cur m)) = StatusFailed"
    unfolding N u by simp
qed

lemma delivered_fields:
  "delivered env cur finTime = cur\<lparr>Status := Status (delivered env cur finTime),
     Attempts := Attempts (delivered env cur finTime), FinishedAt := Some finTime\<rparr>"
  "Status (delivered env cur finTime) = StatusSucceeded \<or> Status (delivered env cur finTime) = StatusFailed"
proof -
  obtain s ats where u: "fst (delivery env cur init_metrics) = cur\<lparr>Status := s, Attempts := ats\<rparr>"
    using fst_delivery(1) by blast
  show "delivered env cur finTime = cur\<lparr>Status := Status (delivered env cur finTime),
     Attempts := Attempts (delivered env cur finTime), FinishedAt := Some finTime\<rparr>"
    by (simp add: delivered_def finish_def u)
  show "Status (delivered env cur finTime) = StatusSucceeded \<or> Status (delivered env cur finTime) = StatusFailed"
    using fst_delivery(2) [of env cur init_metrics] by (simp add: delivered_def finish_def)
qed

lemma delivered_sound:
  assumes "numbered cur"
  shows "sound_record (delivered env cur finTime)"
proof -
  let ?n = "of_nat (length (Attempts cur)) :: go_int" and ?t = "mark_running cur"
  obtain N where N: "fst (delivery env cur init_metrics) = (deliver_seq env 0 ?n ?t (Suc N))
      \<lparr>Status := if round_ok env 0 ?n ?t N then StatusSucceeded else StatusFailed\<rparr>"
    using delivery_rounds [of env cur init_metrics] by (metis fst_conv)
  have "numbered ?t" using assms by (simp add: numbered_def mark_running_def)
  from deliver_seq_numbered [OF this, of env 0 "Suc N"]
  have "numbered (delivered env cur finTime)"
    by (simp add: delivered_def finish_def N numbered_def)
  moreover have "settled (delivered env cur finTime)"
    using delivered_fields(2) [of env cur finTime] by (auto simp: settled_def delivered_def finish_def)
  ultimately show ?thesis by (simp add: sound_record_def)
qed

definition callback_list :: "runner_cfg \<Rightarrow> task \<Rightarrow> task list" where
  "callback_list cfg t = (case notifyFailure cfg t of None \<Rightarrow> [] | Some c \<Rightarrow> [c])"

section \<open>Successors\<close>

lemma successor_Some:
  "successor t fireTime uuid = Some nxt \<longleftrightarrow>
    (\<exists>ival. Schedule t \<noteq> [] \<and> ParseDuration (Schedule t) = Some ival \<and> 0 < ival
      \<and> nxt = t\<lparr>ID := uuid, IdempotencyKey := [], ExecuteAt := fireTime + ival,
          Status := StatusPending, Attempts := [], FinishedAt := None\<rparr>)"
  by (auto simp: successor_def split: option.splits)

lemma successor_fields:
  assumes "successor t fireTime uuid = Some nxt"
  shows "ID nxt = uuid" "Status nxt = StatusPending" "Attempts nxt = []" "FinishedAt nxt = None"
    "nxt\<lparr>Status := StatusPending\<rparr> = nxt" "sound_record nxt"
  using assms by (auto simp: successor_Some record_defs)

lemma successor_wf:
  assumes "successor t fireTime uuid = Some nxt" and "sane_clock fireTime"
    and "uuid \<noteq> []" and "colon \<notin> set uuid"
  shows "wf_task nxt"
proof -
  obtain ival where i: "ParseDuration (Schedule t) = Some ival" "0 < ival"
    "nxt = t\<lparr>ID := uuid, IdempotencyKey := [], ExecuteAt := fireTime + ival,
          Status := StatusPending, Attempts := [], FinishedAt := None\<rparr>"
    using assms(1) by (auto simp: successor_Some)
  then have "fits16 (Unix (fireTime + ival))"
    using ParseDuration_range [OF i(1)] by (intro fits16_clock_plus [OF assms(2)]) simp_all
  then show ?thesis using i(3) assms(3,4) by (simp add: wf_task_def)
qed

lemma successor_cong:
  "successor (t\<lparr>Status := s, Attempts := ats, FinishedAt := f\<rparr>) fireTime uuid = successor t fireTime uuid"
  by (auto simp: successor_def split: option.splits)

section \<open>What a run of a task leaves in the store\<close>

text \<open>The stored task after a run that was not dropped, when every write succeeds.\<close>

definition outcome_task ::
  "runner_cfg \<Rightarrow> (nat \<Rightarrow> round) \<Rightarrow> task \<Rightarrow> time \<Rightarrow> time \<Rightarrow> task" where
  "outcome_task cfg env cur fireTime finTime =
     (let late = time_Sub fireTime (ExecuteAt cur)
      in if stale cfg late then retire_stale cfg cur late fireTime
         else delivered env cur finTime)"

lemma retire_stale_sound: "numbered t \<Longrightarrow> sound_record (retire_stale cfg t late fireTime)"
  by (simp add: record_defs retire_stale_def add.commute)

lemma outcome_sound: "numbered cur \<Longrightarrow> sound_record (outcome_task cfg env cur fireTime finTime)"
  by (simp add: outcome_task_def Let_def retire_stale_sound delivered_sound)

lemma outcome_fields:
  "\<exists>s ats f. outcome_task cfg env cur fireTime finTime = cur\<lparr>Status := s, Attempts := ats, FinishedAt := Some f\<rparr>
    \<and> (s = StatusSucceeded \<or> s = StatusFailed)"
proof (cases "stale cfg (time_Sub fireTime (ExecuteAt cur))")
  case True
  then show ?thesis by (auto simp: outcome_task_def Let_def retire_stale_def)
next
  case False
  then have "outcome_task cfg env cur fireTime finTime = delivered env cur finTime"
    by (simp add: outcome_task_def Let_def)
  with delivered_fields [of env cur] show ?thesis by metis
qed

context task_store
begin

lemma update_cases:
  assumes "ok s" and "wf_task t"
  shows "ok (snd (st_Update st t s))"
    and "tasks (snd (st_Update st t s)) =
      (if fst (st_Update st t s) = None then (tasks s)(ID t \<mapsto> t) else tasks s)"
proof -
  obtain r s' where u: "st_Update st t s = (r, s')" by fastforce
  show "ok (snd (st_Update st t s))"
    and "tasks (snd (st_Update st t s)) =
      (if fst (st_Update st t s) = None then (tasks s)(ID t \<mapsto> t) else tasks s)"
    using update_ok [OF assms, of s'] update_err [of t s _ s'] assms(1) u by (cases r; simp)+
qed

lemma save_cases:
  assumes "ok s" and "wf_task (t\<lparr>Status := StatusPending\<rparr>)" and "tasks s (ID t) = None"
  shows "ok (snd (st_Save st t s))"
    and "tasks (snd (st_Save st t s)) =
      (if fst (st_Save st t s) = None then (tasks s)(ID t \<mapsto> t\<lparr>Status := StatusPending\<rparr>) else tasks s)"
proof -
  obtain r s' where u: "st_Save st t s = (r, s')" by fastforce
  show "ok (snd (st_Save st t s))"
    and "tasks (snd (st_Save st t s)) =
      (if fst (st_Save st t s) = None then (tasks s)(ID t \<mapsto> t\<lparr>Status := StatusPending\<rparr>) else tasks s)"
    using save_ok [OF assms, of s'] save_err [of t s _ s'] assms(1) u by (cases r; simp)+
qed

lemma recheck_spec:
  assumes "ok s" and "colon \<notin> set (ID t)"
  shows "recheck st cfg t fireTime s =
    (if fireable t (tasks s (ID t)) then
       (let cur = the (tasks s (ID t)); late = time_Sub fireTime (ExecuteAt cur)
        in if stale cfg late then Skip cur late else Fire cur late)
     else Drop)"
  using get_task [OF assms] by (auto simp: recheck_def fireable_def stale_def Let_def split: option.splits)


lemma reschedule_cases:
  assumes "ok s" and "sane_clock fireTime" and "fresh_id uuid (tasks s)"
  shows "ok (reschedule st t fireTime uuid s)"
    and "tasks (reschedule st t fireTime uuid s) =
      (case successor t fireTime uuid of
         None \<Rightarrow> tasks s
       | Some nxt \<Rightarrow> if fst (st_Save st nxt s) = None then (tasks s)(uuid \<mapsto> nxt) else tasks s)"
proof -
  have u: "uuid \<noteq> []" "colon \<notin> set uuid" "tasks s uuid = None"
    using assms(3) by (simp_all add: fresh_id_def)
  have "ok (reschedule st t fireTime uuid s) \<and> tasks (reschedule st t fireTime uuid s) =
      (case successor t fireTime uuid of
         None \<Rightarrow> tasks s
       | Some nxt \<Rightarrow> if fst (st_Save st nxt s) = None then (tasks s)(uuid \<mapsto> nxt) else tasks s)"
  proof (cases "successor t fireTime uuid")
    case None
    with assms(1) show ?thesis by (simp add: reschedule_def)
  next
    case (Some nxt)
    note n = successor_fields [OF Some] successor_wf [OF Some assms(2) u(1,2)]
    have "wf_task (nxt\<lparr>Status := StatusPending\<rparr>)" "tasks s (ID nxt) = None"
      using n u by simp_all
    from save_cases [OF assms(1) this] n(1,5) Some show ?thesis
      by (simp only: reschedule_def option.case simp_thms)
  qed
  then show "ok (reschedule st t fireTime uuid s)"
    and "tasks (reschedule st t fireTime uuid s) =
      (case successor t fireTime uuid of
         None \<Rightarrow> tasks s
       | Some nxt \<Rightarrow> if fst (st_Save st nxt s) = None then (tasks s)(uuid \<mapsto> nxt) else tasks s)"
    by blast+
qed

lemma InflightAdd_back [simp]: "InflightAdd (- 1) (InflightAdd 1 m) = m"
  by (simp add: InflightAdd_def)

lemma run_task_dropped:
  assumes "ok s" and "colon \<notin> set (ID t)" and "\<not> fireable t (tasks s (ID t))"
  shows "run_task st cfg env t fireTime finTime uuid s m = ([], s, m)"
  using recheck_spec [OF assms(1,2), of cfg fireTime] assms(3) by (simp add: run_task_def Let_def)

lemma skipStale_store:
  "fst (snd (skipStale st cfg t late fireTime uuid s m)) =
    reschedule st (retire_stale cfg t late fireTime) fireTime uuid
      (snd (st_Update st (retire_stale cfg t late fireTime) s))"
  by (simp add: skipStale_def Let_def)

lemma deliver_store:
  "fst (snd (deliver st cfg env cur late fireTime finTime uuid s m)) =
    reschedule st (delivered env cur finTime) fireTime uuid
      (snd (st_Update st (delivered env cur finTime) (snd (st_Update st (mark_running cur) s))))"
  by (simp add: deliver_def Let_def delivered_def split: prod.split)
    (metis delivery_def delivery_metrics(1) fst_conv mark_running_simps(2))

lemma deliver_calls:
  "fst (deliver st cfg env cur late fireTime finTime uuid s m) =
    fst (snd (delivery env cur init_metrics)) @
    (if Status (delivered env cur finTime) = StatusFailed
     then (case notifyFailure cfg (delivered env cur finTime) of None \<Rightarrow> [] | Some c \<Rightarrow> [c]) else [])"
  by (simp add: deliver_def Let_def delivered_def split: prod.split)
    (metis delivery_def delivery_metrics fst_conv snd_conv mark_running_simps(2))

lemma case_triple [simp]:
  "fst (snd (case p of (fired, s', m') \<Rightarrow> (fired, s', g m'))) = fst (snd p)"
  "fst (case p of (fired, s', m') \<Rightarrow> (fired, s', g m')) = fst p"
  by (cases p, simp)+

lemma run_task_store:
  fixes cfg env fireTime finTime
  assumes "ok s" and "colon \<notin> set (ID t)" and "tasks s (ID t) = Some cur" and "fireable t (Some cur)"
  defines "final \<equiv> outcome_task cfg env cur fireTime finTime"
  shows "fst (snd (run_task st cfg env t fireTime finTime uuid s m)) =
    reschedule st final fireTime uuid (snd (st_Update st final
      (if stale cfg (time_Sub fireTime (ExecuteAt cur)) then s else snd (st_Update st (mark_running cur) s))))"
  using recheck_spec [OF assms(1,2), of cfg fireTime] assms(3,4)
    deliver_store [of cfg env cur "time_Sub fireTime (ExecuteAt cur)" fireTime finTime uuid s "InflightAdd 1 m"]
    skipStale_store [of cfg cur "time_Sub fireTime (ExecuteAt cur)" fireTime uuid s "InflightAdd 1 m"]
  by (simp add: run_task_def final_def outcome_task_def Let_def)

text \<open>
  What a run leaves in the store, whichever writes fail: the other tasks as they were, the
  task as it was read, as marked running or as finished, and at most one new task, the
  successor. The last write decides the task.
\<close>

lemma run_task_effect:
  fixes cfg env fireTime finTime m
  assumes "ok s" and t: "tasks s (ID t) = Some cur" "fireable t (Some cur)"
    and clock: "sane_clock fireTime" and fresh: "fresh_id uuid (tasks s)"
  defines "final \<equiv> outcome_task cfg env cur fireTime finTime"
    and "s' \<equiv> fst (snd (run_task st cfg env t fireTime finTime uuid s m))"
  shows "ok s'"
    and "x \<noteq> ID t \<Longrightarrow> x \<noteq> uuid \<Longrightarrow> tasks s' x = tasks s x"
    and "tasks s' (ID t) \<in> {Some cur, Some (mark_running cur), Some final}"
    and "tasks s' uuid = None \<or> tasks s' uuid = successor cur fireTime uuid"
proof -
  have cur: "ID cur = ID t" "wf_task cur" using tasks_wf [OF assms(1) t(1)] by simp_all
  then have nocolon: "colon \<notin> set (ID t)" by (auto simp: wf_task_def)
  have neq: "ID t \<noteq> uuid" and uuid: "tasks s uuid = None" using t(1) fresh by (auto simp: fresh_id_def)
  define s1 where "s1 = (if stale cfg (time_Sub fireTime (ExecuteAt cur)) then s
    else snd (st_Update st (mark_running cur) s))"
  define s2 where "s2 = snd (st_Update st final s1)"
  obtain sts ats f where fin: "final = cur\<lparr>Status := sts, Attempts := ats, FinishedAt := Some f\<rparr>"
    "sts = StatusSucceeded \<or> sts = StatusFailed"
    unfolding final_def using outcome_fields by blast
  have wf: "wf_task (mark_running cur)" "wf_task final"
    using cur(2) fin by (auto simp: mark_running_def wf_task_def)
  have s1: "ok s1" "tasks s1 = tasks s \<or> tasks s1 = (tasks s)(ID t \<mapsto> mark_running cur)"
    using update_cases [OF assms(1) wf(1)] assms(1) cur(1) by (auto simp: s1_def)
  have s2: "ok s2" "tasks s2 = tasks s1 \<or> tasks s2 = (tasks s1)(ID t \<mapsto> final)"
    using update_cases [OF s1(1) wf(2)] fin(1) cur(1) by (auto simp: s2_def)
  have other: "tasks s2 x = tasks s x" if "x \<noteq> ID t" for x using s1(2) s2(2) that by auto
  have mine: "tasks s2 (ID t) \<in> {Some cur, Some (mark_running cur), Some final}"
    using s1(2) s2(2) t(1) by auto
  have fresh2: "fresh_id uuid (tasks s2)"
    using fresh other [of uuid] neq by (simp add: fresh_id_def)
  have s': "s' = reschedule st final fireTime uuid s2"
    unfolding s'_def s2_def s1_def final_def by (rule run_task_store [OF assms(1) nocolon t])
  have succ: "successor final fireTime uuid = successor cur fireTime uuid"
    unfolding fin(1) by (rule successor_cong)
  note r = reschedule_cases [OF s2(1) clock fresh2, of final, folded s', unfolded succ]
  show "ok s'" by (rule r(1))
  have r2: "tasks s' y = tasks s2 y" if "y \<noteq> uuid" for y
    using that by (simp add: r(2) split: option.splits)
  show "tasks s' x = tasks s x" if "x \<noteq> ID t" "x \<noteq> uuid" using r2 other that by simp
  show "tasks s' (ID t) \<in> {Some cur, Some (mark_running cur), Some final}"
    using r2 [OF neq] mine by simp
  show "tasks s' uuid = None \<or> tasks s' uuid = successor cur fireTime uuid"
    using other [of uuid] neq uuid by (auto simp: r(2) split: option.splits)
qed

lemma run_task_records:
  assumes "ok s" and t: "tasks s (ID t) = Some cur" "fireable t (Some cur)"
    and "sane_clock fireTime" and "fresh_id uuid (tasks s)"
    and "\<forall>x u. tasks s x = Some u \<longrightarrow> sound_record u"
    and "tasks (fst (snd (run_task st cfg env t fireTime finTime uuid s m))) x = Some u"
  shows "sound_record u"
proof -
  note e = run_task_effect [OF assms(1-5), where cfg = cfg and env = env and finTime = finTime and m = m]
  have cur: "sound_record cur" using assms(6) t(1) by blast
  have "Status cur = StatusPending" using t(2) by (simp add: fireable_def)
  with cur have run: "sound_record (mark_running cur)"
    by (simp add: record_defs mark_running_def)
  have final: "sound_record (outcome_task cfg env cur fireTime finTime)"
    using cur by (intro outcome_sound) (simp add: sound_record_def)
  show ?thesis
  proof (cases "x = ID t")
    case True
    then show ?thesis using e(3) assms(7) cur run final by auto
  next
    case False
    then have "tasks s x = Some u \<or> successor cur fireTime uuid = Some u"
      using e(2) e(4) assms(7) by (cases "x = uuid") auto
    then show ?thesis using assms(6) successor_fields(6) by blast
  qed
qed

text \<open>When the last write of the task succeeds, the task is finished.\<close>

lemma run_task_finished:
  fixes cfg env fireTime finTime
  assumes "ok s" and t: "tasks s (ID t) = Some cur" "fireable t (Some cur)"
    and clock: "sane_clock fireTime" and fresh: "fresh_id uuid (tasks s)"
  defines "final \<equiv> outcome_task cfg env cur fireTime finTime"
  assumes upd: "fst (st_Update st final (if stale cfg (time_Sub fireTime (ExecuteAt cur)) then s
      else snd (st_Update st (mark_running cur) s))) = None"
  shows "tasks (fst (snd (run_task st cfg env t fireTime finTime uuid s m))) (ID t) = Some final"
proof -
  have cur: "ID cur = ID t" "wf_task cur" using tasks_wf [OF assms(1) t(1)] by simp_all
  then have nocolon: "colon \<notin> set (ID t)" by (auto simp: wf_task_def)
  have neq: "ID t \<noteq> uuid" using t(1) fresh by (auto simp: fresh_id_def)
  define s1 where "s1 = (if stale cfg (time_Sub fireTime (ExecuteAt cur)) then s
    else snd (st_Update st (mark_running cur) s))"
  obtain sts ats f where fin: "final = cur\<lparr>Status := sts, Attempts := ats, FinishedAt := Some f\<rparr>"
    "sts = StatusSucceeded \<or> sts = StatusFailed"
    unfolding final_def using outcome_fields by blast
  have wf: "wf_task (mark_running cur)" "wf_task final"
    using cur(2) fin by (auto simp: mark_running_def wf_task_def)
  have s1: "ok s1" "tasks s1 = tasks s \<or> tasks s1 = (tasks s)(ID t \<mapsto> mark_running cur)"
    using update_cases [OF assms(1) wf(1)] assms(1) cur(1) by (auto simp: s1_def)
  have s2: "ok (snd (st_Update st final s1))"
    "tasks (snd (st_Update st final s1)) = (tasks s1)(ID t \<mapsto> final)"
    using update_cases [OF s1(1) wf(2)] upd fin(1) cur(1) by (simp_all add: s1_def)
  have "fresh_id uuid (tasks (snd (st_Update st final s1)))"
    using fresh s1(2) neq by (auto simp: s2(2) fresh_id_def)
  from reschedule_cases(2) [OF s2(1) clock this, of final]
    run_task_store [OF assms(1) nocolon t, where cfg = cfg and env = env and fireTime = fireTime
      and finTime = finTime and uuid = uuid and m = m, folded final_def s1_def] neq
  show ?thesis by (simp add: s2(2) split: option.splits)
qed

section \<open>What a run hands to Execute\<close>

lemma run_task_calls_stale:
  assumes "ok s" and "colon \<notin> set (ID t)" and "tasks s (ID t) = Some cur" and "fireable t (Some cur)"
    and "stale cfg (time_Sub fireTime (ExecuteAt cur))"
  shows "fst (run_task st cfg env t fireTime finTime uuid s m) =
    callback_list cfg (retire_stale cfg cur (time_Sub fireTime (ExecuteAt cur)) fireTime)"
  using recheck_spec [OF assms(1,2), of cfg fireTime] assms(3-5)
  by (simp add: run_task_def skipStale_def callback_list_def Let_def)

lemma run_task_calls_fire:
  assumes "ok s" and "colon \<notin> set (ID t)" and "tasks s (ID t) = Some cur" and "fireable t (Some cur)"
    and "\<not> stale cfg (time_Sub fireTime (ExecuteAt cur))"
  shows "fst (run_task st cfg env t fireTime finTime uuid s m) =
    fst (snd (delivery env cur init_metrics)) @
      (if Status (delivered env cur finTime) = StatusFailed then callback_list cfg (delivered env cur finTime) else [])"
  using recheck_spec [OF assms(1,2), of cfg fireTime] assms(3-5)
    deliver_calls [of cfg env cur "time_Sub fireTime (ExecuteAt cur)" fireTime finTime uuid s "InflightAdd 1 m"]
  by (simp add: run_task_def callback_list_def Let_def)

end

end
