(* ===== verification/Request.thy ===== *)
theory Request
  imports StoreIface GoParse
begin

text \<open>
  The request side of \<open>internal/api/handler.go\<close>: the HTTP request as a handler reads it,
  the reply it writes, the \<open>taskRequest\<close> body and \<open>decodeTaskRequest\<close>.

  A body is what the JSON decoder makes of the byte stream: its first value (or \<open>NotJson\<close>)
  and how many bytes had to be read to know. The decoder matches field names without regard
  to case. \<open>url.Parse\<close> is an argument that yields scheme and host.
  Proved: what a request that is accepted looks like, in particular that it is due in the
  future and can be stored.
\<close>

definition DEFAULT_RETRY_INTERVAL :: go_int where "DEFAULT_RETRY_INTERVAL = 2000"
definition maxTaskBody :: nat where "maxTaskBody = 1048576"

definition validMethods :: "string list" where
  "validMethods = [''GET'', ''POST'', ''PUT'', ''PATCH'', ''DELETE'', ''HEAD'']"

record http_req =
  hr_header :: "string \<Rightarrow> string"
  hr_query :: "string \<Rightarrow> string"
  hr_path_id :: string
  hr_body_need :: nat
  hr_body :: blob

datatype reply_body = NoBody | ErrorText string | PlainText string | JsonText json

record reply =
  rp_status :: nat
  rp_body :: reply_body

definition http_Error :: "string \<Rightarrow> nat \<Rightarrow> reply" where
  "http_Error msg code = \<lparr>rp_status = code, rp_body = ErrorText msg\<rparr>"

text \<open>The encoder writes nothing when a time in the task cannot be written.\<close>

definition json_reply :: "nat \<Rightarrow> task \<Rightarrow> reply" where
  "json_reply code t = \<lparr>rp_status = code, rp_body = (if marshal_ok t then JsonText (marshal_task t) else NoBody)\<rparr>"

section \<open>Decoding the body\<close>

record taskRequest =
  rURL :: string
  rMethod :: string
  rHeaders :: "(string \<times> string) list option"
  rPayload :: json
  rExecuteAt :: string
  rExecuteIn :: string
  rRetries :: go_int
  rRetryInterval :: "go_int option"
  rRetryMode :: retry_mode
  rSchedule :: string
  rTimeoutMs :: go_int
  rOnFailureURL :: string

definition zero_request :: taskRequest where
  "zero_request = \<lparr>rURL = [], rMethod = [], rHeaders = None, rPayload = JNull, rExecuteAt = [],
     rExecuteIn = [], rRetries = 0, rRetryInterval = None, rRetryMode = [], rSchedule = [],
     rTimeoutMs = 0, rOnFailureURL = []\<rparr>"

definition set_str :: "json \<Rightarrow> string \<Rightarrow> string option" where
  "set_str j cur = (case j of JNull \<Rightarrow> Some cur | JStr s \<Rightarrow> Some s | _ \<Rightarrow> None)"

definition set_int :: "json \<Rightarrow> go_int \<Rightarrow> go_int option" where
  "set_int j cur = (case j of
      JNull \<Rightarrow> Some cur
    | JInt n \<Rightarrow> if - (2 ^ 63) \<le> n \<and> n < 2 ^ 63 then Some (word_of_int n) else None
    | _ \<Rightarrow> None)"

definition set_int_ptr :: "json \<Rightarrow> go_int option \<Rightarrow> go_int option option" where
  "set_int_ptr j cur = (if j = JNull then Some None else map_option Some (set_int j 0))"

text \<open>Entries of a second object go into the same Go map, after those already there.\<close>

definition set_str_map :: "json \<Rightarrow> (string \<times> string) list option \<Rightarrow> (string \<times> string) list option option" where
  "set_str_map j cur = (case j of
      JNull \<Rightarrow> Some None
    | JObj fs \<Rightarrow> map_option (\<lambda>new. Some ((case cur of None \<Rightarrow> [] | Some old \<Rightarrow> old) @ new)) (read_str_fields fs)
    | _ \<Rightarrow> None)"

text \<open>Storing one member of the body object; a name that is no field's is skipped.\<close>

definition set_member :: "string \<Rightarrow> json \<Rightarrow> taskRequest \<Rightarrow> taskRequest option" where
  "set_member name j r =
     (let n = fold_name name in
      if n = fold_name ''url'' then map_option (\<lambda>v. r\<lparr>rURL := v\<rparr>) (set_str j (rURL r))
      else if n = fold_name ''method'' then map_option (\<lambda>v. r\<lparr>rMethod := v\<rparr>) (set_str j (rMethod r))
      else if n = fold_name ''headers'' then
        map_option (\<lambda>v. r\<lparr>rHeaders := v\<rparr>) (set_str_map j (rHeaders r))
      else if n = fold_name ''payload'' then Some (r\<lparr>rPayload := j\<rparr>)
      else if n = fold_name ''execute_at'' then
        map_option (\<lambda>v. r\<lparr>rExecuteAt := v\<rparr>) (set_str j (rExecuteAt r))
      else if n = fold_name ''execute_in'' then
        map_option (\<lambda>v. r\<lparr>rExecuteIn := v\<rparr>) (set_str j (rExecuteIn r))
      else if n = fold_name ''retries'' then map_option (\<lambda>v. r\<lparr>rRetries := v\<rparr>) (set_int j (rRetries r))
      else if n = fold_name ''retry_interval'' then
        map_option (\<lambda>v. r\<lparr>rRetryInterval := v\<rparr>) (set_int_ptr j (rRetryInterval r))
      else if n = fold_name ''retry_mode'' then
        map_option (\<lambda>v. r\<lparr>rRetryMode := v\<rparr>) (set_str j (rRetryMode r))
      else if n = fold_name ''schedule'' then
        map_option (\<lambda>v. r\<lparr>rSchedule := v\<rparr>) (set_str j (rSchedule r))
      else if n = fold_name ''timeout_ms'' then
        map_option (\<lambda>v. r\<lparr>rTimeoutMs := v\<rparr>) (set_int j (rTimeoutMs r))
      else if n = fold_name ''on_failure_url'' then
        map_option (\<lambda>v. r\<lparr>rOnFailureURL := v\<rparr>) (set_str j (rOnFailureURL r))
      else Some r)"

fun set_members :: "(string \<times> json) list \<Rightarrow> taskRequest \<Rightarrow> taskRequest option" where
  "set_members [] r = Some r"
| "set_members ((n, j) # fs) r = Option.bind (set_member n j r) (set_members fs)"

fun unmarshal_request :: "blob \<Rightarrow> taskRequest option" where
  "unmarshal_request (Doc (JObj fs)) = set_members fs zero_request"
| "unmarshal_request (Doc JNull) = Some zero_request"
| "unmarshal_request _ = None"

section \<open>Validation\<close>

text \<open>The fire time, from exactly one of \<open>execute_at\<close> and \<open>execute_in\<close>.\<close>

definition fire_time :: "time \<Rightarrow> taskRequest \<Rightarrow> string + time" where
  \<open>fire_time now req =
     (if rExecuteAt req \<noteq> [] \<and> rExecuteIn req \<noteq> [] then
        Inl ''provide execute_at or execute_in, not both''
      else if rExecuteAt req = [] \<and> rExecuteIn req = [] then
        Inl ''execute_at or execute_in is required''
      else if rExecuteIn req \<noteq> [] then
        (case ParseDuration (rExecuteIn req) of
           None \<Rightarrow> Inl ''invalid execute_in (positive Go duration like "5m" required)''
         | Some d \<Rightarrow>
             if d \<le> 0 then Inl ''invalid execute_in (positive Go duration like "5m" required)''
             else Inr (now + d))
      else
        (case ParseRFC3339 (rExecuteAt req) of
           None \<Rightarrow> Inl ''invalid time (ISO required)''
         | Some t \<Rightarrow> if now < t then Inr t else Inl ''time must be in the future''))\<close>

definition valid_callback :: "(string \<Rightarrow> (string \<times> string) option) \<Rightarrow> string \<Rightarrow> bool" where
  "valid_callback parse_url u =
     (case parse_url u of
        None \<Rightarrow> False
      | Some (scheme, host) \<Rightarrow> (scheme = ''http'' \<or> scheme = ''https'') \<and> host \<noteq> [])"

definition positive_duration :: "string \<Rightarrow> bool" where
  "positive_duration s = (case ParseDuration s of None \<Rightarrow> False | Some d \<Rightarrow> 0 < d)"

definition with_defaults :: "taskRequest \<Rightarrow> taskRequest" where
  "with_defaults req =
     req\<lparr>rRetryInterval := (case rRetryInterval req of
             None \<Rightarrow> Some DEFAULT_RETRY_INTERVAL | Some i \<Rightarrow> Some i),
         rRetryMode := (if rRetryMode req = [] then RetryFixed else rRetryMode req)\<rparr>"

text \<open>The checks after the fire time, in the order of the code.\<close>

definition options_error :: "(string \<Rightarrow> (string \<times> string) option) \<Rightarrow> taskRequest \<Rightarrow> string option" where
  \<open>options_error parse_url req =
     (if \<not> retry_Valid (rRetryMode req) then Some ''invalid retry_mode''
      else if sint (rTimeoutMs req) < 0 \<or> MaxTimeoutMs < sint (rTimeoutMs req) then
        Some (''invalid timeout_ms (0-'' @ dec_int MaxTimeoutMs @ '')'')
      else if rOnFailureURL req \<noteq> [] \<and> \<not> valid_callback parse_url (rOnFailureURL req) then
        Some ''invalid on_failure_url (absolute http(s) URL required)''
      else if rSchedule req \<noteq> [] \<and> \<not> positive_duration (rSchedule req) then
        Some ''invalid schedule (positive Go duration like "15m" required)''
      else None)\<close>

definition decodeTaskRequest ::
  "(string \<Rightarrow> (string \<times> string) option) \<Rightarrow> time \<Rightarrow> http_req \<Rightarrow> reply + taskRequest \<times> time" where
  "decodeTaskRequest parse_url now r =
     (if maxTaskBody < hr_body_need r then Inl (http_Error ''request body too large'' 413)
      else case unmarshal_request (hr_body r) of
          None \<Rightarrow> Inl (http_Error ''invalid body'' 400)
        | Some req0 \<Rightarrow>
          if rURL req0 = [] then Inl (http_Error ''url is required'' 400)
          else
            let req = req0\<lparr>rMethod := to_upper (if rMethod req0 = [] then ''POST'' else rMethod req0)\<rparr>
            in if rMethod req \<notin> set validMethods then Inl (http_Error ''invalid method'' 400)
            else case fire_time now req of
                Inl msg \<Rightarrow> Inl (http_Error msg 400)
              | Inr t \<Rightarrow>
                  (case options_error parse_url (with_defaults req) of
                     Some msg \<Rightarrow> Inl (http_Error msg 400)
                   | None \<Rightarrow> Inr (with_defaults req, t)))"

section \<open>Accepted requests\<close>

lemma fire_time_future:
  assumes "fire_time now req = Inr t"
  shows "now < t" and "sane_clock now \<Longrightarrow> fits16 (Unix t)"
proof -
  consider (duration) d where "ParseDuration (rExecuteIn req) = Some d" "0 < d" "t = now + d"
    | (absolute) "ParseRFC3339 (rExecuteAt req) = Some t" "now < t"
    using assms by (auto simp: fire_time_def split: if_splits option.splits)
  then have "now < t \<and> (sane_clock now \<longrightarrow> fits16 (Unix t))"
  proof cases
    case duration
    then show ?thesis using ParseDuration_range [OF duration(1)] fits16_clock_plus by simp
  next
    case absolute
    then have "sane_clock now \<Longrightarrow> fits16 (Unix t)"
      using ParseRFC3339_bound [OF absolute(1)] by (intro fits16_less) (simp_all add: sane_clock_def)
    with absolute show ?thesis by blast
  qed
  then show "now < t" and "sane_clock now \<Longrightarrow> fits16 (Unix t)" by blast+
qed

lemma with_defaults_simps [simp]:
  "rURL (with_defaults req) = rURL req" "rMethod (with_defaults req) = rMethod req"
  "\<exists>i. rRetryInterval (with_defaults req) = Some i" "fire_time now (with_defaults req) = fire_time now req"
  by (simp_all add: with_defaults_def fire_time_def split: option.split)

lemma options_None:
  "options_error parse_url req = None \<longleftrightarrow>
     retry_Valid (rRetryMode req) \<and> 0 \<le> sint (rTimeoutMs req) \<and> sint (rTimeoutMs req) \<le> MaxTimeoutMs
     \<and> (rOnFailureURL req = [] \<or> valid_callback parse_url (rOnFailureURL req))
     \<and> (rSchedule req = [] \<or> positive_duration (rSchedule req))"
  by (auto simp: options_error_def)

definition acceptable :: "(string \<Rightarrow> (string \<times> string) option) \<Rightarrow> time \<Rightarrow> taskRequest \<Rightarrow> time \<Rightarrow> bool" where
  "acceptable parse_url now req t \<longleftrightarrow>
     rURL req \<noteq> [] \<and> rMethod req \<in> set validMethods \<and> rRetryInterval req \<noteq> None
     \<and> options_error parse_url req = None \<and> fire_time now req = Inr t"

lemma decode_accepted:
  assumes "decodeTaskRequest parse_url now r = Inr (req, t)"
  shows "hr_body_need r \<le> maxTaskBody" "acceptable parse_url now req t"
  using assms unfolding decodeTaskRequest_def Let_def acceptable_def
  by (auto split: if_split_asm option.split_asm sum.split_asm)

end
