(* ===== verification/Float64.thy ===== *)
theory Float64
  imports GoText
begin

text \<open>
  Go's \<open>float64\<close> as far as \<open>internal/metrics/metrics.go\<close> uses it, and how \<open>fmt\<close> prints it:
  rounding a quotient to the nearest double (ties to even), the shortest decimal digits that
  read back as the same double, and the verb \<open>%g\<close>. A non-negative double is a pair of a
  53-bit mantissa and a binary exponent; the values printed are far from the smallest and the
  largest doubles, so those limits do not occur.
  Proved: an integer below \<open>2^53\<close> is a double as it is.
\<close>

type_synonym double = "nat \<times> int"

fun bitlen :: "nat \<Rightarrow> nat" where
  "bitlen n = (if n = 0 then 0 else Suc (bitlen (n div 2)))"

declare bitlen.simps [simp del]

text \<open>Rounding a quotient to an integer, ties to even.\<close>

definition round_even :: "nat \<Rightarrow> nat \<Rightarrow> nat" where
  "round_even a b =
     (let q = a div b; r = a mod b
      in if 2 * r < b \<or> 2 * r = b \<and> even q then q else Suc q)"

text \<open>\<open>a / 2^k\<close> for a binary exponent of either sign, as numerator and denominator.\<close>

definition scaled :: "nat \<Rightarrow> nat \<Rightarrow> int \<Rightarrow> nat \<times> nat" where
  "scaled a b k = (if 0 \<le> k then (a, b * 2 ^ nat k) else (a * 2 ^ nat (- k), b))"

text \<open>The double nearest to \<open>a / b\<close>.\<close>

definition to_double :: "nat \<Rightarrow> nat \<Rightarrow> double" where
  "to_double a b =
     (if a = 0 then (0, 0)
      else let k = int (bitlen a) - int (bitlen b) - 53;
               k' = (case scaled a b k of (p, q) \<Rightarrow> if 2 ^ 53 \<le> p div q then k + 1 else k);
               m = (case scaled a b k' of (p, q) \<Rightarrow> round_even p q)
        in if m = 2 ^ 53 then (2 ^ 52, k' + 1) else (m, k'))"

text \<open>A double as a fraction.\<close>

definition fraction :: "double \<Rightarrow> nat \<times> nat" where
  "fraction v = (case v of (m, e) \<Rightarrow> scaled m 1 (- e))"

definition double_div :: "double \<Rightarrow> double \<Rightarrow> double" where
  "double_div v w = (case fraction v of (a, b) \<Rightarrow> case fraction w of (c, d) \<Rightarrow> to_double (a * d) (b * c))"

section \<open>Shortest digits\<close>

text \<open>The number of digits before the decimal point: \<open>10^(p - 1) \<le> a / b < 10^p\<close>.\<close>

definition decimal_point :: "nat \<Rightarrow> nat \<Rightarrow> int" where
  "decimal_point a b =
     (let p = int (length (dec_digits (a div b)))
      in if 0 < a div b then p
         else if a = 0 then 0
         else 1 - int (length (takeWhile (\<lambda>j. a * 10 ^ j < b) [0..<400])))"

text \<open>\<open>c * 10^(-s)\<close> as a fraction.\<close>

definition decimal :: "nat \<Rightarrow> int \<Rightarrow> nat \<times> nat" where
  "decimal c s = (if 0 \<le> s then (c, 10 ^ nat s) else (c * 10 ^ nat (- s), 1))"

text \<open>
  The digits of length \<open>nd\<close> that read back as \<open>v\<close>, if any: the neighbours below and above,
  the nearer one if both do.
\<close>

definition digits_of_length :: "double \<Rightarrow> int \<Rightarrow> nat \<Rightarrow> nat option" where
  "digits_of_length v p nd =
     (case fraction v of (a, b) \<Rightarrow>
        let s = int nd - p;
            lo = (case decimal 1 s of (c, d) \<Rightarrow> (a * d) div (b * c));
            reads = (\<lambda>c. case decimal c s of (x, y) \<Rightarrow> to_double x y = v);
            below = (case decimal 1 s of (c, d) \<Rightarrow> 2 * ((a * d) mod (b * c)) \<le> b * c)
        in if reads lo \<and> (below \<or> \<not> reads (Suc lo)) then Some lo
           else if reads (Suc lo) then Some (Suc lo) else None)"

fun first_some :: "('a \<Rightarrow> 'b option) \<Rightarrow> 'a list \<Rightarrow> 'b option" where
  "first_some f [] = None"
| "first_some f (x # xs) = (case f x of None \<Rightarrow> first_some f xs | Some y \<Rightarrow> Some y)"

definition strip_zeros :: "string \<Rightarrow> string" where
  "strip_zeros s = rev (dropWhile (\<lambda>c. c = CHR ''0'') (rev s))"

text \<open>The shortest digits without trailing zeros, and the place of the decimal point.\<close>

definition shortest :: "double \<Rightarrow> string \<times> int" where
  "shortest v =
     (case fraction v of (a, b) \<Rightarrow>
        let p = decimal_point a b
        in case first_some (\<lambda>nd. map_option (Pair nd) (digits_of_length v p nd)) [1..<18] of
             None \<Rightarrow> ([], 0)
           | Some (nd, c) \<Rightarrow>
               let ds = dec_digits c in (strip_zeros ds, p + int (length ds) - int nd))"

text \<open>\<open>%g\<close> with the shortest digits: exponent form below \<open>10^(-4)\<close> and from \<open>10^6\<close> on.\<close>

definition fmt_g :: "double \<Rightarrow> string" where
  "fmt_g v =
     (if fst v = 0 then ''0''
      else case shortest v of (ds, p) \<Rightarrow>
        let x = p - 1
        in if x < -4 \<or> 6 \<le> x then
             [hd ds] @ (if tl ds = [] then [] else ''.'' @ tl ds)
             @ (if x < 0 then ''e-'' else ''e+'')
             @ (if \<bar>x\<bar> < 10 then ''0'' else []) @ dec_digits (nat \<bar>x\<bar>)
           else if p \<le> 0 then ''0.'' @ replicate (nat (- p)) (CHR ''0'') @ ds
           else if length ds \<le> nat p then ds @ replicate (nat p - length ds) (CHR ''0'')
           else take (nat p) ds @ ''.'' @ drop (nat p) ds)"

section \<open>Integers\<close>

lemma bitlen_0 [simp]: "bitlen 0 = 0"
  by (simp add: bitlen.simps [of 0])

lemma bitlen_1 [simp]: "bitlen 1 = 1" "bitlen (Suc 0) = 1"
  by (simp_all add: bitlen.simps [of 1] bitlen.simps [of "Suc 0"])

lemma bitlen_bounds: "0 < n \<Longrightarrow> 2 ^ (bitlen n - 1) \<le> n \<and> n < 2 ^ bitlen n \<and> 0 < bitlen n"
proof (induction n rule: bitlen.induct)
  case (1 n)
  show ?case
  proof (cases "n div 2 = 0")
    case True
    with "1.prems" have "n = 1" by simp
    then show ?thesis by simp
  next
    case False
    then have i: "2 ^ (bitlen (n div 2) - 1) \<le> n div 2" "n div 2 < 2 ^ bitlen (n div 2)" "0 < bitlen (n div 2)"
      using "1.IH" "1.prems" by simp_all
    have b: "bitlen n = Suc (bitlen (n div 2))" using "1.prems" by (simp add: bitlen.simps [of n])
    have "2 ^ bitlen (n div 2) = 2 * (2 ^ (bitlen (n div 2) - 1) :: nat)"
      using i(3) by (simp add: power_eq_if)
    moreover have "2 * (n div 2) \<le> n" "n < 2 * (n div 2) + 2" by linarith+
    moreover have "n div 2 + 1 \<le> 2 ^ bitlen (n div 2)" using i(2) by simp
    ultimately have "2 ^ bitlen (n div 2) \<le> n" "n < 2 * 2 ^ bitlen (n div 2)" using i(1) by linarith+
    then show ?thesis unfolding b by simp
  qed
qed

lemma bitlen_le: "0 < n \<Longrightarrow> n < 2 ^ w \<Longrightarrow> bitlen n \<le> w"
proof (rule ccontr)
  assume "0 < n" "n < 2 ^ w" "\<not> bitlen n \<le> w"
  then have "(2 :: nat) ^ w \<le> 2 ^ (bitlen n - 1)" by (intro power_increasing) auto
  with bitlen_bounds [OF \<open>0 < n\<close>] \<open>n < 2 ^ w\<close> show False by linarith
qed

text \<open>An integer below \<open>2^53\<close> is a double: the conversion does not round.\<close>

lemma to_double_int:
  assumes "n < 2 ^ 53"
  shows "\<exists>d. 0 < d \<and> fraction (to_double n 1) = (n * d, d)"
proof (cases "n = 0")
  case True
  then show ?thesis by (simp add: to_double_def fraction_def scaled_def)
next
  case False
  then have n: "0 < n" by simp
  define L where "L = bitlen n"
  have L: "0 < L" "L \<le> 53" "2 ^ (L - 1) \<le> n" "n < 2 ^ L"
    using bitlen_bounds [OF n] bitlen_le [OF n assms] by (simp_all add: L_def)
  define m where "m = n * 2 ^ (53 - L)"
  have "m < 2 ^ L * 2 ^ (53 - L)" unfolding m_def using L(4) by (intro mult_strict_right_mono) simp_all
  then have m: "m < 2 ^ 53" using L(2) by (simp flip: power_add)
  have big: "2 ^ 53 \<le> n * 2 ^ (54 - L)"
  proof -
    have "(2 :: nat) ^ 53 = 2 ^ (L - 1) * 2 ^ (54 - L)" using L(1,2) by (simp flip: power_add)
    also have "\<dots> \<le> n * 2 ^ (54 - L)" using L(3) by (rule mult_right_mono) simp
    finally show ?thesis .
  qed
  have s1: "scaled n 1 (int L - 1 - 53) = (n * 2 ^ (54 - L), 1)"
  proof -
    have "nat (- (int L - 1 - 53)) = 54 - L" using L(2) by simp
    then show ?thesis using L(2) by (simp add: scaled_def)
  qed
  have s2: "scaled n 1 (int L - 53) = (m, 1)"
  proof -
    have "nat (- (int L - 53)) = 53 - L" using L(2) by simp
    then show ?thesis using L(2) by (cases "L = 53") (simp_all add: scaled_def m_def)
  qed
  have "to_double n 1 = (m, int L - 53)"
    using n m big s1 s2 by (simp add: to_double_def L_def [symmetric] Let_def round_even_def)
  moreover have "nat (53 - int L) = 53 - L" using L(2) by simp
  ultimately have "fraction (to_double n 1) = (n * 2 ^ (53 - L), 2 ^ (53 - L))"
    using L(2) by (simp add: fraction_def scaled_def m_def)
  then show ?thesis by (intro exI [of _ "2 ^ (53 - L)"]) simp
qed

end
