(* ===== verification/Exposition.thy ===== *)
theory Exposition
  imports Float64 Metrics
begin

text \<open>
  The Prometheus text of \<open>internal/metrics/metrics.go\<close>: the writer that remembers its first
  error, header and sample lines, histograms, the format of values, and \<open>Write\<close>. The
  \<open>io.Writer\<close> underneath is an argument, a function from its state and a text to an error,
  if any, and its state after it.
  Proved: integers below \<open>10^15\<close> are printed as they are, nothing is written after an error,
  and what a writer that never fails receives, sample by sample.
\<close>

section \<open>Values\<close>

text \<open>A \<open>float64\<close> with its sign; the code converts 64-bit integers and divides by \<open>time.Second\<close>.\<close>

type_synonym float = "bool \<times> double"

definition float_of_int :: "int \<Rightarrow> float" where
  "float_of_int n = (n < 0, to_double (nat \<bar>n\<bar>) 1)"

definition seconds_of :: "64 word \<Rightarrow> float" where
  "seconds_of ns = (False, double_div (to_double (unat ns) 1) (to_double (nat Second) 1))"

text \<open>A bucket bound, kept in nanoseconds, as the literal of the source.\<close>

definition bound_of :: "duration \<Rightarrow> float" where
  "bound_of b = (False, to_double (nat b) (nat Second))"

definition format :: "float \<Rightarrow> string" where
  "format v =
     (case fraction (snd v) of (a, b) \<Rightarrow>
        if b dvd a \<and> a div b < 10 ^ 15 then dec_int (if fst v then - int (a div b) else int (a div b))
        else (if fst v then ''-'' else []) @ fmt_g (snd v))"

section \<open>The writer\<close>

type_synonym 'w io = "'w \<Rightarrow> string \<Rightarrow> string option \<times> 'w"

record 'w writer =
  wr_w :: 'w
  wr_err :: "string option"

definition newline :: string where "newline = [CHR 0x0A]"

definition printf :: "'w io \<Rightarrow> string \<Rightarrow> 'w writer \<Rightarrow> 'w writer" where
  "printf io s b =
     (if wr_err b \<noteq> None then b
      else case io (wr_w b) s of (e, w) \<Rightarrow> \<lparr>wr_w = w, wr_err = e\<rparr>)"

definition header_text :: "string \<Rightarrow> string \<Rightarrow> string \<Rightarrow> string" where
  "header_text name typ help =
     ''# HELP '' @ name @ '' '' @ help @ newline @ ''# TYPE '' @ name @ '' '' @ typ @ newline"

definition header :: "'w io \<Rightarrow> string \<Rightarrow> string \<Rightarrow> string \<Rightarrow> 'w writer \<Rightarrow> 'w writer" where
  "header io name typ help = printf io (header_text name typ help)"

definition line_text :: "string \<Rightarrow> string \<Rightarrow> float \<Rightarrow> string" where
  "line_text name labels v =
     name @ (if labels = [] then [] else ''{'' @ labels @ ''}'') @ '' '' @ format v @ newline"

definition line :: "'w io \<Rightarrow> string \<Rightarrow> string \<Rightarrow> float \<Rightarrow> 'w writer \<Rightarrow> 'w writer" where
  "line io name labels v = printf io (line_text name labels v)"

definition quoted :: "string \<Rightarrow> string" where
  "quoted s = [CHR 0x22] @ s @ [CHR 0x22]"

fun bucket_lines ::
  "'w io \<Rightarrow> string \<Rightarrow> (duration \<times> 64 word) list \<Rightarrow> 64 word \<Rightarrow> 'w writer \<Rightarrow> 64 word \<times> 'w writer" where
  "bucket_lines io name [] cumulative b = (cumulative, b)"
| "bucket_lines io name ((bound, n) # bs) cumulative b =
     (let c = cumulative + n
      in bucket_lines io name bs c
           (line io (name @ ''_bucket'') (''le='' @ quoted (format (bound_of bound))) (float_of_int (uint c)) b))"

definition write_histogram :: "'w io \<Rightarrow> string \<Rightarrow> string \<Rightarrow> histogram \<Rightarrow> 'w writer \<Rightarrow> 'w writer" where
  "write_histogram io name help h b =
     (case bucket_lines io name (zip (upper h) (buckets h)) 0 (header io name ''histogram'' help b) of
        (cumulative, b1) \<Rightarrow>
          let c = cumulative + buckets h ! length (upper h);
              b2 = line io (name @ ''_bucket'') (''le='' @ quoted ''+Inf'') (float_of_int (uint c)) b1;
              b3 = line io (name @ ''_sum'') [] (seconds_of (sumNs h)) b2
          in line io (name @ ''_count'') [] (float_of_int (uint (hcount h))) b3)"

section \<open>Write\<close>

record snapshot =
  snap_ByStatus :: "string \<rightharpoonup> nat"
  snap_Overdue :: nat

definition Statuses :: "string list" where
  "Statuses = [''pending'', ''running'', ''succeeded'', ''failed'', ''cancelled'']"

definition status_line :: "'w io \<Rightarrow> snapshot \<Rightarrow> string \<Rightarrow> 'w writer \<Rightarrow> 'w writer" where
  "status_line io sn status =
     line io ''schedy_tasks'' (''status='' @ quoted status)
       (float_of_int (case snap_ByStatus sn status of None \<Rightarrow> 0 | Some n \<Rightarrow> int n))"

definition counter :: "64 word \<Rightarrow> float" where
  "counter n = float_of_int (uint n)"

definition Write :: "'w io \<Rightarrow> snapshot \<Rightarrow> metrics \<Rightarrow> 'w \<Rightarrow> string option \<times> 'w" where
  "Write io sn m w =
     (let b0 = \<lparr>wr_w = w, wr_err = None\<rparr>;
          b1 = fold (status_line io sn) Statuses
            (header io ''schedy_tasks'' ''gauge'' ''Tasks currently in each lifecycle status.'' b0);
          b2 = line io ''schedy_tasks_overdue'' [] (float_of_int (int (snap_Overdue sn)))
            (header io ''schedy_tasks_overdue'' ''gauge'' ''Pending tasks whose execute_at has already passed.'' b1);
          b3 = header io ''schedy_deliveries_total'' ''counter''
            ''Delivery requests fired at task targets, by outcome. Retries count individually.'' b2;
          b4 = line io ''schedy_deliveries_total'' (''result='' @ quoted ''success'') (counter (deliveriesOK m)) b3;
          b5 = line io ''schedy_deliveries_total'' (''result='' @ quoted ''failure'') (counter (deliveriesFail m)) b4;
          b6 = header io ''schedy_tasks_finished_total'' ''counter''
            ''Tasks that reached a terminal delivery outcome, counted once each.'' b5;
          b7 = line io ''schedy_tasks_finished_total'' (''status='' @ quoted ''succeeded'') (counter (tasksSucceeded m)) b6;
          b8 = line io ''schedy_tasks_finished_total'' (''status='' @ quoted ''failed'') (counter (tasksFailed m)) b7;
          b9 = header io ''schedy_tasks_skipped_total'' ''counter''
            ''Tasks retired without delivery for exceeding SCHEDY_MAX_STALENESS.'' b8;
          b10 = line io ''schedy_tasks_skipped_total'' (''reason='' @ quoted ''stale'') (counter (tasksSkipped m)) b9;
          b11 = header io ''schedy_tasks_replayed_total'' ''counter''
            ''Finished tasks manually re-armed through the API.'' b10;
          b12 = line io ''schedy_tasks_replayed_total'' [] (counter (tasksReplayed m)) b11;
          b13 = header io ''schedy_deliveries_inflight'' ''gauge''
            ''Deliveries currently executing. Compare against SCHEDY_MAX_CONCURRENT_DELIVERIES to spot saturation.'' b12;
          b14 = line io ''schedy_deliveries_inflight'' [] (float_of_int (sint (inflight_gauge m))) b13;
          b15 = write_histogram io ''schedy_delivery_duration_seconds'' ''Round-trip time of delivery requests.''
            (deliveryDuration m) b14;
          b16 = write_histogram io ''schedy_task_lateness_seconds''
            (''Delay between a task'' @ [CHR 0x27] @ ''s execute_at and the moment it fired.'') (lateness m) b15
      in (wr_err b16, wr_w b16))"

section \<open>Values as printed\<close>

lemma format_int:
  assumes "\<bar>n\<bar> < 10 ^ 15"
  shows "format (float_of_int n) = dec_int n"
proof -
  have b: "nat \<bar>n\<bar> < 10 ^ 15" using assms by (simp add: nat_less_iff)
  then have "nat \<bar>n\<bar> < 2 ^ 53" by simp
  from to_double_int [OF this] obtain d where "0 < d" "fraction (to_double (nat \<bar>n\<bar>) 1) = (nat \<bar>n\<bar> * d, d)" by blast
  then show ?thesis using b by (simp add: format_def float_of_int_def)
qed

section \<open>The page\<close>

text \<open>What \<open>Write\<close> prints, one text per call of \<open>Fprintf\<close>.\<close>

definition histogram_texts :: "string \<Rightarrow> string \<Rightarrow> histogram \<Rightarrow> string list" where
  "histogram_texts name help h =
     header_text name ''histogram'' help #
     map (\<lambda>k. line_text (name @ ''_bucket'') (''le='' @ quoted (format (bound_of (upper h ! k))))
         (float_of_int (uint (sum_list (take (Suc k) (buckets h))))))
       [0..<length (upper h)] @
     [line_text (name @ ''_bucket'') (''le='' @ quoted ''+Inf'') (float_of_int (uint (hcount h))),
      line_text (name @ ''_sum'') [] (seconds_of (sumNs h)),
      line_text (name @ ''_count'') [] (float_of_int (uint (hcount h)))]"

lemma bucket_lines_sums:
  "length us \<le> length xs \<Longrightarrow> bucket_lines io name (zip us xs) c b =
    (c + sum_list (take (length us) xs), fold (printf io) (map (\<lambda>k. line_text (name @ ''_bucket'')
         (''le='' @ quoted (format (bound_of (us ! k)))) (float_of_int (uint (c + sum_list (take (Suc k) xs)))))
       [0..<length us]) b)"
proof (induction us arbitrary: xs c b)
  case (Cons u us)
  then obtain x xs' where xs: "xs = x # xs'" "length us \<le> length xs'" by (cases xs) auto
  have sh: "[0..<length (u # us)] = 0 # map Suc [0..<length us]"
    by (simp add: upt_conv_Cons map_Suc_upt del: upt_Suc)
  show ?case
    unfolding sh using Cons.IH [OF xs(2)] xs by (simp add: Let_def line_def o_def add.assoc)
qed simp

text \<open>The bucket lines are cumulative and end with the number of all observations.\<close>

lemma write_histogram_texts:
  assumes "wf_hist h"
  shows "write_histogram io name help h b = fold (printf io) (histogram_texts name help h) b"
proof -
  have l: "length (buckets h) = Suc (length (upper h))" and c: "sum_list (buckets h) = hcount h"
    using assms by (simp_all add: wf_hist_def)
  then have "length (upper h) \<le> length (buckets h)" by simp
  note e = bucket_lines_sums [OF this]
  have "buckets h = take (length (upper h)) (buckets h) @ [buckets h ! length (upper h)]"
    using l take_Suc_conv_app_nth [of "length (upper h)" "buckets h"] by simp
  then have total: "sum_list (take (length (upper h)) (buckets h)) + buckets h ! length (upper h) = hcount h"
    using c by (metis sum_list_append sum_list_simps(1) sum_list_simps(2) add.right_neutral)
  show ?thesis
    unfolding write_histogram_def e histogram_texts_def header_def line_def
    by (simp add: total Let_def)
qed

text \<open>Everything \<open>Write\<close> prints.\<close>

definition page_texts :: "snapshot \<Rightarrow> metrics \<Rightarrow> string list" where
  "page_texts sn m =
     [header_text ''schedy_tasks'' ''gauge'' ''Tasks currently in each lifecycle status.''] @
     map (\<lambda>s. line_text ''schedy_tasks'' (''status='' @ quoted s)
       (float_of_int (case snap_ByStatus sn s of None \<Rightarrow> 0 | Some n \<Rightarrow> int n))) Statuses @
     [header_text ''schedy_tasks_overdue'' ''gauge'' ''Pending tasks whose execute_at has already passed.'',
      line_text ''schedy_tasks_overdue'' [] (float_of_int (int (snap_Overdue sn))),
      header_text ''schedy_deliveries_total'' ''counter''
        ''Delivery requests fired at task targets, by outcome. Retries count individually.'',
      line_text ''schedy_deliveries_total'' (''result='' @ quoted ''success'') (counter (deliveriesOK m)),
      line_text ''schedy_deliveries_total'' (''result='' @ quoted ''failure'') (counter (deliveriesFail m)),
      header_text ''schedy_tasks_finished_total'' ''counter''
        ''Tasks that reached a terminal delivery outcome, counted once each.'',
      line_text ''schedy_tasks_finished_total'' (''status='' @ quoted ''succeeded'') (counter (tasksSucceeded m)),
      line_text ''schedy_tasks_finished_total'' (''status='' @ quoted ''failed'') (counter (tasksFailed m)),
      header_text ''schedy_tasks_skipped_total'' ''counter''
        ''Tasks retired without delivery for exceeding SCHEDY_MAX_STALENESS.'',
      line_text ''schedy_tasks_skipped_total'' (''reason='' @ quoted ''stale'') (counter (tasksSkipped m)),
      header_text ''schedy_tasks_replayed_total'' ''counter'' ''Finished tasks manually re-armed through the API.'',
      line_text ''schedy_tasks_replayed_total'' [] (counter (tasksReplayed m)),
      header_text ''schedy_deliveries_inflight'' ''gauge''
        ''Deliveries currently executing. Compare against SCHEDY_MAX_CONCURRENT_DELIVERIES to spot saturation.'',
      line_text ''schedy_deliveries_inflight'' [] (float_of_int (sint (inflight_gauge m)))] @
     histogram_texts ''schedy_delivery_duration_seconds'' ''Round-trip time of delivery requests.'' (deliveryDuration m) @
     histogram_texts ''schedy_task_lateness_seconds''
       (''Delay between a task'' @ [CHR 0x27] @ ''s execute_at and the moment it fired.'') (lateness m)"

lemma fold_status_lines:
  "fold (status_line io sn) ss = fold (printf io) (map (\<lambda>s. line_text ''schedy_tasks'' (''status='' @ quoted s)
       (float_of_int (case snap_ByStatus sn s of None \<Rightarrow> 0 | Some n \<Rightarrow> int n))) ss)"
  by (simp add: fold_map o_def status_line_def [abs_def] line_def)

lemma Write_page:
  assumes "wf_metrics m"
  shows "Write io sn m w = (let b = fold (printf io) (page_texts sn m) \<lparr>wr_w = w, wr_err = None\<rparr> in (wr_err b, wr_w b))"
proof -
  have "wf_hist (deliveryDuration m)" "wf_hist (lateness m)" using assms by (simp_all add: wf_metrics_def)
  note h = this [THEN write_histogram_texts]
  show ?thesis
    unfolding Write_def h fold_status_lines page_texts_def Let_def header_def line_def fold_append o_def
    by (simp only: fold_simps append.simps fold_append o_apply)
qed

section \<open>Errors\<close>

text \<open>
  A run of the writer: the texts up to the first one that fails reach the \<open>io.Writer\<close>, in
  order, and nothing after it.
\<close>

fun writes :: "'w io \<Rightarrow> string list \<Rightarrow> 'w \<Rightarrow> string option \<times> 'w" where
  "writes io [] w = (None, w)"
| "writes io (s # ss) w = (case io w s of (None, w') \<Rightarrow> writes io ss w' | (Some e, w') \<Rightarrow> (Some e, w'))"

lemma fold_printf_error: "wr_err b \<noteq> None \<Longrightarrow> fold (printf io) ss b = b"
  by (induction ss) (simp_all add: printf_def)

lemma printf_fresh:
  "printf io s \<lparr>wr_w = w, wr_err = None\<rparr> = (case io w s of (e, w') \<Rightarrow> \<lparr>wr_w = w', wr_err = e\<rparr>)"
  by (simp add: printf_def)

lemma fold_printf:
  "fold (printf io) ss \<lparr>wr_w = w, wr_err = None\<rparr>
    = (case writes io ss w of (e, w') \<Rightarrow> \<lparr>wr_w = w', wr_err = e\<rparr>)"
proof (induction ss arbitrary: w)
  case (Cons s ss)
  show ?case
  proof (cases "io w s")
    case (Pair e w')
    with Cons show ?thesis by (cases e) (simp_all add: printf_fresh fold_printf_error)
  qed
qed simp

lemma Write_writes: "wf_metrics m \<Longrightarrow> Write io sn m w = writes io (page_texts sn m) w"
  by (simp add: Write_page fold_printf split: prod.split)

lemma writes_buffer: "writes (\<lambda>w s. (None, w @ s)) ss w = (None, w @ concat ss)"
  by (induction ss arbitrary: w) simp_all

end
