(* ===== verification/Handler.thy ===== *)
theory Handler
  imports Request Exposition
begin

text \<open>
  The handlers of \<open>internal/api/handler.go\<close> over the \<open>Store\<close> interface. A handler takes the
  request, the store's state and what it reads from the outside (the clock, a new UUID, the
  URL parser), and returns the reply with the state after it. \<open>findDuplicate\<close> pages through
  a listing until the cursor is empty, which nothing in its own text bounds: it is a partial
  function, \<open>None\<close> meaning that it never returns. \<open>createMu\<close> makes the search and the
  \<open>Save\<close> of \<open>CreateTask\<close> one step.
\<close>

definition WithAuth :: "string \<Rightarrow> http_req \<Rightarrow> 'a \<Rightarrow> reply + 'a" where
  "WithAuth apiKey r next =
     (if apiKey = [] then Inr next
      else let key = hr_header r ''X-API-Key''
        in if key = [] then Inl (http_Error ''missing API key'' 401)
           else if key \<noteq> apiKey then Inl (http_Error ''invalid API key'' 403)
           else Inr next)"

definition loadTask :: "'s Store \<Rightarrow> http_req \<Rightarrow> 's \<Rightarrow> reply + task" where
  "loadTask st r s =
     (if hr_path_id r = [] then Inl (http_Error ''missing task id'' 400)
      else case st_GetTask st (hr_path_id r) s of
          Inl e \<Rightarrow> Inl (http_Error ''could not get task'' 500)
        | Inr None \<Rightarrow> Inl (http_Error ''task not found'' 404)
        | Inr (Some t) \<Rightarrow> Inr t)"

section \<open>Duplicates\<close>

definition duplicates :: "string \<Rightarrow> string \<Rightarrow> time \<Rightarrow> task \<Rightarrow> bool" where
  "duplicates key url executeAt t \<longleftrightarrow>
     (if key \<noteq> [] then IdempotencyKey t = key
      else URL t = url \<and> dur_Abs (time_Sub (ExecuteAt t) executeAt) < Second)"

definition duplicate_filter :: "string \<Rightarrow> string \<Rightarrow> list_filter" where
  "duplicate_filter key url =
     \<lparr>FilterStatus = StatusPending, FilterURL = (if key = [] then url else []),
      DueBefore = None, DueAfter = None\<rparr>"

partial_function (option) duplicate_loop ::
  "'s Store \<Rightarrow> 's \<Rightarrow> list_filter \<Rightarrow> (task \<Rightarrow> bool) \<Rightarrow> string \<Rightarrow> (store_error + task option) option"
where
  "duplicate_loop st s f dup cursor =
     (case st_ListTasks st f cursor (int MaxPageSize) s of
        Inl e \<Rightarrow> Some (Inl e)
      | Inr (pending, next) \<Rightarrow>
          (case find dup pending of
             Some t \<Rightarrow> Some (Inr (Some t))
           | None \<Rightarrow> if next = [] then Some (Inr None) else duplicate_loop st s f dup next))"

definition findDuplicate ::
  "'s Store \<Rightarrow> string \<Rightarrow> string \<Rightarrow> time \<Rightarrow> 's \<Rightarrow> (store_error + task option) option" where
  "findDuplicate st key url executeAt s =
     duplicate_loop st s (duplicate_filter key url) (duplicates key url executeAt) []"

section \<open>Writing handlers\<close>

definition new_task :: "string \<Rightarrow> string \<Rightarrow> taskRequest \<Rightarrow> time \<Rightarrow> task" where
  "new_task uuid key req t =
     \<lparr>ID = uuid, IdempotencyKey = key, URL = rURL req, Method = rMethod req, ExecuteAt = t,
      Headers = rHeaders req, Payload = rPayload req, Retries = rRetries req,
      RetryInterval = (case rRetryInterval req of None \<Rightarrow> 0 | Some i \<Rightarrow> i),
      RetryMode = rRetryMode req, TimeoutMs = rTimeoutMs req, OnFailureURL = rOnFailureURL req,
      Schedule = rSchedule req, Status = StatusPending, Attempts = [], FinishedAt = None\<rparr>"

definition CreateTask ::
  "'s Store \<Rightarrow> (string \<Rightarrow> (string \<times> string) option) \<Rightarrow> time \<Rightarrow> string \<Rightarrow> http_req \<Rightarrow> 's
    \<Rightarrow> (reply \<times> 's) option"
where
  "CreateTask st parse_url now uuid r s =
     (case decodeTaskRequest parse_url now r of
        Inl rep \<Rightarrow> Some (rep, s)
      | Inr (req, t) \<Rightarrow>
          let key = hr_header r ''Idempotency-Key''; task = new_task uuid key req t
          in case findDuplicate st key (rURL req) t s of
              None \<Rightarrow> None
            | Some (Inl e) \<Rightarrow> Some (http_Error ''could not save task'' 500, s)
            | Some (Inr (Some existing)) \<Rightarrow> Some (json_reply 200 existing, s)
            | Some (Inr None) \<Rightarrow>
                (case st_Save st task s of
                   (Some e, s') \<Rightarrow> Some (http_Error ''could not save task'' 500, s')
                 | (None, s') \<Rightarrow> Some (json_reply 201 task, s')))"

definition replace_fields :: "taskRequest \<Rightarrow> time \<Rightarrow> task \<Rightarrow> task" where
  "replace_fields req t task =
     task\<lparr>URL := rURL req, Method := rMethod req, Headers := rHeaders req, Payload := rPayload req,
       ExecuteAt := t, Retries := rRetries req,
       RetryInterval := (case rRetryInterval req of None \<Rightarrow> 0 | Some i \<Rightarrow> i),
       RetryMode := rRetryMode req, TimeoutMs := rTimeoutMs req,
       OnFailureURL := rOnFailureURL req, Schedule := rSchedule req\<rparr>"

text \<open>The common end of the handlers that write a task back.\<close>

definition write_back :: "'s Store \<Rightarrow> task \<Rightarrow> string \<Rightarrow> reply \<Rightarrow> 's \<Rightarrow> reply \<times> 's" where
  "write_back st t msg rep s =
     (case st_Update st t s of (Some e, s') \<Rightarrow> (http_Error msg 500, s') | (None, s') \<Rightarrow> (rep, s'))"

definition UpdateTask ::
  "'s Store \<Rightarrow> (string \<Rightarrow> (string \<times> string) option) \<Rightarrow> time \<Rightarrow> http_req \<Rightarrow> 's \<Rightarrow> reply \<times> 's" where
  "UpdateTask st parse_url now r s =
     (case decodeTaskRequest parse_url now r of
        Inl rep \<Rightarrow> (rep, s)
      | Inr (req, execAt) \<Rightarrow>
          (case loadTask st r s of
             Inl rep \<Rightarrow> (rep, s)
           | Inr task \<Rightarrow>
               if Status task \<noteq> StatusPending then
                 (http_Error ''only pending tasks can be updated'' 409, s)
               else let task' = replace_fields req execAt task
                 in write_back st task' ''could not update task'' (json_reply 200 task') s))"

definition rearm :: "time \<Rightarrow> task \<Rightarrow> task" where
  "rearm now t = t\<lparr>Status := StatusPending, ExecuteAt := now, FinishedAt := None\<rparr>"

definition ReplayTask :: "'s Store \<Rightarrow> time \<Rightarrow> http_req \<Rightarrow> 's \<Rightarrow> metrics \<Rightarrow> (reply \<times> 's) \<times> metrics" where
  "ReplayTask st now r s m =
     (case loadTask st r s of
        Inl rep \<Rightarrow> ((rep, s), m)
      | Inr task \<Rightarrow>
          if \<not> IsTerminal (Status task) then
            ((http_Error ''only finished tasks can be replayed'' 409, s), m)
          else (case st_Update st (rearm now task) s of
              (Some e, s') \<Rightarrow> ((http_Error ''could not replay task'' 500, s'), m)
            | (None, s') \<Rightarrow> ((json_reply 200 (rearm now task), s'), ObserveReplay m)))"

definition cancel :: "time \<Rightarrow> task \<Rightarrow> task" where
  "cancel now t = t\<lparr>Status := StatusCancelled, FinishedAt := Some now\<rparr>"

definition no_content :: reply where
  "no_content = \<lparr>rp_status = 204, rp_body = NoBody\<rparr>"

definition DeleteTask :: "'s Store \<Rightarrow> time \<Rightarrow> http_req \<Rightarrow> 's \<Rightarrow> reply \<times> 's" where
  "DeleteTask st now r s =
     (case loadTask st r s of
        Inl rep \<Rightarrow> (rep, s)
      | Inr task \<Rightarrow>
          if IsTerminal (Status task) then (no_content, s)
          else write_back st (cancel now task) ''could not cancel task'' no_content s)"

text \<open>An optional RFC 3339 query parameter.\<close>

definition time_param :: "http_req \<Rightarrow> string \<Rightarrow> time option option" where
  "time_param r name =
     (if hr_query r name = [] then Some None
      else map_option Some (ParseRFC3339 (hr_query r name)))"

definition api_DeleteTasks :: "'s Store \<Rightarrow> http_req \<Rightarrow> 's \<Rightarrow> reply \<times> 's" where
  "api_DeleteTasks st r s =
     (let url = hr_query r ''url''; status = hr_query r ''status''
      in if status \<noteq> [] \<and> \<not> status_Valid status then (http_Error ''invalid status'' 400, s)
         else case time_param r ''before'' of
             None \<Rightarrow> (http_Error ''invalid before timestamp (RFC3339 required)'' 400, s)
           | Some before \<Rightarrow>
               (case time_param r ''after'' of
                  None \<Rightarrow> (http_Error ''invalid after timestamp (RFC3339 required)'' 400, s)
                | Some after \<Rightarrow>
                    if url = [] \<and> status = [] \<and> before = None \<and> after = None then
                      (http_Error ''at least one filter required (url, status, before, or after)'' 400, s)
                    else (case st_DeleteTasks st url status before after s of
                        ((n, Some e), s') \<Rightarrow> (http_Error ''could not delete tasks'' 500, s')
                      | ((n, None), s') \<Rightarrow>
                          (\<lparr>rp_status = 200, rp_body = JsonText (JObj [(''deleted'', JInt (int n))])\<rparr>, s'))))"

section \<open>Reading handlers\<close>

definition api_GetTask :: "'s Store \<Rightarrow> http_req \<Rightarrow> 's \<Rightarrow> reply" where
  "api_GetTask st r s = (case loadTask st r s of Inl rep \<Rightarrow> rep | Inr t \<Rightarrow> json_reply 200 t)"

definition page_json :: "task list \<Rightarrow> string \<Rightarrow> json" where
  "page_json ts next = JObj (obj_fields
     [(''tasks'', Some (JArr (map marshal_task ts))),
      (''next_cursor'', omit_if (next = []) (JStr next)),
      (''has_more'', Some (JBool (next \<noteq> [])))])"

text \<open>\<open>?limit=\<close>: 0 when it is absent, which leaves the page size to the store.\<close>

definition limit_param :: "http_req \<Rightarrow> int option" where
  "limit_param r =
     (if hr_query r ''limit'' = [] then Some 0
      else case parse_int64 (hr_query r ''limit'') of
          None \<Rightarrow> None
        | Some n \<Rightarrow> if n < 1 \<or> int MaxPageSize < n then None else Some n)"

definition api_ListTasks :: "'s Store \<Rightarrow> http_req \<Rightarrow> 's \<Rightarrow> reply" where
  "api_ListTasks st r s =
     (let status = hr_query r ''status''
      in if status \<noteq> [] \<and> \<not> status_Valid status then http_Error ''invalid status'' 400
         else case limit_param r of
             None \<Rightarrow> http_Error (''invalid limit (1-'' @ dec_digits MaxPageSize @ '')'') 400
           | Some limit \<Rightarrow>
               (case time_param r ''due_before'' of
                  None \<Rightarrow> http_Error ''invalid due_before (RFC3339 required)'' 400
                | Some before \<Rightarrow>
                    (case time_param r ''due_after'' of
                       None \<Rightarrow> http_Error ''invalid due_after (RFC3339 required)'' 400
                     | Some after \<Rightarrow>
                         (case st_ListTasks st
                             \<lparr>FilterStatus = status, FilterURL = hr_query r ''url'', DueBefore = before,
                              DueAfter = after\<rparr> (hr_query r ''cursor'') limit s of
                            Inl ErrInvalidCursor \<Rightarrow> http_Error ''invalid cursor'' 400
                          | Inl (ErrStore e) \<Rightarrow> http_Error ''could not list tasks'' 500
                          | Inr (ts, next) \<Rightarrow>
                              \<lparr>rp_status = 200, rp_body =
                                 (if list_all marshal_ok ts then JsonText (page_json ts next) else NoBody)\<rparr>))))"

text \<open>
  \<open>GET /metrics\<close>: the \<open>ResponseWriter\<close> is the argument \<open>io\<close>, over the body sent so far.
  An error while writing is only logged, so what was sent before it is the body.
\<close>

definition api_Metrics :: "'s Store \<Rightarrow> time \<Rightarrow> string io \<Rightarrow> 's \<Rightarrow> metrics \<Rightarrow> reply" where
  "api_Metrics st now io s m =
     (case st_Counts st now s of
        Inl e \<Rightarrow> http_Error ''could not read task counts'' 500
      | Inr c \<Rightarrow>
          let body = snd (Write io \<lparr>snap_ByStatus = ByStatus c, snap_Overdue = Overdue c\<rparr> m [])
          in \<lparr>rp_status = 200, rp_body = PlainText body\<rparr>)"

definition Health :: "string \<Rightarrow> reply" where
  "Health version = \<lparr>rp_status = 200,
     rp_body = JsonText (JObj [(''status'', JStr ''ok''), (''version'', JStr version)])\<rparr>"

definition Ready :: "'s Store \<Rightarrow> 's \<Rightarrow> reply" where
  "Ready st s =
     (case st_ListTasks st \<lparr>FilterStatus = [], FilterURL = [], DueBefore = None, DueAfter = None\<rparr> [] 1 s of
        Inl e \<Rightarrow> \<lparr>rp_status = 503, rp_body = NoBody\<rparr>
      | Inr p \<Rightarrow> \<lparr>rp_status = 200, rp_body = NoBody\<rparr>)"

end
