(* ===== verification/HandlerProps.thy ===== *)
theory HandlerProps
  imports Handler
begin

text \<open>
  The handlers against any store that keeps the contract of \<open>task_store\<close>: the duplicate
  search returns and finds what there is to find, and what each handler writes.
\<close>

lemma listed_duplicate_filter:
  "listed (duplicate_filter key url) t \<and> duplicates key url at t \<longleftrightarrow>
    Status t = StatusPending \<and> duplicates key url at t"
  by (auto simp: listed_def duplicate_filter_def filter_matches_def duplicates_def status_defs)

lemma duplicate_filter_ok: "status_filter_ok (duplicate_filter key url)"
  by (simp add: status_filter_ok_def duplicate_filter_def)

text \<open>The tasks a create request with this key, url and fire time repeats.\<close>

definition repeats :: "string \<Rightarrow> string \<Rightarrow> time \<Rightarrow> task \<Rightarrow> bool" where
  "repeats key url at t \<longleftrightarrow> Status t = StatusPending \<and> duplicates key url at t"

text \<open>The task a request names in its path, as long as the path holds no colon.\<close>

definition addressed :: "http_req \<Rightarrow> task \<Rightarrow> bool" where
  "addressed r t \<longleftrightarrow> colon \<in> set (hr_path_id r) \<or> ID t = hr_path_id r"

text \<open>No two pending tasks share an idempotency key.\<close>

definition unique_keys :: "(string \<Rightarrow> task option) \<Rightarrow> bool" where
  "unique_keys m \<longleftrightarrow> (\<forall>x y t u. m x = Some t \<longrightarrow> m y = Some u
     \<longrightarrow> Status t = StatusPending \<longrightarrow> Status u = StatusPending
     \<longrightarrow> IdempotencyKey t \<noteq> [] \<longrightarrow> IdempotencyKey t = IdempotencyKey u \<longrightarrow> x = y)"

lemma replace_fields_simps [simp]:
  "ID (replace_fields req at t) = ID t" "Status (replace_fields req at t) = Status t"
  "Attempts (replace_fields req at t) = Attempts t"
  "FinishedAt (replace_fields req at t) = FinishedAt t"
  "IdempotencyKey (replace_fields req at t) = IdempotencyKey t"
  "ExecuteAt (replace_fields req at t) = at"
  by (simp_all add: replace_fields_def)

lemma rearm_simps [simp]:
  "ID (rearm now t) = ID t" "Status (rearm now t) = StatusPending" "Attempts (rearm now t) = Attempts t"
  "FinishedAt (rearm now t) = None" "ExecuteAt (rearm now t) = now"
  by (simp_all add: rearm_def)

lemma cancel_simps [simp]:
  "ID (cancel now t) = ID t" "Status (cancel now t) = StatusCancelled"
  "Attempts (cancel now t) = Attempts t" "FinishedAt (cancel now t) = Some now"
  "ExecuteAt (cancel now t) = ExecuteAt t"
  by (simp_all add: cancel_def)

lemma wf_rewrites:
  "wf_task t \<Longrightarrow> Status t = StatusPending \<Longrightarrow> fits16 (Unix at) \<Longrightarrow> wf_task (replace_fields req at t)"
  "wf_task t \<Longrightarrow> fits16 (Unix now) \<Longrightarrow> wf_task (rearm now t)"
  "wf_task t \<Longrightarrow> wf_task (cancel now t)"
  by (simp_all add: wf_task_def)

lemma new_task_simps [simp]:
  "ID (new_task uuid key req at) = uuid" "Status (new_task uuid key req at) = StatusPending"
  "IdempotencyKey (new_task uuid key req at) = key" "ExecuteAt (new_task uuid key req at) = at"
  "URL (new_task uuid key req at) = rURL req" "Attempts (new_task uuid key req at) = []"
  "FinishedAt (new_task uuid key req at) = None"
  "(new_task uuid key req at)\<lparr>Status := StatusPending\<rparr> = new_task uuid key req at"
  by (simp_all add: new_task_def)

lemma unique_keys_new:
  assumes "unique_keys m" and "\<forall>x t. m x = Some t \<longrightarrow> \<not> repeats key url at t"
  shows "unique_keys (m(uuid \<mapsto> new_task uuid key req at'))"
  using assms unfolding unique_keys_def repeats_def duplicates_def by (simp add: fun_upd_def) metis

lemma decode_fits16:
  "decodeTaskRequest parse_url now r = Inr (req, at) \<Longrightarrow> sane_clock now \<Longrightarrow> now < at \<and> fits16 (Unix at)"
  using decode_accepted(2) fire_time_future unfolding acceptable_def by blast

context task_store
begin

lemma duplicate_loop_eq:
  assumes "ok s" and "status_filter_ok f" and "at_cursor s f c k"
  shows "duplicate_loop st s f dup c = Some (Inr (find dup (drop k (listing s f))))"
  using assms(3)
proof (induction "length (listing s f) - k" arbitrary: c k rule: less_induct)
  case less
  let ?L = "listing s f" and ?n = "page_limit (int MaxPageSize)"
  obtain c' where page: "st_ListTasks st f c (int MaxPageSize) s = Inr (take ?n (drop k ?L), c')"
    and next_c: "if length ?L \<le> k + ?n then c' = [] else c' \<noteq> [] \<and> at_cursor s f c' (k + ?n)"
    using list_page [OF assms(1,2) less.prems] by blast
  have split: "find dup (drop k ?L) = (case find dup (take ?n (drop k ?L)) of
      Some t \<Rightarrow> Some t | None \<Rightarrow> find dup (drop (k + ?n) ?L))"
    using find_append [of dup "take ?n (drop k ?L)" "drop ?n (drop k ?L)", unfolded append_take_drop_id]
    by (simp only: drop_drop add.commute [of k ?n])
  have step: "duplicate_loop st s f dup c =
      (case find dup (take ?n (drop k ?L)) of Some t \<Rightarrow> Some (Inr (Some t))
       | None \<Rightarrow> if c' = [] then Some (Inr None) else duplicate_loop st s f dup c')"
    by (subst duplicate_loop.simps) (simp only: page sum.case prod.case)
  show ?case
  proof (cases "find dup (take ?n (drop k ?L))")
    case (Some t)
    show ?thesis by (simp only: step split Some option.case)
  next
    case None
    have rest: "find dup (drop k ?L) = find dup (drop (k + ?n) ?L)" by (simp only: split None option.case)
    show ?thesis
    proof (cases "length ?L \<le> k + ?n")
      case True
      then have "c' = []" "find dup (drop (k + ?n) ?L) = None" using next_c by simp_all
      then show ?thesis by (simp only: step None rest option.case simp_thms if_True)
    next
      case False
      then have c': "c' \<noteq> []" "at_cursor s f c' (k + ?n)" using next_c by simp_all
      have "length ?L - (k + ?n) < length ?L - k" using False page_limit_pos [of "int MaxPageSize"] by simp
      from less.hyps [OF this c'(2)] c'(1) show ?thesis by (simp only: step None rest option.case if_False)
    qed
  qed
qed

definition found :: "'s \<Rightarrow> string \<Rightarrow> string \<Rightarrow> time \<Rightarrow> task option \<Rightarrow> bool" where
  "found s key url at r \<longleftrightarrow>
     (case r of
        None \<Rightarrow> \<forall>x t. tasks s x = Some t \<longrightarrow> \<not> repeats key url at t
      | Some t \<Rightarrow> tasks s (ID t) = Some t \<and> repeats key url at t)"

lemma findDuplicate_spec:
  assumes "ok s"
  obtains r where "findDuplicate st key url at s = Some (Inr r)" and "found s key url at r"
proof
  let ?L = "listing s (duplicate_filter key url)"
  show "findDuplicate st key url at s = Some (Inr (find (duplicates key url at) ?L))"
    using duplicate_loop_eq [OF assms duplicate_filter_ok list_start] by (simp add: findDuplicate_def)
  have "tasks s (ID t) = Some t \<and> repeats key url at t" if "find (duplicates key url at) ?L = Some t" for t
    using find_SomeD [OF that] listing_set [OF assms] listed_duplicate_filter
    unfolding repeats_def by blast
  moreover have "\<not> repeats key url at t"
    if "find (duplicates key url at) ?L = None" "tasks s x = Some t" for x t
    using that listing_set [OF assms] listed_duplicate_filter tasks_wf [OF assms that(2)]
    unfolding repeats_def find_None_iff by metis
  ultimately show "found s key url at (find (duplicates key url at) ?L)"
    unfolding found_def by (cases "find (duplicates key url at) ?L") auto
qed

lemma loadTask_cases:
  assumes "ok s"
  obtains rep where "loadTask st r s = Inl rep"
  | t where "loadTask st r s = Inr t" and "tasks s (ID t) = Some t" and "wf_task t" and "addressed r t"
proof -
  obtain x where x: "st_GetTask st (hr_path_id r) s = Inr x"
    "case x of None \<Rightarrow> True | Some t \<Rightarrow> tasks s (ID t) = Some t"
    using get_task_stored [OF assms] by blast
  show ?thesis
  proof (cases "hr_path_id r = [] \<or> x = None")
    case True
    with x(1) have "\<exists>rep. loadTask st r s = Inl rep" by (auto simp: loadTask_def)
    then show ?thesis using that(1) by blast
  next
    case False
    then obtain t where "x = Some t" by auto
    with x False have "loadTask st r s = Inr t" "tasks s (ID t) = Some t" by (simp_all add: loadTask_def)
    moreover from tasks_wf [OF assms this(2)] have "wf_task t" by blast
    moreover have "addressed r t"
    proof (cases "colon \<in> set (hr_path_id r)")
      case False
      then have "tasks s (hr_path_id r) = Some t" using get_task [OF assms False] x(1) \<open>x = Some t\<close> by simp
      then show ?thesis using tasks_wf [OF assms] unfolding addressed_def by blast
    qed (simp add: addressed_def)
    ultimately show ?thesis by (rule that(2))
  qed
qed

lemma write_back_spec:
  assumes "ok s" and "wf_task t" and "write_back st t msg rep s = (rep', s')"
  shows "ok s' \<and> (rep' = rep \<and> tasks s' = (tasks s)(ID t \<mapsto> t) \<or> rep' = http_Error msg 500 \<and> s' = s)"
proof -
  obtain r s1 where u: "st_Update st t s = (r, s1)" by fastforce
  show ?thesis
  proof (cases r)
    case None
    with u assms(3) update_ok [OF assms(1,2)] show ?thesis by (simp add: write_back_def)
  next
    case (Some e)
    then have "s1 = s" using u update_err by blast
    with Some u assms(1,3) show ?thesis by (simp add: write_back_def)
  qed
qed

section \<open>Create\<close>

lemma create_repeat:
  fixes r now
  assumes "ok s" and "decodeTaskRequest parse_url now r = Inr (req, at)"
    and "tasks s x = Some t" and "repeats (hr_header r ''Idempotency-Key'') (rURL req) at t"
  shows "\<exists>u. CreateTask st parse_url now uuid r s = Some (json_reply 200 u, s)
    \<and> tasks s (ID u) = Some u \<and> repeats (hr_header r ''Idempotency-Key'') (rURL req) at u"
proof -
  obtain o' where f: "findDuplicate st (hr_header r ''Idempotency-Key'') (rURL req) at s = Some (Inr o')"
    and o': "found s (hr_header r ''Idempotency-Key'') (rURL req) at o'"
    by (rule findDuplicate_spec [OF assms(1)])
  have "o' \<noteq> None" using o' assms(3,4) unfolding found_def by (cases o') auto
  then obtain u where u: "o' = Some u" by blast
  have "CreateTask st parse_url now uuid r s = Some (json_reply 200 u, s)"
    by (simp add: CreateTask_def Let_def assms(2) f u)
  with o' u show ?thesis unfolding found_def by auto
qed

lemma create_new:
  assumes "ok s" and d: "decodeTaskRequest parse_url now r = Inr (req, at)"
    and new: "\<forall>x t. tasks s x = Some t \<longrightarrow> \<not> repeats (hr_header r ''Idempotency-Key'') (rURL req) at t"
    and "sane_clock now" and "fresh_id uuid (tasks s)"
  defines "t \<equiv> new_task uuid (hr_header r ''Idempotency-Key'') req at"
  shows "\<exists>rep s'. CreateTask st parse_url now uuid r s = Some (rep, s') \<and> ok s'
    \<and> (rep = json_reply 201 t \<and> tasks s' = (tasks s)(uuid \<mapsto> t)
       \<or> rep = http_Error ''could not save task'' 500 \<and> s' = s)"
proof -
  obtain o' where f: "findDuplicate st (hr_header r ''Idempotency-Key'') (rURL req) at s = Some (Inr o')"
    and found: "found s (hr_header r ''Idempotency-Key'') (rURL req) at o'"
    by (rule findDuplicate_spec [OF assms(1)])
  have o': "o' = None" using found new unfolding found_def by (cases o') auto
  have "wf_task t"
    using decode_fits16 [OF d assms(4)] assms(5) by (simp add: t_def wf_task_def fresh_id_def)
  then have wf: "wf_task (t\<lparr>Status := StatusPending\<rparr>)" "tasks s (ID t) = None"
    using assms(5) by (simp_all add: t_def fresh_id_def)
  obtain e s' where sv: "st_Save st t s = (e, s')" by fastforce
  show ?thesis
  proof (cases e)
    case None
    with sv save_ok [OF assms(1) wf] have "ok s'" "tasks s' = (tasks s)(uuid \<mapsto> t)"
      by (simp_all add: t_def)
    with None f o' sv d show ?thesis by (simp add: CreateTask_def Let_def t_def)
  next
    case (Some x)
    with sv save_err have "s' = s" by simp
    with Some f o' sv d assms(1) show ?thesis by (simp add: CreateTask_def Let_def t_def)
  qed
qed

text \<open>Every create request is answered, and adds at most the task it asked for.\<close>

lemma create_effect:
  assumes "ok s" and "sane_clock now" and "fresh_id uuid (tasks s)"
  obtains rep s' where "CreateTask st parse_url now uuid r s = Some (rep, s')" and "ok s'"
    and "tasks s' = tasks s \<or> (\<exists>req at. decodeTaskRequest parse_url now r = Inr (req, at)
      \<and> (\<forall>x t. tasks s x = Some t \<longrightarrow> \<not> repeats (hr_header r ''Idempotency-Key'') (rURL req) at t)
      \<and> tasks s' = (tasks s)(uuid \<mapsto> new_task uuid (hr_header r ''Idempotency-Key'') req at))"
proof (cases "decodeTaskRequest parse_url now r")
  case (Inl rep)
  then show ?thesis using assms(1) by (intro that [of rep s]) (simp_all add: CreateTask_def)
next
  case (Inr p)
  then obtain req at where d: "decodeTaskRequest parse_url now r = Inr (req, at)" by (cases p) auto
  let ?rep = "repeats (hr_header r ''Idempotency-Key'') (rURL req) at"
  show ?thesis
  proof (cases "\<exists>x t. tasks s x = Some t \<and> ?rep t")
    case True
    then obtain x t where t: "tasks s x = Some t" "?rep t" by blast
    obtain u where "CreateTask st parse_url now uuid r s = Some (json_reply 200 u, s)"
      using create_repeat [OF assms(1) d t] by blast
    then show ?thesis using assms(1) that [of "json_reply 200 u" s] by blast
  next
    case False
    then have new: "\<forall>x t. tasks s x = Some t \<longrightarrow> \<not> ?rep t" by blast
    obtain rep s' where "CreateTask st parse_url now uuid r s = Some (rep, s')" "ok s'"
      "tasks s' = (tasks s)(uuid \<mapsto> new_task uuid (hr_header r ''Idempotency-Key'') req at) \<or> s' = s"
      using create_new [OF assms(1) d new assms(2,3)] by blast
    then show ?thesis using d new by (intro that) blast+
  qed
qed

section \<open>Update, replay, cancel, delete\<close>

text \<open>
  The handlers that write one task back: the state is unchanged, or one stored task for
  which \<open>P\<close> holds is replaced by its image under \<open>f\<close> and the reply is the one for it.
\<close>

definition rewrites_one ::
  "(task \<Rightarrow> bool) \<Rightarrow> (task \<Rightarrow> task) \<Rightarrow> (task \<Rightarrow> reply) \<Rightarrow> 's \<Rightarrow> reply \<Rightarrow> 's \<Rightarrow> bool" where
  "rewrites_one P f rep_of s rep s' \<longleftrightarrow>
     s' = s \<or> (\<exists>t. tasks s (ID t) = Some t \<and> P t \<and> tasks s' = (tasks s)(ID t \<mapsto> f t) \<and> rep = rep_of t)"

lemma write_back_rewrites:
  assumes "ok s" and t: "tasks s (ID t) = Some t" "P t" and f: "wf_task (f t)" "ID (f t) = ID t"
    and "write_back st (f t) msg (rep_of t) s = (rep, s')"
  shows "ok s' \<and> rewrites_one P f rep_of s rep s'"
  using write_back_spec [OF assms(1) f(1) assms(6)] t f(2) assms(1) unfolding rewrites_one_def by metis

lemma update_effect:
  assumes "ok s" and "sane_clock now" and u: "UpdateTask st parse_url now r s = (rep, s')"
  shows "ok s' \<and> (s' = s \<or> (\<exists>req at. decodeTaskRequest parse_url now r = Inr (req, at)
    \<and> rewrites_one (\<lambda>t. addressed r t \<and> Status t = StatusPending) (replace_fields req at)
        (\<lambda>t. json_reply 200 (replace_fields req at t)) s rep s'))"
proof (cases "decodeTaskRequest parse_url now r")
  case (Inl rep')
  with u assms(1) show ?thesis by (simp add: UpdateTask_def)
next
  case (Inr p)
  then obtain req at where d: "decodeTaskRequest parse_url now r = Inr (req, at)" by (cases p) auto
  from assms(1) show ?thesis
  proof (cases rule: loadTask_cases [of s r])
    case (1 rep')
    with u d assms(1) show ?thesis by (simp add: UpdateTask_def)
  next
    case (2 t)
    show ?thesis
    proof (cases "Status t = StatusPending")
      case False
      with 2 u d assms(1) show ?thesis by (simp add: UpdateTask_def)
    next
      case True
      with 2 u d have w: "write_back st (replace_fields req at t) ''could not update task''
          (json_reply 200 (replace_fields req at t)) s = (rep, s')"
        by (simp add: UpdateTask_def Let_def)
      have "wf_task (replace_fields req at t)"
        using wf_rewrites(1) [OF 2(3) True] decode_fits16 [OF d assms(2)] by blast
      from write_back_rewrites [OF assms(1) 2(2), where P = "\<lambda>t. addressed r t \<and> Status t = StatusPending"
          and f = "replace_fields req at" and rep_of = "\<lambda>t. json_reply 200 (replace_fields req at t)",
          OF conjI [OF 2(4) True] this _ w] d
      show ?thesis by simp
    qed
  qed
qed

lemma replay_effect:
  assumes "ok s" and "sane_clock now" and u: "ReplayTask st now r s m = ((rep, s'), m')"
  shows "ok s' \<and> rewrites_one (\<lambda>t. addressed r t \<and> IsTerminal (Status t)) (rearm now) (\<lambda>t. json_reply 200 (rearm now t)) s rep s'"
  using assms(1)
proof (cases rule: loadTask_cases [of s r])
  case (1 rep')
  with u assms(1) show ?thesis by (simp add: ReplayTask_def rewrites_one_def)
next
  case (2 t)
  show ?thesis
  proof (cases "IsTerminal (Status t)")
    case False
    with 2 u assms(1) show ?thesis by (simp add: ReplayTask_def rewrites_one_def)
  next
    case True
    obtain e s1 where e: "st_Update st (rearm now t) s = (e, s1)" by fastforce
    with 2 u True have w: "write_back st (rearm now t) ''could not replay task'' (json_reply 200 (rearm now t)) s
        = (rep, s')"
      by (auto simp: ReplayTask_def write_back_def split: option.splits)
    have "wf_task (rearm now t)" by (rule wf_rewrites(2) [OF 2(3) fits16_clock [OF assms(2)]])
    from write_back_rewrites [OF assms(1) 2(2), where P = "\<lambda>t. addressed r t \<and> IsTerminal (Status t)"
        and f = "rearm now" and rep_of = "\<lambda>t. json_reply 200 (rearm now t)", OF conjI [OF 2(4) True] this _ w]
    show ?thesis by simp
  qed
qed

lemma cancel_effect:
  assumes "ok s" and u: "DeleteTask st now r s = (rep, s')"
  shows "ok s' \<and> rewrites_one (\<lambda>t. addressed r t \<and> \<not> IsTerminal (Status t)) (cancel now) (\<lambda>t. no_content) s rep s'"
  using assms(1)
proof (cases rule: loadTask_cases [of s r])
  case (1 rep')
  with u assms(1) show ?thesis by (simp add: DeleteTask_def rewrites_one_def)
next
  case (2 t)
  show ?thesis
  proof (cases "IsTerminal (Status t)")
    case True
    with 2 u assms(1) show ?thesis by (simp add: DeleteTask_def rewrites_one_def)
  next
    case False
    with 2 u have w: "write_back st (cancel now t) ''could not cancel task'' no_content s = (rep, s')"
      by (simp add: DeleteTask_def)
    from write_back_rewrites [OF assms(1) 2(2), where P = "\<lambda>t. addressed r t \<and> \<not> IsTerminal (Status t)"
        and f = "cancel now" and rep_of = "\<lambda>t. no_content", OF conjI [OF 2(4) False] wf_rewrites(3) [OF 2(3)] _ w]
    show ?thesis by simp
  qed
qed

lemma delete_many_effect:
  assumes "ok s" and u: "api_DeleteTasks st r s = (rep, s')"
  shows "ok s' \<and> (s' = s \<or> (\<exists>before after.
    (hr_query r ''url'' \<noteq> [] \<or> hr_query r ''status'' \<noteq> [] \<or> before \<noteq> None \<or> after \<noteq> None)
    \<and> time_param r ''before'' = Some before \<and> time_param r ''after'' = Some after
    \<and> tasks s' = (\<lambda>x. case tasks s x of None \<Rightarrow> None
        | Some t \<Rightarrow> if delete_matches (hr_query r ''url'') (hr_query r ''status'') before after t then None else Some t)))"
proof (cases "s' = s")
  case True
  with assms(1) show ?thesis by simp
next
  case False
  with u obtain before after n e where p: "time_param r ''before'' = Some before" "time_param r ''after'' = Some after"
    and f: "hr_query r ''url'' \<noteq> [] \<or> hr_query r ''status'' \<noteq> [] \<or> before \<noteq> None \<or> after \<noteq> None"
    and d: "st_DeleteTasks st (hr_query r ''url'') (hr_query r ''status'') before after s = ((n, e), s')"
    unfolding api_DeleteTasks_def Let_def
    by (auto split: if_split_asm option.split_asm prod.split_asm)
  have e: "e = None"
  proof (rule ccontr)
    assume "e \<noteq> None"
    then obtain x where "e = Some x" by blast
    with d have "s' = s" by (intro delete_tasks_err) simp
    with False show False ..
  qed
  note k = delete_tasks_ok [OF assms(1) d [unfolded e]]
  show ?thesis
    by (rule conjI, rule conjunct1 [OF k], rule disjI2, rule exI [of _ before], rule exI [of _ after],
        intro conjI f p conjunct2 [OF k])
qed

end

end
