(* ===== verification/System.thy ===== *)
theory System
  imports RunnerProps HandlerProps
begin

text \<open>
  The running process: the delivery loop of \<open>Runner.Start\<close>, the goroutine that \<open>runOnce\<close>
  starts for each claimed task, the HTTP handlers next to them, shutdown, crash and restart,
  as one step relation. A step is the code between two points where another goroutine can
  observe or change shared state: at most one call of the store, one reception from a timer
  or the semaphore, or one delivery. Every interleaving of the goroutines is a sequence of
  steps.

  What the program cannot decide is left open: how the clock moves (forward only), what the
  executor answers, which random numbers are drawn, which UUID comes next (one not in use),
  when the process is stopped or dies. Failing writes are decided by the store.
\<close>

section \<open>State\<close>

text \<open>Where a delivery goroutine stands, with the variables it needs from there on.\<close>

datatype phase =
    Claimed
  | Waiting time
  | Queued
  | Slotted
  | Stamped time
  | Skipping task duration time
  | Marking task time
  | Trying task attempt go_int time
  | Sending task attempt go_int time
  | Retrying task attempt go_int time time
  | Finishing task time
  | Notifying task time
  | Requeueing task time
  | Leaving

record job =
  j_task :: task
  j_phase :: phase

text \<open>
  \<open>sy_due\<close> is what is left of the range loop of \<open>runOnce\<close>, \<open>sy_loop\<close> says that \<open>Start\<close> has
  not left its loop, \<open>sy_stop\<close> that the context is cancelled. \<open>sy_creating\<close> is the task of
  the create request that holds \<open>createMu\<close>, \<open>sy_writes\<close> the tasks that other requests have
  loaded, changed and not yet written back.

  The last four fields are a record of what happened, which no code reads: the deliveries
  (when, fire time of the run, task handed to \<open>Execute\<close>), the failure callbacks, the ids
  that something else than their own run interfered with, and the ids whose final write failed.
\<close>

record 's sys =
  sy_now :: time
  sy_db :: 's
  sy_due :: "task list"
  sy_jobs :: "job list"
  sy_inflight :: "string set"
  sy_slots :: nat
  sy_loop :: bool
  sy_stop :: bool
  sy_metrics :: metrics
  sy_creating :: "task option"
  sy_writes :: "task list"
  sy_log :: "(time \<times> time \<times> task) list"
  sy_calls :: "task list"
  sy_disturbed :: "string set"
  sy_lost :: "string set"

text \<open>
  What a process is started with: its store, the runner's configuration, the number of
  delivery slots, the tick interval, the URL parser of the request decoder, and what the
  database may do to the data on its own (dropping expired entries).
\<close>

record 's world =
  w_store :: "'s Store"
  w_cfg :: runner_cfg
  w_slots :: nat
  w_interval :: duration
  w_parse_url :: "string \<Rightarrow> (string \<times> string) option"
  w_expire :: "'s \<Rightarrow> 's \<Rightarrow> bool"

section \<open>Shared state\<close>

definition set_db :: "'s \<Rightarrow> 's sys \<Rightarrow> 's sys" where
  "set_db db s = s\<lparr>sy_db := db\<rparr>"

definition observe_with :: "(metrics \<Rightarrow> metrics) \<Rightarrow> 's sys \<Rightarrow> 's sys" where
  "observe_with f s = s\<lparr>sy_metrics := f (sy_metrics s)\<rparr>"

text \<open>\<open>store.Update\<close> by a goroutine for its own task: the error is logged and dropped.\<close>

definition update_own :: "'s Store \<Rightarrow> bool \<Rightarrow> task \<Rightarrow> 's sys \<Rightarrow> 's sys" where
  "update_own st final t s =
     (case st_Update st t (sy_db s) of
        (None, db) \<Rightarrow> set_db db s
      | (Some e, db) \<Rightarrow> (set_db db s)
          \<lparr>sy_disturbed := insert (ID t) (sy_disturbed s),
           sy_lost := (if final then insert (ID t) (sy_lost s) else sy_lost s)\<rparr>)"

definition let_go :: "string \<Rightarrow> 's sys \<Rightarrow> 's sys" where
  "let_go tid s = s\<lparr>sy_inflight := release tid (sy_inflight s)\<rparr>"

definition take_slot :: "'s sys \<Rightarrow> 's sys" where
  "take_slot s = observe_with (InflightAdd 1) (s\<lparr>sy_slots := Suc (sy_slots s)\<rparr>)"

definition free_slot :: "'s sys \<Rightarrow> 's sys" where
  "free_slot s = observe_with (InflightAdd (- 1)) (s\<lparr>sy_slots := sy_slots s - 1\<rparr>)"

text \<open>The ids that occur anywhere; \<open>uuid.NewString\<close> returns one that does not.\<close>

definition known_ids :: "'s sys \<Rightarrow> string set" where
  "known_ids s = ID ` (set (sy_due s) \<union> j_task ` set (sy_jobs s) \<union> set (sy_writes s)
     \<union> set_option (sy_creating s) \<union> (snd \<circ> snd) ` set (sy_log s))"

definition unused :: "'s Store \<Rightarrow> string \<Rightarrow> 's sys \<Rightarrow> bool" where
  "unused st uuid s \<longleftrightarrow> uuid \<noteq> [] \<and> colon \<notin> set uuid \<and> st_GetTask st uuid (sy_db s) = Inr None
     \<and> uuid \<notin> known_ids s"

section \<open>A delivery goroutine\<close>

text \<open>How long the timer of a task runs: \<open>time.Until\<close>, but never below zero.\<close>

definition timer_for :: "time \<Rightarrow> task \<Rightarrow> duration" where
  "timer_for now t = max (time_Sub (ExecuteAt t) now) 0"

text \<open>The record that one pass of the delivery loop makes, and the hint it keeps for the next.\<close>

definition tried :: "time \<Rightarrow> Result \<Rightarrow> go_int \<Rightarrow> task \<Rightarrow> task" where
  "tried now res n t = t\<lparr>Attempts := Attempts t @ [attempt_of (n + 1) now res]\<rparr>"

definition hinted :: "Result \<Rightarrow> attempt \<Rightarrow> attempt" where
  "hinted res a = (if 0 < ResRetryAfter res then serverHint (ResRetryAfter res) a else a)"

definition sent :: "time \<Rightarrow> task \<Rightarrow> 's sys \<Rightarrow> 's sys" where
  "sent ft t s = s\<lparr>sy_log := sy_log s @ [(sy_now s, ft, t)]\<rparr>"

definition observe_try :: "Result \<Rightarrow> 's sys \<Rightarrow> 's sys" where
  "observe_try res = observe_with (ObserveDelivery (ResDuration res) (ResErr res = None))"

text \<open>\<open>gstep W t s p s' p'\<close>: the goroutine for the claimed task \<open>t\<close> moves on, or returns (\<open>None\<close>).\<close>

inductive gstep :: "'s world \<Rightarrow> task \<Rightarrow> 's sys \<Rightarrow> phase \<Rightarrow> 's sys \<Rightarrow> phase option \<Rightarrow> bool" for W t s where
  arm: "gstep W t s Claimed s (Some (Waiting (sy_now s + timer_for (sy_now s) t)))"
| fire: "d \<le> sy_now s \<Longrightarrow> gstep W t s (Waiting d) s (Some Queued)"
| stop_waiting: "sy_stop s \<Longrightarrow> gstep W t s (Waiting d) (let_go (ID t) s) None"
| slot: "sy_slots s < w_slots W \<Longrightarrow> gstep W t s Queued (take_slot s) (Some Slotted)"
| stop_queued: "sy_stop s \<Longrightarrow> gstep W t s Queued (let_go (ID t) s) None"
| stamp: "gstep W t s Slotted s (Some (Stamped (sy_now s)))"
| drop_claim: "recheck (w_store W) (w_cfg W) t ft (sy_db s) = Drop \<Longrightarrow>
    gstep W t s (Stamped ft) s (Some Leaving)"
| too_late: "recheck (w_store W) (w_cfg W) t ft (sy_db s) = Skip cur late \<Longrightarrow>
    gstep W t s (Stamped ft) s (Some (Skipping cur late ft))"
| on_time: "recheck (w_store W) (w_cfg W) t ft (sy_db s) = Fire cur late \<Longrightarrow>
    gstep W t s (Stamped ft) (observe_with (ObserveLateness late) s) (Some (Marking cur ft))"
| skip: "u = retire_stale (w_cfg W) cur late ft \<Longrightarrow>
    gstep W t s (Skipping cur late ft)
      (update_own (w_store W) True u (observe_with (ObserveTaskFinished False \<circ> ObserveSkipped) s))
      (Some (Notifying u ft))"
| mark: "gstep W t s (Marking cur ft) (update_own (w_store W) False (mark_running cur) s)
    (Some (Trying (mark_running cur) (newAttempt (Retries cur) (RetryInterval cur) (RetryMode cur))
      (of_nat (length (Attempts cur))) ft))"
| send: "gstep W t s (Trying u a n ft) (sent ft u s) (Some (Sending u a n ft))"
| try_ok: "ResErr res = None \<Longrightarrow>
    gstep W t s (Sending u a n ft) (observe_try res s)
      (Some (Finishing ((tried (sy_now s) res n u)\<lparr>Status := StatusSucceeded\<rparr>) ft))"
| try_failed: "ResErr res \<noteq> None \<Longrightarrow>
    gstep W t s (Sending u a n ft) (observe_try res s)
      (Some (Retrying (tried (sy_now s) res n u) (hinted res a) (n + 1) ft (sy_now s)))"
| retry: "next_try rnd began (sy_now s) a = Some (a', slept) \<Longrightarrow>
    (case slept of None \<Rightarrow> True | Some d \<Rightarrow> began + d \<le> sy_now s) \<Longrightarrow>
    gstep W t s (Retrying u a n ft began) s (Some (Trying u a' n ft))"
| give_up: "next_try rnd began (sy_now s) a = None \<Longrightarrow>
    gstep W t s (Retrying u a n ft began) s (Some (Finishing (u\<lparr>Status := StatusFailed\<rparr>) ft))"
| finalize: "u' = finish (sy_now s) u \<Longrightarrow>
    gstep W t s (Finishing u ft)
      (update_own (w_store W) True u' (observe_with (ObserveTaskFinished (Status u = StatusSucceeded)) s))
      (Some (if Status u' = StatusFailed then Notifying u' ft else Requeueing u' ft))"
| notify: "gstep W t s (Notifying u ft)
    (s\<lparr>sy_calls := sy_calls s @ (case notifyFailure (w_cfg W) u of None \<Rightarrow> [] | Some c \<Rightarrow> [c])\<rparr>)
    (Some (Requeueing u ft))"
| requeue_next: "unused (w_store W) uuid s \<Longrightarrow>
    gstep W t s (Requeueing u ft) (set_db (reschedule (w_store W) u ft uuid (sy_db s)) s) (Some Leaving)"
| leave: "gstep W t s Leaving (let_go (ID t) (free_slot s)) None"

section \<open>The process\<close>

text \<open>A task that a request has loaded, and what the request makes of it.\<close>

inductive edits :: "'s world \<Rightarrow> time \<Rightarrow> task \<Rightarrow> task \<Rightarrow> bool" for W now where
  by_update: "decodeTaskRequest (w_parse_url W) asked r = Inr (req, at) \<Longrightarrow> sane_clock asked \<Longrightarrow>
    Status t = StatusPending \<Longrightarrow> edits W now t (replace_fields req at t)"
| by_replay: "IsTerminal (Status t) \<Longrightarrow> edits W now t (rearm now t)"
| by_cancel: "\<not> IsTerminal (Status t) \<Longrightarrow> edits W now t (cancel now t)"

definition with_jobs :: "job list \<Rightarrow> 's sys \<Rightarrow> 's sys" where
  "with_jobs js s = s\<lparr>sy_jobs := js\<rparr>"

definition resume :: "task \<Rightarrow> phase option \<Rightarrow> job list" where
  "resume t p = (case p of None \<Rightarrow> [] | Some q \<Rightarrow> [\<lparr>j_task = t, j_phase = q\<rparr>])"

text \<open>
  A new process on the data a previous one left: whatever was in memory is gone, and
  \<open>RecoverRunning\<close> runs before anything else (its error is only logged). The record of what
  happened goes on.
\<close>

definition boot :: "'s Store \<Rightarrow> 's sys \<Rightarrow> 's sys" where
  "boot st s =
     (case st_RecoverRunning st (sy_db s) of (err, db) \<Rightarrow>
        s\<lparr>sy_db := db, sy_due := [], sy_jobs := [], sy_inflight := {}, sy_slots := 0, sy_loop := True,
          sy_stop := False, sy_metrics := init_metrics, sy_creating := None, sy_writes := [],
          sy_lost := (if err = None then {} else UNIV)\<rparr>)"

definition started :: "time \<Rightarrow> 's \<Rightarrow> 's sys" where
  "started now db =
     \<lparr>sy_now = now, sy_db = db, sy_due = [], sy_jobs = [], sy_inflight = {}, sy_slots = 0,
      sy_loop = True, sy_stop = False, sy_metrics = init_metrics, sy_creating = None, sy_writes = [],
      sy_log = [], sy_calls = [], sy_disturbed = {}, sy_lost = {}\<rparr>"

text \<open>The loop of \<open>Start\<close>: a tick, and the claims of its tasks one by one.\<close>

inductive loop_step :: "'s world \<Rightarrow> 's sys \<Rightarrow> 's sys \<Rightarrow> bool" for W where
  tick: "sy_loop s \<Longrightarrow> sy_due s = [] \<Longrightarrow> sane_clock start \<Longrightarrow> start \<le> sy_now s \<Longrightarrow>
    st_GetDueTasks (w_store W) start (start + w_interval W) (int MaxDueBatch) (sy_db s) = (ts, None) \<Longrightarrow>
    loop_step W s (s\<lparr>sy_due := ts\<rparr>)"
| claim_next: "sy_due s = t # ts \<Longrightarrow> claim (ID t) (sy_inflight s) = (True, held) \<Longrightarrow>
    loop_step W s (s\<lparr>sy_due := ts, sy_inflight := held, sy_jobs := sy_jobs s @ [\<lparr>j_task = t, j_phase = Claimed\<rparr>]\<rparr>)"
| claim_held: "sy_due s = t # ts \<Longrightarrow> claim (ID t) (sy_inflight s) = (False, held) \<Longrightarrow>
    loop_step W s (s\<lparr>sy_due := ts\<rparr>)"

text \<open>The handlers, one point of contact with the store or the counters at a time.\<close>

inductive request_step :: "'s world \<Rightarrow> 's sys \<Rightarrow> 's sys \<Rightarrow> bool" for W where
  create_begin: "sy_creating s = None \<Longrightarrow> unused (w_store W) uuid s \<Longrightarrow> asked \<le> sy_now s \<Longrightarrow> sane_clock asked \<Longrightarrow>
    decodeTaskRequest (w_parse_url W) asked r = Inr (req, at) \<Longrightarrow>
    request_step W s (s\<lparr>sy_creating := Some (new_task uuid key req at)\<rparr>)"
| create_duplicate: "request_step W s (s\<lparr>sy_creating := None\<rparr>)"
| create_save: "sy_creating s = Some t \<Longrightarrow>
    request_step W s (s\<lparr>sy_db := snd (st_Save (w_store W) t (sy_db s)), sy_creating := None\<rparr>)"
| api_load: "loadTask (w_store W) r (sy_db s) = Inr t \<Longrightarrow> edits W (sy_now s) t u \<Longrightarrow>
    request_step W s (s\<lparr>sy_writes := u # sy_writes s\<rparr>)"
| api_write: "sy_writes s = us @ u # us' \<Longrightarrow>
    request_step W s (s\<lparr>sy_db := snd (st_Update (w_store W) u (sy_db s)), sy_writes := us @ us',
      sy_disturbed := insert (ID u) (sy_disturbed s)\<rparr>)"
| count_replay: "request_step W s (observe_with ObserveReplay s)"
| api_delete: "request_step W s (s\<lparr>sy_db := snd (st_DeleteTasks (w_store W) url status before after (sy_db s))\<rparr>)"

text \<open>Everything that can happen, to this process or to the next one on its data.\<close>

inductive sstep :: "'s world \<Rightarrow> 's sys \<Rightarrow> 's sys \<Rightarrow> bool" for W where
  goroutine: "sy_jobs s = js @ \<lparr>j_task = t, j_phase = p\<rparr> # js' \<Longrightarrow> gstep W t s p s' p' \<Longrightarrow>
    sstep W s (with_jobs (js @ resume t p' @ js') s')"
| clock: "sy_now s \<le> now \<Longrightarrow> sane_clock now \<Longrightarrow> sstep W s (s\<lparr>sy_now := now\<rparr>)"
| looping: "loop_step W s s' \<Longrightarrow> sstep W s s'"
| cancel_context: "sstep W s (s\<lparr>sy_stop := True\<rparr>)"
| leave_loop: "sy_stop s \<Longrightarrow> sy_due s = [] \<Longrightarrow> sstep W s (s\<lparr>sy_loop := False\<rparr>)"
| serving: "request_step W s s' \<Longrightarrow> sstep W s s'"
| expire: "w_expire W (sy_db s) db \<Longrightarrow> sstep W s (s\<lparr>sy_db := db\<rparr>)"
| restart: "sstep W s (boot (w_store W) (s\<lparr>sy_disturbed := UNIV\<rparr>))"

text \<open>All of it in one case distinction.\<close>

lemma sstep_induct [consumes 1, case_names goroutine clock tick claim_next claim_held cancel_context leave_loop create_begin create_duplicate create_save api_load api_write count_replay api_delete expire restart]:
  assumes "sstep W s s'"
    and "\<And>s js t p js' s' p'. sy_jobs s = js @ \<lparr>j_task = t, j_phase = p\<rparr> # js' \<Longrightarrow> gstep W t s p s' p' \<Longrightarrow>
    P s (with_jobs (js @ resume t p' @ js') s')"
    and "\<And>s now. sy_now s \<le> now \<Longrightarrow> sane_clock now \<Longrightarrow> P s (s\<lparr>sy_now := now\<rparr>)"
    and "\<And>s start ts. sy_loop s \<Longrightarrow> sy_due s = [] \<Longrightarrow> sane_clock start \<Longrightarrow> start \<le> sy_now s \<Longrightarrow>
    st_GetDueTasks (w_store W) start (start + w_interval W) (int MaxDueBatch) (sy_db s) = (ts, None) \<Longrightarrow>
    P s (s\<lparr>sy_due := ts\<rparr>)"
    and "\<And>s t ts held. sy_due s = t # ts \<Longrightarrow> claim (ID t) (sy_inflight s) = (True, held) \<Longrightarrow>
    P s (s\<lparr>sy_due := ts, sy_inflight := held, sy_jobs := sy_jobs s @ [\<lparr>j_task = t, j_phase = Claimed\<rparr>]\<rparr>)"
    and "\<And>s t ts held. sy_due s = t # ts \<Longrightarrow> claim (ID t) (sy_inflight s) = (False, held) \<Longrightarrow>
    P s (s\<lparr>sy_due := ts\<rparr>)"
    and "\<And>s. P s (s\<lparr>sy_stop := True\<rparr>)"
    and "\<And>s. sy_stop s \<Longrightarrow> sy_due s = [] \<Longrightarrow> P s (s\<lparr>sy_loop := False\<rparr>)"
    and "\<And>s uuid asked r req at key. sy_creating s = None \<Longrightarrow> unused (w_store W) uuid s \<Longrightarrow> asked \<le> sy_now s \<Longrightarrow> sane_clock asked \<Longrightarrow>
    decodeTaskRequest (w_parse_url W) asked r = Inr (req, at) \<Longrightarrow>
    P s (s\<lparr>sy_creating := Some (new_task uuid key req at)\<rparr>)"
    and "\<And>s. P s (s\<lparr>sy_creating := None\<rparr>)"
    and "\<And>s t. sy_creating s = Some t \<Longrightarrow>
    P s (s\<lparr>sy_db := snd (st_Save (w_store W) t (sy_db s)), sy_creating := None\<rparr>)"
    and "\<And>r s t u. loadTask (w_store W) r (sy_db s) = Inr t \<Longrightarrow> edits W (sy_now s) t u \<Longrightarrow>
    P s (s\<lparr>sy_writes := u # sy_writes s\<rparr>)"
    and "\<And>s us u us'. sy_writes s = us @ u # us' \<Longrightarrow>
    P s (s\<lparr>sy_db := snd (st_Update (w_store W) u (sy_db s)), sy_writes := us @ us',
      sy_disturbed := insert (ID u) (sy_disturbed s)\<rparr>)"
    and "\<And>s. P s (observe_with ObserveReplay s)"
    and "\<And>s url status before after. P s (s\<lparr>sy_db := snd (st_DeleteTasks (w_store W) url status before after (sy_db s))\<rparr>)"
    and "\<And>s db. w_expire W (sy_db s) db \<Longrightarrow> P s (s\<lparr>sy_db := db\<rparr>)"
    and "\<And>s. P s (boot (w_store W) (s\<lparr>sy_disturbed := UNIV\<rparr>))"
  shows "P s s'"
  using assms(1)
proof (cases rule: sstep.cases)
  case looping
  then show ?thesis by (cases rule: loop_step.cases) (simp_all add: assms)
next
  case serving
  then show ?thesis by (cases rule: request_step.cases) (simp_all add: assms)
qed (simp_all add: assms)

text \<open>The states of a process that was started on \<open>db\<close>, and of the processes after it.\<close>

inductive reachable :: "'s world \<Rightarrow> 's \<Rightarrow> 's sys \<Rightarrow> bool" for W db where
  start_up: "sane_clock now \<Longrightarrow> reachable W db (boot (w_store W) (started now db))"
| step_on: "reachable W db s \<Longrightarrow> sstep W s s' \<Longrightarrow> reachable W db s'"

inductive_cases gstepE: "gstep W t s p s' p'"
inductive_simps gstep_Queued: "gstep W t s Queued s' p'"
inductive_cases editsE: "edits W now t u"

end
