(* ===== verification/SystemClaims.thy ===== *)
theory SystemClaims
  imports System
begin

text \<open>
  What holds of the claims, the delivery slots and the in-flight gauge in every reachable
  state, whatever the store does: one goroutine per id, the claims are exactly the ids of the
  goroutines, and the slots taken, never more than configured, are what the gauge shows.
\<close>

section \<open>Frames\<close>

text \<open>The fields that no goroutine touches, and the shared helpers field by field.\<close>

lemma set_db_simps [simp]:
  "sy_now (set_db db s) = sy_now s" "sy_db (set_db db s) = db" "sy_due (set_db db s) = sy_due s"
  "sy_jobs (set_db db s) = sy_jobs s" "sy_inflight (set_db db s) = sy_inflight s"
  "sy_slots (set_db db s) = sy_slots s" "sy_metrics (set_db db s) = sy_metrics s"
  "sy_creating (set_db db s) = sy_creating s" "sy_writes (set_db db s) = sy_writes s"
  "sy_log (set_db db s) = sy_log s" "sy_disturbed (set_db db s) = sy_disturbed s"
  "sy_lost (set_db db s) = sy_lost s"
  by (simp_all add: set_db_def)

lemma update_own_simps [simp]:
  "sy_now (update_own st final t s) = sy_now s"
  "sy_db (update_own st final t s) = snd (st_Update st t (sy_db s))"
  "sy_due (update_own st final t s) = sy_due s" "sy_jobs (update_own st final t s) = sy_jobs s"
  "sy_inflight (update_own st final t s) = sy_inflight s" "sy_slots (update_own st final t s) = sy_slots s"
  "sy_metrics (update_own st final t s) = sy_metrics s"
  "sy_creating (update_own st final t s) = sy_creating s" "sy_writes (update_own st final t s) = sy_writes s"
  "sy_log (update_own st final t s) = sy_log s"
  "sy_disturbed (update_own st final t s) =
    (if fst (st_Update st t (sy_db s)) = None then sy_disturbed s else insert (ID t) (sy_disturbed s))"
  "sy_lost (update_own st final t s) =
    (if fst (st_Update st t (sy_db s)) = None \<or> \<not> final then sy_lost s else insert (ID t) (sy_lost s))"
  by (simp_all add: update_own_def split: prod.split option.split)

lemma observe_with_simps [simp]:
  "sy_now (observe_with f s) = sy_now s" "sy_db (observe_with f s) = sy_db s"
  "sy_due (observe_with f s) = sy_due s" "sy_jobs (observe_with f s) = sy_jobs s"
  "sy_inflight (observe_with f s) = sy_inflight s" "sy_slots (observe_with f s) = sy_slots s"
  "sy_metrics (observe_with f s) = f (sy_metrics s)" "sy_creating (observe_with f s) = sy_creating s"
  "sy_writes (observe_with f s) = sy_writes s" "sy_log (observe_with f s) = sy_log s"
  "sy_disturbed (observe_with f s) = sy_disturbed s" "sy_lost (observe_with f s) = sy_lost s"
  by (simp_all add: observe_with_def)

lemma let_go_simps [simp]:
  "sy_now (let_go x s) = sy_now s" "sy_db (let_go x s) = sy_db s" "sy_due (let_go x s) = sy_due s"
  "sy_jobs (let_go x s) = sy_jobs s" "sy_inflight (let_go x s) = sy_inflight s - {x}"
  "sy_slots (let_go x s) = sy_slots s" "sy_metrics (let_go x s) = sy_metrics s"
  "sy_creating (let_go x s) = sy_creating s" "sy_writes (let_go x s) = sy_writes s"
  "sy_log (let_go x s) = sy_log s" "sy_disturbed (let_go x s) = sy_disturbed s"
  "sy_lost (let_go x s) = sy_lost s"
  by (simp_all add: let_go_def release_def)

lemma slot_simps [simp]:
  "sy_now (take_slot s) = sy_now s" "sy_db (take_slot s) = sy_db s" "sy_due (take_slot s) = sy_due s"
  "sy_jobs (take_slot s) = sy_jobs s" "sy_inflight (take_slot s) = sy_inflight s"
  "sy_slots (take_slot s) = Suc (sy_slots s)" "sy_metrics (take_slot s) = InflightAdd 1 (sy_metrics s)"
  "sy_creating (take_slot s) = sy_creating s" "sy_writes (take_slot s) = sy_writes s"
  "sy_log (take_slot s) = sy_log s" "sy_disturbed (take_slot s) = sy_disturbed s"
  "sy_lost (take_slot s) = sy_lost s"
  "sy_now (free_slot s) = sy_now s" "sy_db (free_slot s) = sy_db s" "sy_due (free_slot s) = sy_due s"
  "sy_jobs (free_slot s) = sy_jobs s" "sy_inflight (free_slot s) = sy_inflight s"
  "sy_slots (free_slot s) = sy_slots s - 1" "sy_metrics (free_slot s) = InflightAdd (- 1) (sy_metrics s)"
  "sy_creating (free_slot s) = sy_creating s" "sy_writes (free_slot s) = sy_writes s"
  "sy_log (free_slot s) = sy_log s" "sy_disturbed (free_slot s) = sy_disturbed s"
  "sy_lost (free_slot s) = sy_lost s"
  by (simp_all add: take_slot_def free_slot_def)

lemma observe_try_simps [simp]:
  "sy_now (observe_try res s) = sy_now s" "sy_db (observe_try res s) = sy_db s"
  "sy_due (observe_try res s) = sy_due s" "sy_jobs (observe_try res s) = sy_jobs s"
  "sy_inflight (observe_try res s) = sy_inflight s" "sy_slots (observe_try res s) = sy_slots s"
  "sy_metrics (observe_try res s) = ObserveDelivery (ResDuration res) (ResErr res = None) (sy_metrics s)"
  "sy_creating (observe_try res s) = sy_creating s" "sy_writes (observe_try res s) = sy_writes s"
  "sy_log (observe_try res s) = sy_log s"
  "sy_disturbed (observe_try res s) = sy_disturbed s" "sy_lost (observe_try res s) = sy_lost s"
  by (simp_all add: observe_try_def)

lemma sent_simps [simp]:
  "sy_now (sent ft t s) = sy_now s" "sy_db (sent ft t s) = sy_db s" "sy_due (sent ft t s) = sy_due s"
  "sy_jobs (sent ft t s) = sy_jobs s" "sy_inflight (sent ft t s) = sy_inflight s"
  "sy_slots (sent ft t s) = sy_slots s" "sy_metrics (sent ft t s) = sy_metrics s"
  "sy_creating (sent ft t s) = sy_creating s" "sy_writes (sent ft t s) = sy_writes s"
  "sy_log (sent ft t s) = sy_log s @ [(sy_now s, ft, t)]"
  "sy_disturbed (sent ft t s) = sy_disturbed s" "sy_lost (sent ft t s) = sy_lost s"
  by (simp_all add: sent_def)

lemma with_jobs_simps [simp]:
  "sy_now (with_jobs js s) = sy_now s" "sy_db (with_jobs js s) = sy_db s" "sy_due (with_jobs js s) = sy_due s"
  "sy_jobs (with_jobs js s) = js" "sy_inflight (with_jobs js s) = sy_inflight s"
  "sy_slots (with_jobs js s) = sy_slots s" "sy_metrics (with_jobs js s) = sy_metrics s"
  "sy_creating (with_jobs js s) = sy_creating s" "sy_writes (with_jobs js s) = sy_writes s"
  "sy_log (with_jobs js s) = sy_log s" "sy_disturbed (with_jobs js s) = sy_disturbed s"
  "sy_lost (with_jobs js s) = sy_lost s"
  by (simp_all add: with_jobs_def)

lemma boot_simps [simp]:
  "sy_now (boot st s) = sy_now s" "sy_db (boot st s) = snd (st_RecoverRunning st (sy_db s))"
  "sy_due (boot st s) = []" "sy_jobs (boot st s) = []" "sy_inflight (boot st s) = {}"
  "sy_slots (boot st s) = 0" "sy_metrics (boot st s) = init_metrics" "sy_creating (boot st s) = None"
  "sy_writes (boot st s) = []" "sy_log (boot st s) = sy_log s" "sy_disturbed (boot st s) = sy_disturbed s"
  "sy_lost (boot st s) = (if fst (st_RecoverRunning st (sy_db s)) = None then {} else UNIV)"
  by (simp_all add: boot_def split: prod.split)

lemma started_simps [simp]:
  "sy_now (started now db) = now" "sy_db (started now db) = db" "sy_log (started now db) = []"
  "sy_disturbed (started now db) = {}" "sy_calls (started now db) = []"
  by (simp_all add: started_def)

lemma gstep_frame:
  "gstep W t s p s' p' \<Longrightarrow> sy_now s' = sy_now s \<and> sy_due s' = sy_due s \<and> sy_jobs s' = sy_jobs s
    \<and> sy_creating s' = sy_creating s \<and> sy_writes s' = sy_writes s
    \<and> sy_inflight s' = (if p' = None then sy_inflight s - {ID t} else sy_inflight s)"
  by (erule gstepE) simp_all

section \<open>Claims and slots\<close>

definition held :: "job list \<Rightarrow> string list" where
  "held js = map (ID \<circ> j_task) js"

definition has_slot :: "phase \<Rightarrow> bool" where
  "has_slot p \<longleftrightarrow> (case p of Claimed \<Rightarrow> False | Waiting d \<Rightarrow> False | Queued \<Rightarrow> False | _ \<Rightarrow> True)"

definition slot_holders :: "job list \<Rightarrow> nat" where
  "slot_holders js = length (filter (has_slot \<circ> j_phase) js)"

definition claims_ok :: "'s world \<Rightarrow> 's sys \<Rightarrow> bool" where
  "claims_ok W s \<longleftrightarrow> distinct (held (sy_jobs s)) \<and> sy_inflight s = set (held (sy_jobs s))
     \<and> sy_slots s = slot_holders (sy_jobs s) \<and> sy_slots s \<le> w_slots W
     \<and> inflight_gauge (sy_metrics s) = of_nat (sy_slots s)"

lemma held_simps [simp]:
  "held [] = []" "held (j # js) = ID (j_task j) # held js" "held (js @ js') = held js @ held js'"
  "held (resume t p) = (case p of None \<Rightarrow> [] | Some q \<Rightarrow> [ID t])"
  by (simp_all add: held_def resume_def split: option.split)

lemma slot_holders_simps [simp]:
  "slot_holders [] = 0" "slot_holders (j # js) = (if has_slot (j_phase j) then 1 else 0) + slot_holders js"
  "slot_holders (js @ js') = slot_holders js + slot_holders js'"
  "slot_holders (resume t p) = (case p of None \<Rightarrow> 0 | Some q \<Rightarrow> if has_slot q then 1 else 0)"
  by (simp_all add: slot_holders_def resume_def split: option.split)

lemma has_slot_simps [simp]:
  "\<not> has_slot Claimed" "\<not> has_slot (Waiting d)" "\<not> has_slot Queued" "has_slot Slotted"
  "has_slot (Stamped ft)" "has_slot (Skipping u late ft)" "has_slot (Marking u ft)"
  "has_slot (Trying u a n ft)" "has_slot (Sending u a n ft)" "has_slot (Retrying u a n ft began)" "has_slot (Finishing u ft)"
  "has_slot (Notifying u ft)" "has_slot (Requeueing u ft)" "has_slot Leaving"
  by (simp_all add: has_slot_def)

lemma gauge_simps [simp]:
  "inflight_gauge (ObserveDelivery d b m) = inflight_gauge m"
  "inflight_gauge (ObserveTaskFinished b m) = inflight_gauge m"
  "inflight_gauge (ObserveSkipped m) = inflight_gauge m" "inflight_gauge (ObserveReplay m) = inflight_gauge m"
  "inflight_gauge (ObserveLateness d m) = inflight_gauge m"
  "inflight_gauge (InflightAdd i m) = inflight_gauge m + word_of_int i"
  "inflight_gauge init_metrics = 0"
  by (simp_all add: ObserveDelivery_def ObserveTaskFinished_def ObserveSkipped_def ObserveReplay_def ObserveLateness_def
      InflightAdd_def init_metrics_def Let_def)

lemma gstep_slots:
  "gstep W t s p s' p' \<Longrightarrow> (has_slot p \<longrightarrow> 0 < sy_slots s) \<Longrightarrow> sy_slots s \<le> w_slots W \<Longrightarrow>
    inflight_gauge (sy_metrics s) = of_nat (sy_slots s) \<Longrightarrow>
    sy_slots s' + (if has_slot p then 1 else 0) = sy_slots s + slot_holders (resume t p')
    \<and> sy_slots s' \<le> w_slots W \<and> inflight_gauge (sy_metrics s') = of_nat (sy_slots s')"
  by (erule gstepE) (simp_all add: of_nat_diff)

lemma claims_goroutine:
  assumes "claims_ok W s" and "sy_jobs s = js @ \<lparr>j_task = t, j_phase = p\<rparr> # js'" and g: "gstep W t s p s' p'"
  shows "claims_ok W (with_jobs (js @ resume t p' @ js') s')"
proof -
  have "has_slot p \<longrightarrow> 0 < sy_slots s" using assms(1,2) by (auto simp: claims_ok_def)
  from gstep_slots [OF g this] gstep_frame [OF g] assms(1,2) show ?thesis
    unfolding claims_ok_def by (auto split: option.splits if_splits)
qed

lemma claims_step: "sstep W s s' \<Longrightarrow> claims_ok W s \<Longrightarrow> claims_ok W s'"
proof (induction rule: sstep_induct)
  case (goroutine s js t p js' s' p')
  then show ?case by (intro claims_goroutine)
qed (auto simp: claims_ok_def claim_def split: if_splits)

lemma reachable_claims: "reachable W db s \<Longrightarrow> claims_ok W s"
  by (induction rule: reachable.induct) (simp add: claims_ok_def, rule claims_step)

end
