(* ===== verification/Expiry.thy ===== *)
theory Expiry
  imports StoreIface
begin

text \<open>
  Entries with a TTL disappear from the database on their own. The store's contract with
  this in it: \<open>expiring_store\<close> extends \<open>task_store\<close> with a relation saying what may happen to
  the data without any call, and promises that only finished tasks go that way.
  \<open>BadgerStore\<close> provides it, because \<open>put\<close> sets a TTL on terminal tasks only.
\<close>

locale expiring_store = task_store st ok tasks listing at_cursor
  for st :: "'s Store" and ok tasks listing at_cursor +
  fixes expire :: "'s \<Rightarrow> 's \<Rightarrow> bool"
  assumes expire_ok: "ok s \<Longrightarrow> expire s s' \<Longrightarrow> ok s' \<and> (tasks s' = tasks s
    \<or> (\<exists>x t. tasks s x = Some t \<and> IsTerminal (Status t) \<and> tasks s' = (tasks s)(x := None)))"

text \<open>
  What the database does by itself: an entry that carries a TTL is gone, or its files were
  rewritten; everything else is as before.
\<close>

definition expires :: "'db kv \<Rightarrow> 'db \<Rightarrow> 'db \<Rightarrow> bool" where
  "expires kv db db' \<longleftrightarrow> kv_items kv db' = kv_items kv db
     \<or> (\<exists>i \<in> set (kv_items kv db). item_ttl i \<noteq> None
        \<and> set (kv_items kv db') = set (kv_items kv db) - {i})"

context badger
begin

lemma expires_view:
  assumes "wf_store kv db" and "expires kv db db'"
  shows "wf_store kv db' \<and> (view kv db' = view kv db
    \<or> (\<exists>x t. view kv db x = Some t \<and> IsTerminal (Status t) \<and> view kv db' = (view kv db)(x := None)))"
proof (cases "kv_items kv db' = kv_items kv db")
  case True
  with assms(1) items_decide [OF True] show ?thesis by simp
next
  case False
  then obtain i where i: "i \<in> set (kv_items kv db)" "item_ttl i \<noteq> None"
    and items: "set (kv_items kv db') = set (kv_items kv db) - {i}"
    using assms(2) by (auto simp: expires_def)
  have ti: "set (task_items kv db') = set (task_items kv db) - {i}"
    unfolding set_task_items items by auto
  then have wf: "wf_store kv db'" using assms(1) by (simp add: wf_store_def)
  have tasks: "set (tasks_of kv db') = (the \<circ> load) ` (set (task_items kv db) - {i})"
    by (simp add: tasks_of_def ti)
  show ?thesis
  proof (cases "i \<in> set (task_items kv db)")
    case False
    then have "set (tasks_of kv db') = set (tasks_of kv db)" using tasks by (simp add: tasks_of_def)
    then have "view kv db' x = Some u \<longleftrightarrow> view kv db x = Some u" for x u
      by (simp add: view_Some [OF assms(1)] view_Some [OF wf])
    then have "view kv db' = view kv db" by (rule map_eqI)
    with wf show ?thesis by blast
  next
    case True
    then obtain t where t: "load i = Some t" "t \<in> set (tasks_of kv db)"
      using wf_load(1) [OF assms(1)] in_tasks_of [OF assms(1)] by metis
    have fin: "IsTerminal (Status t)"
      using wf_store_item [OF assms(1) True] i(2) t(1) by (simp add: wf_item_def)
    have inj: "the (load j) = t \<longleftrightarrow> j = i" if "j \<in> set (task_items kv db)" for j
      using wf_store_ID [OF assms(1) that True] wf_load(4) [OF assms(1)] that True t(1) by force
    have "set (tasks_of kv db') = set (tasks_of kv db) - {t}"
      unfolding tasks using inj by (auto simp: tasks_of_def)
    then have "view kv db' x = Some u \<longleftrightarrow> ((view kv db)(ID t := None)) x = Some u" for x u
      using tasks_of_ID [OF assms(1) _ t(2)] by (auto simp: view_Some [OF assms(1)] view_Some [OF wf])
    then have "view kv db' = (view kv db)(ID t := None)" by (rule map_eqI)
    moreover have "view kv db (ID t) = Some t" using t(2) by (simp add: view_Some [OF assms(1)])
    ultimately show ?thesis using wf fin by blast
  qed
qed

end

sublocale badger \<subseteq> expiring: expiring_store "badger_store kv ttl" "wf_store kv" "view kv"
  "db_listing kv" "db_at_cursor kv" "expires kv" for ttl
  by unfold_locales (rule expires_view)

context badger
begin

lemma expiring_contract: "expiring_store (badger_store kv ttl) (wf_store kv) (view kv)
  (db_listing kv) (db_at_cursor kv) (expires kv)"
  by (rule expiring.expiring_store_axioms)

end

interpretation mem_expiring: expiring_store "badger_store (mem_kv capacity) ttl" "wf_store (mem_kv capacity)"
  "view (mem_kv capacity)" "db_listing (mem_kv capacity)" "db_at_cursor (mem_kv capacity)"
  "expires (mem_kv capacity)" for capacity ttl
  by (rule mem.expiring.expiring_store_axioms)

end
