(* ===== verification/SystemData.thy ===== *)
theory SystemData
  imports SystemClaims Expiry
begin

text \<open>
  What holds of the stored tasks and of the copies of tasks that goroutines and requests
  hold, in every reachable state and whichever writes fail: the store's invariant, sound
  records, and at each point of a delivery a copy that may be written back.
\<close>

section \<open>Copies in flight\<close>

text \<open>What a goroutine for the id \<open>x\<close> knows of its variables, by where it stands.\<close>

fun phase_ok :: "string \<Rightarrow> phase \<Rightarrow> bool" where
  "phase_ok x (Stamped ft) \<longleftrightarrow> sane_clock ft"
| "phase_ok x (Skipping u late ft) \<longleftrightarrow>
     ID u = x \<and> wf_task u \<and> sound_record u \<and> Status u = StatusPending \<and> sane_clock ft"
| "phase_ok x (Marking u ft) \<longleftrightarrow>
     ID u = x \<and> wf_task u \<and> sound_record u \<and> Status u = StatusPending \<and> sane_clock ft"
| "phase_ok x (Trying u a n ft) \<longleftrightarrow> ID u = x \<and> wf_task u \<and> numbered u
     \<and> n = of_nat (length (Attempts u)) \<and> Status u = StatusRunning \<and> sane_clock ft"
| "phase_ok x (Sending u a n ft) \<longleftrightarrow> ID u = x \<and> wf_task u \<and> numbered u
     \<and> n = of_nat (length (Attempts u)) \<and> Status u = StatusRunning \<and> sane_clock ft"
| "phase_ok x (Retrying u a n ft began) \<longleftrightarrow> ID u = x \<and> wf_task u \<and> numbered u
     \<and> n = of_nat (length (Attempts u)) \<and> Status u = StatusRunning \<and> sane_clock ft"
| "phase_ok x (Finishing u ft) \<longleftrightarrow> ID u = x \<and> wf_task u \<and> numbered u
     \<and> (Status u = StatusSucceeded \<or> Status u = StatusFailed) \<and> sane_clock ft"
| "phase_ok x (Notifying u ft) \<longleftrightarrow> ID u = x \<and> sane_clock ft"
| "phase_ok x (Requeueing u ft) \<longleftrightarrow> ID u = x \<and> sane_clock ft"
| "phase_ok x p \<longleftrightarrow> True"

definition jobs_ok :: "job list \<Rightarrow> bool" where
  "jobs_ok js \<longleftrightarrow> (\<forall>j \<in> set js. colon \<notin> set (ID (j_task j)) \<and> phase_ok (ID (j_task j)) (j_phase j))"

definition all_sound :: "(string \<Rightarrow> task option) \<Rightarrow> bool" where
  "all_sound m \<longleftrightarrow> (\<forall>x t. m x = Some t \<longrightarrow> sound_record t)"

lemma all_sound_upd: "all_sound m \<Longrightarrow> sound_record t \<Longrightarrow> all_sound (m(x \<mapsto> t))"
  by (simp add: all_sound_def)

lemma jobs_ok_simps [simp]:
  "jobs_ok []" "jobs_ok (j # js) \<longleftrightarrow>
    colon \<notin> set (ID (j_task j)) \<and> phase_ok (ID (j_task j)) (j_phase j) \<and> jobs_ok js"
  "jobs_ok (js @ js') \<longleftrightarrow> jobs_ok js \<and> jobs_ok js'"
  "jobs_ok (resume t p) \<longleftrightarrow> (case p of None \<Rightarrow> True | Some q \<Rightarrow> colon \<notin> set (ID t) \<and> phase_ok (ID t) q)"
  by (auto simp: jobs_ok_def resume_def split: option.split)

text \<open>The tasks that requests have in hand.\<close>

definition requests_ok :: "task list \<Rightarrow> bool" where
  "requests_ok us \<longleftrightarrow> (\<forall>u \<in> set us. wf_task u \<and> sound_record u)"

definition creating_ok :: "(string \<Rightarrow> task option) \<Rightarrow> 's sys \<Rightarrow> bool" where
  "creating_ok m s \<longleftrightarrow> (\<forall>t. sy_creating s = Some t \<longrightarrow> wf_task t \<and> sound_record t \<and> Status t = StatusPending
     \<and> m (ID t) = None \<and> ID t \<notin> ID ` (set (sy_due s) \<union> j_task ` set (sy_jobs s) \<union> set (sy_writes s)))"

lemma tried_simps [simp]:
  "ID (tried now res n u) = ID u" "Status (tried now res n u) = Status u"
  "ExecuteAt (tried now res n u) = ExecuteAt u" "Retries (tried now res n u) = Retries u"
  "length (Attempts (tried now res n u)) = Suc (length (Attempts u))"
  by (simp_all add: tried_def)

lemma tried_numbered:
  "numbered u \<Longrightarrow> n = of_nat (length (Attempts u)) \<Longrightarrow> numbered (tried now res n u)"
  by (simp add: tried_def numbered_def attempt_of_def add.commute)

lemma numbered_status [simp]: "numbered (u\<lparr>Status := s\<rparr>) = numbered u"
  by (simp add: numbered_def)

lemma wf_status: "wf_task u \<Longrightarrow> status_Valid s \<Longrightarrow> wf_task (u\<lparr>Status := s\<rparr>)"
  by (simp add: wf_task_def)

lemma wf_tried: "wf_task u \<Longrightarrow> wf_task (tried now res n u)"
  by (simp add: wf_task_def)

lemma finish_simps [simp]:
  "ID (finish now u) = ID u" "Status (finish now u) = Status u" "Retries (finish now u) = Retries u"
  by (simp_all add: finish_def)

lemma wf_finish: "wf_task u \<Longrightarrow> wf_task (finish now u)"
  by (simp add: wf_task_def finish_def)

lemma finish_sound:
  "numbered u \<Longrightarrow> Status u = StatusSucceeded \<or> Status u = StatusFailed \<Longrightarrow> sound_record (finish now u)"
  by (auto simp: record_defs finish_def)

lemma retire_simps [simp]:
  "ID (retire_stale cfg u late ft) = ID u" "Retries (retire_stale cfg u late ft) = Retries u" "Status (retire_stale cfg u late ft) = StatusFailed"
  by (simp_all add: retire_stale_def)

lemma wf_retire: "wf_task u \<Longrightarrow> wf_task (retire_stale cfg u late ft)"
  by (simp add: wf_task_def retire_stale_def)

lemma mark_running_ok:
  "wf_task u \<Longrightarrow> wf_task (mark_running u)"
  "sound_record u \<Longrightarrow> Status u = StatusPending \<Longrightarrow> sound_record (mark_running u)"
  "numbered (mark_running u) = numbered u" "Retries (mark_running u) = Retries u"
  by (simp_all add: wf_task_def mark_running_def record_defs)

lemma edits_ok:
  assumes "edits W now t u" and "wf_task t" and "sound_record t" and "sane_clock now"
  shows "ID u = ID t \<and> wf_task u \<and> sound_record u"
  using assms
proof (induction rule: edits.induct)
  case (by_update asked r req at t)
  have "fits16 (Unix at)" using decode_fits16 [OF by_update(1,2)] by simp
  with by_update show ?case
    by (simp add: wf_rewrites record_defs)
qed (simp_all add: wf_rewrites fits16_clock record_defs)

section \<open>A goroutine step and the store\<close>

text \<open>
  \<open>grows s m m'\<close>: between the maps \<open>m\<close> and \<open>m'\<close> only the task \<open>x\<close> changed, or ids that nothing
  in the state \<open>s\<close> knows.
\<close>

definition grows :: "'s sys \<Rightarrow> string \<Rightarrow> (string \<Rightarrow> task option) \<Rightarrow> (string \<Rightarrow> task option) \<Rightarrow> bool" where
  "grows s x m m' \<longleftrightarrow> (\<forall>y. m' y \<noteq> m y \<longrightarrow> y = x \<or> y \<notin> known_ids s)"

lemma grows_refl [simp]: "grows s x m m"
  by (simp add: grows_def)

context expiring_store
begin

lemma recheck_cases:
  assumes "ok s" and "colon \<notin> set (ID t)" and "recheck st cfg t ft s = Fire cur late \<or> recheck st cfg t ft s = Skip cur late"
  shows "tasks s (ID t) = Some cur" "ID cur = ID t" "wf_task cur" "Status cur = StatusPending"
    "ExecuteAt cur = ExecuteAt t" "late = time_Sub ft (ExecuteAt cur)"
    "recheck st cfg t ft s = Fire cur late \<longleftrightarrow> \<not> stale cfg late"
proof -
  note r = recheck_spec [OF assms(1,2), of cfg ft]
  have f: "fireable t (tasks s (ID t))" using assms(3) r by (auto split: if_splits)
  then obtain c where c: "tasks s (ID t) = Some c" "Status c = StatusPending" "ExecuteAt c = ExecuteAt t"
    by (auto simp: fireable_def split: option.splits)
  have "recheck st cfg t ft s = (if stale cfg (time_Sub ft (ExecuteAt c)) then Skip c (time_Sub ft (ExecuteAt c))
      else Fire c (time_Sub ft (ExecuteAt c)))" using r f c(1) by (simp add: Let_def)
  with assms(3) have eq: "cur = c" "late = time_Sub ft (ExecuteAt c)"
    "recheck st cfg t ft s = Fire cur late \<longleftrightarrow> \<not> stale cfg late"
    by (auto split: if_splits)
  show "tasks s (ID t) = Some cur" "Status cur = StatusPending"
    "ExecuteAt cur = ExecuteAt t" "late = time_Sub ft (ExecuteAt cur)"
    "recheck st cfg t ft s = Fire cur late \<longleftrightarrow> \<not> stale cfg late"
    using c eq by simp_all
  show "ID cur = ID t" "wf_task cur" using tasks_wf [OF assms(1) c(1)] eq(1) by simp_all
qed

lemma own_write:
  assumes "ok db" and "all_sound (tasks db)" and "wf_task u" and "sound_record u"
  shows "ok (snd (st_Update st u db))" "all_sound (tasks (snd (st_Update st u db)))"
    "grows s (ID u) (tasks db) (tasks (snd (st_Update st u db)))"
  using update_cases [OF assms(1,3)] assms(1,2,4) by (auto simp: all_sound_upd grows_def)

lemma unused_fresh:
  assumes "ok (sy_db s)" and "unused st uuid s"
  shows "fresh_id uuid (tasks (sy_db s))" "uuid \<notin> known_ids s"
  using assms get_task [OF assms(1)] by (auto simp: unused_def fresh_id_def)

lemma requeue_effect:
  assumes "ok (sy_db s)" and "all_sound (tasks (sy_db s))" and "sane_clock ft" and "unused st uuid s"
  shows "ok (reschedule st u ft uuid (sy_db s))" "all_sound (tasks (reschedule st u ft uuid (sy_db s)))"
    "grows s x (tasks (sy_db s)) (tasks (reschedule st u ft uuid (sy_db s)))"
proof -
  note f = unused_fresh [OF assms(1,4)]
  note r = reschedule_cases [OF assms(1,3) f(1), of u]
  show "ok (reschedule st u ft uuid (sy_db s))" by (rule r(1))
  show "all_sound (tasks (reschedule st u ft uuid (sy_db s)))"
    unfolding r(2) using assms(2) successor_fields(6) by (auto intro: all_sound_upd split: option.split)
  show "grows s x (tasks (sy_db s)) (tasks (reschedule st u ft uuid (sy_db s)))"
    unfolding r(2) grows_def using f(2) by (auto split: option.split)
qed

lemma gstep_data:
  assumes "gstep W t s p s' p'" and "w_store W = st" and "ok (sy_db s)" and "all_sound (tasks (sy_db s))"
    and "sane_clock (sy_now s)" and "colon \<notin> set (ID t)" and "phase_ok (ID t) p"
  shows "ok (sy_db s') \<and> all_sound (tasks (sy_db s')) \<and> grows s (ID t) (tasks (sy_db s)) (tasks (sy_db s'))
    \<and> (\<forall>q. p' = Some q \<longrightarrow> phase_ok (ID t) q)"
  using assms
proof (induction rule: gstep.induct)
  case (too_late ft cur late)
  then have "recheck st (w_cfg W) t ft (sy_db s) = Skip cur late" by simp
  note r = recheck_cases [OF too_late(3) too_late(6) disjI2 [OF this]]
  from r(1) too_late(4) have "sound_record cur" by (simp add: all_sound_def)
  with r too_late show ?case by simp
next
  case (on_time ft cur late)
  then have "recheck st (w_cfg W) t ft (sy_db s) = Fire cur late" by simp
  note r = recheck_cases [OF on_time(3) on_time(6) disjI1 [OF this]]
  from r(1) on_time(4) have "sound_record cur" by (simp add: all_sound_def)
  with r on_time show ?case by simp
next
  case (skip u cur late ft)
  then have "wf_task u" "sound_record u" "ID u = ID t"
    by (simp_all add: wf_retire retire_stale_sound sound_record_def [of cur])
  with own_write [OF skip(3,4), where u = u] skip show ?case by simp
next
  case (mark cur ft)
  then have "wf_task (mark_running cur)" "sound_record (mark_running cur)" "numbered cur"
    by (simp_all add: mark_running_ok sound_record_def [of cur])
  with own_write [OF mark(2,3), where u = "mark_running cur"] mark show ?case by (simp add: mark_running_ok)
next
  case (try_ok res u a n ft)
  then show ?case by (simp add: wf_status wf_tried tried_numbered)
next
  case (try_failed res u a n ft)
  then show ?case by (simp add: wf_tried tried_numbered)
next
  case (give_up rnd began a u n ft)
  then show ?case by (simp add: wf_status)
next
  case (finalize u' u ft)
  then have "wf_task u'" "sound_record u'" "ID u' = ID t"
    by (simp_all add: wf_finish finish_sound)
  with own_write [OF finalize(3,4), where u = u'] finalize show ?case by simp
next
  case (requeue_next uuid u ft)
  then have "unused st uuid s" "sane_clock ft" by simp_all
  from requeue_effect [OF requeue_next(3,4) this(2,1)] requeue_next show ?case by simp
qed (simp_all split: option.splits)

end

section \<open>The invariant\<close>

definition data_ok :: "('s \<Rightarrow> bool) \<Rightarrow> ('s \<Rightarrow> string \<Rightarrow> task option) \<Rightarrow> 's sys \<Rightarrow> bool" where
  "data_ok ok tasks s \<longleftrightarrow> ok (sy_db s) \<and> all_sound (tasks (sy_db s)) \<and> sane_clock (sy_now s)
     \<and> jobs_ok (sy_jobs s) \<and> (\<forall>t \<in> set (sy_due s). wf_task t) \<and> requests_ok (sy_writes s)
     \<and> creating_ok (tasks (sy_db s)) s"

text \<open>A process over the store \<open>st\<close>, with a tick interval that is a duration.\<close>

definition runs_on :: "'s Store \<Rightarrow> ('s \<Rightarrow> 's \<Rightarrow> bool) \<Rightarrow> 's world \<Rightarrow> bool" where
  "runs_on st expire W \<longleftrightarrow> w_store W = st \<and> w_expire W = expire
     \<and> 0 \<le> w_interval W \<and> w_interval W \<le> max_duration"

lemma creating_mono:
  assumes "creating_ok m s" and "sy_creating s' = sy_creating s"
    and "\<And>x. x \<in> ID ` (set (sy_due s') \<union> j_task ` set (sy_jobs s') \<union> set (sy_writes s')) \<Longrightarrow>
      x \<in> ID ` (set (sy_due s) \<union> j_task ` set (sy_jobs s) \<union> set (sy_writes s)) \<or> m x \<noteq> None"
    and "\<And>t. sy_creating s = Some t \<Longrightarrow> m' (ID t) = None"
  shows "creating_ok m' s'"
  using assms unfolding creating_ok_def by (metis option.distinct(1))

context expiring_store
begin

lemma data_goroutine:
  assumes "runs_on st expire W" and "data_ok ok tasks s"
    and jobs: "sy_jobs s = js @ \<lparr>j_task = t, j_phase = p\<rparr> # js'" and g: "gstep W t s p s' p'"
  shows "data_ok ok tasks (with_jobs (js @ resume t p' @ js') s')"
proof -
  have d: "ok (sy_db s)" "all_sound (tasks (sy_db s))" "sane_clock (sy_now s)" "jobs_ok (sy_jobs s)"
    "creating_ok (tasks (sy_db s)) s"
    using assms(2) by (simp_all add: data_ok_def)
  have t: "colon \<notin> set (ID t)" "phase_ok (ID t) p" using d(4) jobs by simp_all
  have "w_store W = st" using assms(1) by (simp add: runs_on_def)
  note e = gstep_data [OF g this d(1-3) t] and f = gstep_frame [OF g]
  have "creating_ok (tasks (sy_db s')) (with_jobs (js @ resume t p' @ js') s')"
  proof (rule creating_mono [OF d(5)])
    fix u assume u: "sy_creating s = Some u"
    then have "ID u \<in> known_ids s" by (auto simp: known_ids_def)
    moreover have "ID u \<noteq> ID t" "tasks (sy_db s) (ID u) = None"
      using d(5) u jobs by (auto simp: creating_ok_def)
    ultimately show "tasks (sy_db s') (ID u) = None" using e unfolding grows_def by metis
  qed (use f jobs in \<open>auto simp: resume_def split: option.splits\<close>)
  moreover have "jobs_ok (js @ resume t p' @ js')" using d(4) e t jobs by (auto split: option.split)
  ultimately show ?thesis using e f assms(2) by (simp add: data_ok_def)
qed

lemma requeue_sound: "sound_record t \<Longrightarrow> sound_record (requeue t)"
  by (simp add: requeue_def record_defs)

lemma recovered:
  assumes "ok db" and "all_sound (tasks db)"
  defines "r \<equiv> st_RecoverRunning st db"
  shows "ok (snd r) \<and> all_sound (tasks (snd r))"
proof (cases "fst r")
  case None
  then have "st_RecoverRunning st db = (None, snd r)" by (simp add: r_def prod_eq_iff)
  note rec = recover_ok [OF assms(1) this]
  have "sound_record t" if "map_option requeue (tasks db x) = Some t" for x t
    using that assms(2) requeue_sound by (auto simp: all_sound_def)
  with rec show ?thesis by (simp add: all_sound_def)
next
  case (Some e)
  then have "st_RecoverRunning st db = (Some e, snd r)" by (simp add: r_def prod_eq_iff)
  from recover_err [OF this] assms show ?thesis by simp
qed

lemma data_step:
  assumes "runs_on st expire W" and "sstep W s s'" and "data_ok ok tasks s"
  shows "data_ok ok tasks s'"
  using assms(2,3)
proof (induction rule: sstep_induct)
  case (goroutine s js t p js' s' p')
  then show ?case by (intro data_goroutine [OF assms(1)])
next
  case (clock s now)
  then show ?case by (simp add: data_ok_def creating_ok_def)
next
  case (tick s start ts)
  then have "fits16 (Unix (start + w_interval W))"
    using assms(1) by (intro fits16_clock_plus) (simp_all add: runs_on_def)
  with tick have ts: "\<forall>t \<in> set ts. tasks (sy_db s) (ID t) = Some t"
    using due_tasks [of "sy_db s" "start + w_interval W" start "int MaxDueBatch"] assms(1)
    by (auto simp: data_ok_def runs_on_def)
  with tick have "\<forall>t \<in> set ts. wf_task t" using tasks_wf by (auto simp: data_ok_def)
  moreover have "creating_ok (tasks (sy_db s)) (s\<lparr>sy_due := ts\<rparr>)"
    by (rule creating_mono [of "tasks (sy_db s)" s]) (use tick ts in \<open>auto simp: data_ok_def creating_ok_def\<close>)
  ultimately show ?case using tick by (simp add: data_ok_def)
next
  case (claim_next s t ts held)
  then have "creating_ok (tasks (sy_db s)) (s\<lparr>sy_due := ts, sy_inflight := held,
      sy_jobs := sy_jobs s @ [\<lparr>j_task = t, j_phase = Claimed\<rparr>]\<rparr>)"
    by (auto simp: data_ok_def creating_ok_def)
  with claim_next show ?case by (simp add: data_ok_def wf_task_def [of t])
next
  case (claim_held s t ts held)
  then show ?case by (auto simp: data_ok_def creating_ok_def)
next
  case (create_begin s uuid asked r req at key)
  let ?t = "new_task uuid key req at"
  have "ok (sy_db s)" "unused st uuid s" using create_begin assms(1) by (simp_all add: data_ok_def runs_on_def)
  from unused_fresh [OF this] have f: "uuid \<noteq> []" "colon \<notin> set uuid" "tasks (sy_db s) uuid = None" "uuid \<notin> known_ids s"
    by (simp_all add: fresh_id_def)
  have "fits16 (Unix at)" using decode_fits16 create_begin by blast
  then have "wf_task ?t" "sound_record ?t" using f
    by (simp_all add: wf_task_def record_defs)
  with f have "creating_ok (tasks (sy_db s)) (s\<lparr>sy_creating := Some ?t\<rparr>)"
    by (auto simp: creating_ok_def known_ids_def)
  with create_begin show ?case by (simp add: data_ok_def)
next
  case (create_save s t)
  then have "ok (sy_db s)" "wf_task t" "sound_record t" "Status t = StatusPending" "tasks (sy_db s) (ID t) = None"
    by (simp_all add: data_ok_def creating_ok_def)
  moreover from this have "sound_record (t\<lparr>Status := StatusPending\<rparr>)" "wf_task (t\<lparr>Status := StatusPending\<rparr>)"
    by (simp_all add: record_defs wf_task_def)
  ultimately have "ok (snd (st_Save st t (sy_db s)))" "all_sound (tasks (snd (st_Save st t (sy_db s))))"
    using save_cases [of "sy_db s" t] create_save by (simp_all add: all_sound_upd data_ok_def)
  with create_save assms(1) show ?case by (simp add: data_ok_def creating_ok_def runs_on_def)
next
  case (api_load r s t u)
  then have "ok (sy_db s)" "loadTask st r (sy_db s) = Inr t" using assms(1) by (simp_all add: data_ok_def runs_on_def)
  then have t: "tasks (sy_db s) (ID t) = Some t" "wf_task t"
    using loadTask_cases [of "sy_db s" r] by (metis sum.distinct(1) sum.inject(2))+
  then have "sound_record t" using api_load by (simp add: data_ok_def all_sound_def)
  with t api_load have u: "ID u = ID t \<and> wf_task u \<and> sound_record u"
    by (intro edits_ok [of W "sy_now s"]) (simp_all add: data_ok_def)
  have "creating_ok (tasks (sy_db s)) (s\<lparr>sy_writes := u # sy_writes s\<rparr>)"
    by (rule creating_mono [of "tasks (sy_db s)" s]) (use api_load t u in \<open>auto simp: data_ok_def creating_ok_def\<close>)
  with u api_load show ?case by (simp add: data_ok_def requests_ok_def)
next
  case (api_write s us u us')
  then have w: "ok (sy_db s)" "all_sound (tasks (sy_db s))" "wf_task u" "sound_record u"
    by (simp_all add: data_ok_def requests_ok_def)
  note e = own_write [OF w]
  let ?s' = "s\<lparr>sy_db := snd (st_Update st u (sy_db s)), sy_writes := us @ us',
      sy_disturbed := insert (ID u) (sy_disturbed s)\<rparr>"
  have "creating_ok (tasks (snd (st_Update st u (sy_db s)))) ?s'"
  proof (rule creating_mono [of "tasks (sy_db s)" s])
    fix t assume t: "sy_creating s = Some t"
    then have "ID t \<in> known_ids s" by (auto simp: known_ids_def)
    moreover have "ID t \<noteq> ID u" "tasks (sy_db s) (ID t) = None"
      using t api_write by (auto simp: data_ok_def creating_ok_def)
    ultimately show "tasks (snd (st_Update st u (sy_db s))) (ID t) = None"
      using e(3) unfolding grows_def by metis
  qed (use api_write in \<open>auto simp: data_ok_def\<close>)
  with e api_write assms(1) show ?case by (simp add: data_ok_def requests_ok_def runs_on_def)
next
  case (api_delete s url status before after)
  let ?r = "st_DeleteTasks st url status before after (sy_db s)"
  have "ok (snd ?r) \<and> (\<forall>x t. tasks (snd ?r) x = Some t \<longrightarrow> tasks (sy_db s) x = Some t)"
  proof (cases "snd (fst ?r)")
    case None
    then have "?r = ((fst (fst ?r), None), snd ?r)" by (simp add: prod_eq_iff)
    from delete_tasks_ok [OF _ this] api_delete show ?thesis
      by (auto simp: data_ok_def split: option.splits if_splits)
  next
    case (Some e)
    then have "?r = ((fst (fst ?r), Some e), snd ?r)" by (simp add: prod_eq_iff)
    from delete_tasks_err [OF this] api_delete show ?thesis by (simp add: data_ok_def)
  qed
  with api_delete assms(1) show ?case
    by (auto simp: data_ok_def all_sound_def creating_ok_def runs_on_def) (metis not_None_eq)+
next
  case (expire s db)
  then have "ok db \<and> (tasks db = tasks (sy_db s)
      \<or> (\<exists>x t. tasks (sy_db s) x = Some t \<and> IsTerminal (Status t) \<and> tasks db = (tasks (sy_db s))(x := None)))"
    using expire_ok [of "sy_db s" db] assms(1) by (simp add: data_ok_def runs_on_def)
  with expire show ?case by (auto simp: data_ok_def all_sound_def creating_ok_def split: if_splits)
next
  case (restart s)
  let ?r = "st_RecoverRunning st (sy_db s)"
  have "ok (snd ?r) \<and> all_sound (tasks (snd ?r))"
    using recovered restart by (simp add: data_ok_def)
  with restart assms(1) show ?case by (simp add: data_ok_def creating_ok_def requests_ok_def runs_on_def)
qed (auto simp: data_ok_def creating_ok_def)

lemma reachable_data:
  assumes "runs_on st expire W" and "reachable W db s" and "ok db" and "all_sound (tasks db)"
  shows "data_ok ok tasks s"
  using assms(2)
proof (induction rule: reachable.induct)
  case (start_up now)
  have "w_store W = st" using assms(1) by (simp add: runs_on_def)
  with start_up recovered [OF assms(3,4)] show ?case
    by (simp add: data_ok_def creating_ok_def requests_ok_def)
qed (rule data_step [OF assms(1)])

end

end
