(* ===== verification/SystemTiming.thy ===== *)
theory SystemTiming
  imports SystemData
begin

text \<open>
  When deliveries happen, in every reachable state: never before the task's fire time, never
  further past it than the configured staleness, and a goroutine always comes closer to its
  end.
\<close>

section \<open>Fire times\<close>

definition in_time :: "runner_cfg \<Rightarrow> time \<Rightarrow> time \<Rightarrow> task \<Rightarrow> bool" where
  "in_time cfg now ft u \<longleftrightarrow> ExecuteAt u \<le> ft \<and> ft \<le> now \<and> \<not> stale cfg (time_Sub ft (ExecuteAt u))"

fun phase_time :: "runner_cfg \<Rightarrow> time \<Rightarrow> task \<Rightarrow> phase \<Rightarrow> bool" where
  "phase_time cfg now t Claimed \<longleftrightarrow> ExecuteAt t \<le> now + max_duration"
| "phase_time cfg now t (Waiting d) \<longleftrightarrow> ExecuteAt t \<le> d"
| "phase_time cfg now t Queued \<longleftrightarrow> ExecuteAt t \<le> now"
| "phase_time cfg now t Slotted \<longleftrightarrow> ExecuteAt t \<le> now"
| "phase_time cfg now t (Stamped ft) \<longleftrightarrow> ExecuteAt t \<le> ft \<and> ft \<le> now"
| "phase_time cfg now t (Marking u ft) \<longleftrightarrow> in_time cfg now ft u"
| "phase_time cfg now t (Trying u a n ft) \<longleftrightarrow> in_time cfg now ft u"
| "phase_time cfg now t (Sending u a n ft) \<longleftrightarrow> in_time cfg now ft u"
| "phase_time cfg now t (Retrying u a n ft began) \<longleftrightarrow> in_time cfg now ft u"
| "phase_time cfg now t p \<longleftrightarrow> True"

definition log_in_time :: "runner_cfg \<Rightarrow> time \<Rightarrow> (time \<times> time \<times> task) list \<Rightarrow> bool" where
  "log_in_time cfg now l \<longleftrightarrow> (\<forall>(at, ft, u) \<in> set l. at \<le> now \<and> in_time cfg at ft u)"

definition time_ok :: "runner_cfg \<Rightarrow> 's sys \<Rightarrow> bool" where
  "time_ok cfg s \<longleftrightarrow> (\<forall>j \<in> set (sy_jobs s). phase_time cfg (sy_now s) (j_task j) (j_phase j))
     \<and> (\<forall>t \<in> set (sy_due s). ExecuteAt t \<le> sy_now s + max_duration)
     \<and> log_in_time cfg (sy_now s) (sy_log s)"

lemma in_time_later: "in_time cfg now ft u \<Longrightarrow> now \<le> now' \<Longrightarrow> in_time cfg now' ft u"
  by (simp add: in_time_def)

lemma phase_time_later: "phase_time cfg now t p \<Longrightarrow> now \<le> now' \<Longrightarrow> phase_time cfg now' t p"
  by (cases p) (auto intro: in_time_later)

lemma log_later: "log_in_time cfg now l \<Longrightarrow> now \<le> now' \<Longrightarrow> log_in_time cfg now' l"
  by (force simp: log_in_time_def)

text \<open>The timer of a task that is due within the range of a duration does not run short.\<close>

lemma timer_reaches: "ExecuteAt t \<le> now + max_duration \<Longrightarrow> ExecuteAt t \<le> now + timer_for now t"
  by (auto simp: timer_for_def time_Sub_def)

lemma in_time_tried [simp]:
  "in_time cfg now ft (tried at res n u) = in_time cfg now ft u"
  "in_time cfg now ft (mark_running u) = in_time cfg now ft u"
  by (simp_all add: in_time_def)

context expiring_store
begin

lemma gstep_time:
  assumes "gstep W t s p s' p'" and "w_store W = st" and "ok (sy_db s)" and "colon \<notin> set (ID t)"
    and "phase_time (w_cfg W) (sy_now s) t p" and "log_in_time (w_cfg W) (sy_now s) (sy_log s)"
  shows "(\<forall>q. p' = Some q \<longrightarrow> phase_time (w_cfg W) (sy_now s) t q)
    \<and> log_in_time (w_cfg W) (sy_now s) (sy_log s')"
  using assms
proof (induction rule: gstep.induct)
  case arm
  then show ?case by (simp add: timer_reaches)
next
  case (on_time ft cur late)
  then have "recheck st (w_cfg W) t ft (sy_db s) = Fire cur late" by simp
  note r = recheck_cases [OF on_time(3,4) disjI1 [OF this]]
  have "\<not> stale (w_cfg W) (time_Sub ft (ExecuteAt cur))" using r(6,7) \<open>recheck st _ _ _ _ = _\<close> by simp
  with r(5) on_time show ?case by (simp add: in_time_def)
qed (auto simp: log_in_time_def split: option.splits)

lemma time_step:
  assumes "runs_on st expire W" and "sstep W s s'" and "data_ok ok tasks s" and "time_ok (w_cfg W) s"
  shows "time_ok (w_cfg W) s'"
  using assms(2-4)
proof (induction rule: sstep_induct)
  case (goroutine s js t p js' s' p')
  then have "w_store W = st" "ok (sy_db s)" "colon \<notin> set (ID t)" "phase_time (w_cfg W) (sy_now s) t p"
    "log_in_time (w_cfg W) (sy_now s) (sy_log s)"
    using assms(1) by (simp_all add: runs_on_def data_ok_def time_ok_def)
  from gstep_time [OF goroutine(2) this] gstep_frame [OF goroutine(2)] goroutine(1,4) show ?case
    by (auto simp: time_ok_def resume_def split: option.splits)
next
  case (clock s now)
  then show ?case by (fastforce simp: time_ok_def intro: phase_time_later log_later)
next
  case (tick s start ts)
  then have "fits16 (Unix (start + w_interval W))"
    using assms(1) by (intro fits16_clock_plus) (simp_all add: runs_on_def)
  with tick have "\<forall>t \<in> set ts. due_now (start + w_interval W) t"
    using due_tasks [of "sy_db s" "start + w_interval W" start "int MaxDueBatch"] assms(1)
    by (auto simp: data_ok_def runs_on_def)
  then have "\<forall>t \<in> set ts. ExecuteAt t < start + w_interval W"
    using Unix_less unfolding due_now_def by blast
  then have "\<forall>t \<in> set ts. ExecuteAt t \<le> sy_now s + max_duration"
    using tick(4) assms(1) by (force simp: runs_on_def)
  with tick show ?case by (simp add: time_ok_def)
qed (auto simp: time_ok_def)

lemma reachable_time:
  assumes "runs_on st expire W" and "reachable W db s" and "ok db" and "all_sound (tasks db)"
  shows "time_ok (w_cfg W) s"
  using assms(2)
proof (induction rule: reachable.induct)
  case (step_on s s')
  then show ?case using time_step [OF assms(1)] reachable_data [OF assms(1) _ assms(3,4)] by blast
qed (simp add: time_ok_def log_in_time_def)

end

section \<open>Goroutines end\<close>

text \<open>
  Where a goroutine stands on its way, and within the delivery loop how far it is from using
  up its retries.
\<close>

fun stage :: "phase \<Rightarrow> nat" where
  "stage Claimed = 11"
| "stage (Waiting d) = 10"
| "stage Queued = 9"
| "stage Slotted = 8"
| "stage (Stamped ft) = 7"
| "stage (Skipping u late ft) = 6"
| "stage (Marking u ft) = 6"
| "stage (Trying u a n ft) = 5"
| "stage (Sending u a n ft) = 5"
| "stage (Retrying u a n ft began) = 5"
| "stage (Finishing u ft) = 4"
| "stage (Notifying u ft) = 3"
| "stage (Requeueing u ft) = 2"
| "stage Leaving = 1"

fun loops_left :: "phase \<Rightarrow> nat" where
  "loops_left (Trying u a n ft) = 3 * tries_left a + 2"
| "loops_left (Sending u a n ft) = 3 * tries_left a + 1"
| "loops_left (Retrying u a n ft began) = 3 * tries_left a"
| "loops_left p = 0"

definition closer :: "(phase \<times> phase) set" where
  "closer = inv_image (less_than <*lex*> less_than) (\<lambda>p. (stage p, loops_left p))"

lemma wf_closer: "wf closer"
  by (simp add: closer_def wf_lex_prod)

lemma hinted_tries [simp]: "tries_left (hinted res a) = tries_left a"
  by (simp add: hinted_def)

lemma gstep_closer: "gstep W t s p s' (Some q) \<Longrightarrow> (q, p) \<in> closer"
  by (erule gstepE) (auto simp: closer_def next_try_Some(6))

text \<open>What a goroutine may have to wait for at this point.\<close>

fun ready :: "'s world \<Rightarrow> 's sys \<Rightarrow> phase \<Rightarrow> bool" where
  "ready W s (Waiting d) \<longleftrightarrow> d \<le> sy_now s \<or> sy_stop s"
| "ready W s Queued \<longleftrightarrow> sy_slots s < w_slots W \<or> sy_stop s"
| "ready W s (Retrying u a n ft began) \<longleftrightarrow>
     began + (delay (\<lambda>n. 0) a - time_Sub began (lastTime a)) \<le> sy_now s \<or> lastTime a = zero_time
     \<or> \<not> shouldRetry a"
| "ready W s (Requeueing u ft) \<longleftrightarrow> (\<exists>uuid. unused (w_store W) uuid s)"
| "ready W s p \<longleftrightarrow> True"

lemma gstep_progress: "ready W s p \<Longrightarrow> \<exists>s' p'. gstep W t s p s' p'"
proof (cases p)
  case (Stamped ft)
  then show ?thesis
    by (cases "recheck (w_store W) (w_cfg W) t ft (sy_db s)") (metis drop_claim too_late on_time)+
next
  case (Sending u a n ft)
  then show ?thesis
    using try_ok [of "\<lparr>ResStatusCode = 200, ResErr = None, ResDuration = 0, ResBody = [],
      ResBodyTruncated = False, ResRetryAfter = 0\<rparr>"] by fastforce
next
  case (Retrying u a n ft began)
  assume r: "ready W s p"
  show ?thesis
  proof (cases "next_try (\<lambda>n. 0) began (sy_now s) a")
    case None
    from give_up [OF this] show ?thesis unfolding Retrying by blast
  next
    case (Some r')
    then obtain a' slept where n: "next_try (\<lambda>n. 0) began (sy_now s) a = Some (a', slept)" by (cases r') auto
    have "case slept of None \<Rightarrow> True | Some d \<Rightarrow> began + d \<le> sy_now s"
      using n r by (auto simp: Retrying next_try_def Let_def split: if_splits)
    from retry [OF n this] show ?thesis unfolding Retrying by blast
  qed
qed (auto intro: gstep.intros)

end
