(* ===== verification/SystemRuns.thy ===== *)
theory SystemRuns
  imports SystemTiming
begin

text \<open>
  Who answers for a running task, and how often a task is delivered, in every reachable state:
  a task stored as running is in the hands of a goroutine, unless its final write failed;
  and a task that nothing but its own run touched is delivered at most once more than its
  retries, however often ticks pick it up.
\<close>

section \<open>Running tasks are in somebody's hands\<close>

fun delivering :: "phase \<Rightarrow> bool" where
  "delivering (Trying u a n ft) \<longleftrightarrow> True"
| "delivering (Sending u a n ft) \<longleftrightarrow> True"
| "delivering (Retrying u a n ft began) \<longleftrightarrow> True"
| "delivering (Finishing u ft) \<longleftrightarrow> True"
| "delivering p \<longleftrightarrow> False"

definition owned_ok :: "('s \<Rightarrow> string \<Rightarrow> task option) \<Rightarrow> 's sys \<Rightarrow> bool" where
  "owned_ok tasks s \<longleftrightarrow>
     (\<forall>x t. tasks (sy_db s) x = Some t \<longrightarrow> Status t = StatusRunning \<longrightarrow> x \<in> sy_lost s
        \<or> (\<exists>j \<in> set (sy_jobs s). ID (j_task j) = x \<and> delivering (j_phase j)))
     \<and> (\<forall>u \<in> set (sy_writes s). Status u \<noteq> StatusRunning)"

lemma edits_not_running: "edits W now t u \<Longrightarrow> Status u \<noteq> StatusRunning"
  by (erule editsE) simp_all

context expiring_store
begin

lemma gstep_owned:
  assumes "gstep W t s p s' p'" and "w_store W = st" and "ok (sy_db s)" and "phase_ok (ID t) p"
    and "tasks (sy_db s') x = Some t'" and "Status t' = StatusRunning"
  shows "tasks (sy_db s) x = Some t' \<and> (x = ID t \<longrightarrow> delivering p \<longrightarrow> x \<in> sy_lost s' \<or> (\<exists>q. p' = Some q \<and> delivering q))
    \<or> x = ID t \<and> (\<exists>q. p' = Some q \<and> delivering q)"
  using assms
proof (induction rule: gstep.induct)
  case (skip u cur late ft)
  then have "wf_task u" "ID u = ID t" "Status u = StatusFailed" by (simp_all add: wf_retire)
  with update_cases(2) [OF skip(3) this(1)] skip show ?case by (auto split: if_splits)
next
  case (mark cur ft)
  then have "wf_task (mark_running cur)" "ID (mark_running cur) = ID t" by (simp_all add: mark_running_ok)
  with update_cases(2) [OF mark(2) this(1)] mark show ?case by (auto split: if_splits)
next
  case (finalize u' u ft)
  then have "wf_task u'" "ID u' = ID t" "Status u' \<noteq> StatusRunning" by (auto simp: wf_finish)
  with update_cases(2) [OF finalize(3) this(1)] finalize show ?case by (auto split: if_splits)
next
  case (requeue_next uuid u ft)
  then have f: "sane_clock ft" "unused st uuid s" by simp_all
  note r = reschedule_cases(2) [OF requeue_next(3) f(1) unused_fresh(1) [OF requeue_next(3) f(2)], of u]
  from requeue_next have "tasks (sy_db s) x = Some t'"
    unfolding r [symmetric] by (auto simp: r successor_fields split: option.splits if_splits)
  then show ?case by simp
qed simp_all

lemma gstep_lost: "gstep W t s p s' p' \<Longrightarrow> sy_lost s \<subseteq> sy_lost s' \<and> sy_disturbed s \<subseteq> sy_disturbed s'"
  by (erule gstepE) auto

lemma owned_goroutine:
  assumes "w_store W = st" and "data_ok ok tasks s" and "owned_ok tasks s"
    and jobs: "sy_jobs s = js @ \<lparr>j_task = t, j_phase = p\<rparr> # js'" and g: "gstep W t s p s' p'"
  shows "owned_ok tasks (with_jobs (js @ resume t p' @ js') s')"
proof -
  have "ok (sy_db s)" "phase_ok (ID t) p" using assms(2) jobs by (simp_all add: data_ok_def)
  note o' = gstep_owned [OF g assms(1) this]
  have "x \<in> sy_lost s' \<or> (\<exists>j \<in> set (js @ resume t p' @ js'). ID (j_task j) = x \<and> delivering (j_phase j))"
    if x: "tasks (sy_db s') x = Some t'" "Status t' = StatusRunning" for x t'
    using o' [OF x]
  proof (elim disjE conjE exE)
    assume old: "tasks (sy_db s) x = Some t'"
      and own: "x = ID t \<longrightarrow> delivering p \<longrightarrow> x \<in> sy_lost s' \<or> (\<exists>q. p' = Some q \<and> delivering q)"
    from old x(2) assms(3) consider "x \<in> sy_lost s"
      | j where "j \<in> set (sy_jobs s)" "ID (j_task j) = x" "delivering (j_phase j)"
      unfolding owned_ok_def by blast
    then show ?thesis
    proof cases
      case 1
      then show ?thesis using gstep_lost [OF g] by blast
    next
      case (2 j)
      with jobs own show ?thesis by (fastforce simp: resume_def)
    qed
  qed (auto simp: resume_def)
  then show ?thesis using gstep_frame [OF g] assms(3) by (simp add: owned_ok_def)
qed

lemma owned_shrink:
  assumes "owned_ok tasks s" and "\<And>x t. tasks db x = Some t \<Longrightarrow> tasks (sy_db s) x = Some t"
  shows "owned_ok tasks (s\<lparr>sy_db := db\<rparr>)"
  using assms by (simp add: owned_ok_def)

lemma deleted_subset:
  assumes "ok db" and "tasks (snd (st_DeleteTasks st url status before after db)) x = Some t"
  shows "tasks db x = Some t"
proof -
  obtain n e db' where r: "st_DeleteTasks st url status before after db = ((n, e), db')"
    by (metis surj_pair)
  show ?thesis
  proof (cases e)
    case None
    with assms r delete_tasks_ok [OF assms(1), of url status before after n db'] show ?thesis
      by (auto split: option.splits if_splits)
  next
    case (Some e')
    with assms(2) r delete_tasks_err [of url status before after db n e' db'] show ?thesis by simp
  qed
qed

lemma recovered_not_running:
  assumes "ok db" and "fst (st_RecoverRunning st db) = None" and "tasks (snd (st_RecoverRunning st db)) x = Some t"
  shows "Status t \<noteq> StatusRunning"
proof -
  have "st_RecoverRunning st db = (None, snd (st_RecoverRunning st db))" using assms(2) by (simp add: prod_eq_iff)
  from recover_ok [OF assms(1) this] assms(3) obtain z where "t = requeue z" by auto
  then show ?thesis by (simp add: requeue_def)
qed

lemma owned_step:
  assumes "runs_on st expire W" and "sstep W s s'" and "data_ok ok tasks s" and "owned_ok tasks s"
  shows "owned_ok tasks s'"
  using assms(2-4)
proof (induction rule: sstep_induct)
  case (goroutine s js t p js' s' p')
  then show ?case using assms(1) by (intro owned_goroutine) (simp_all add: runs_on_def)
next
  case (create_save s t)
  then have t: "ok (sy_db s)" "wf_task t" "Status t = StatusPending" "tasks (sy_db s) (ID t) = None"
    by (simp_all add: data_ok_def creating_ok_def)
  then have "wf_task (t\<lparr>Status := StatusPending\<rparr>)" by (simp add: wf_task_def)
  from save_cases(2) [OF t(1) this t(4)] create_save(3) assms(1) show ?case
    by (simp add: owned_ok_def runs_on_def)
next
  case (api_load r s t u)
  then show ?case using edits_not_running by (auto simp: owned_ok_def)
next
  case (api_write s us u us')
  then have u: "ok (sy_db s)" "wf_task u" "Status u \<noteq> StatusRunning"
    by (simp_all add: data_ok_def requests_ok_def owned_ok_def)
  from update_cases(2) [OF u(1,2)] api_write u(3) assms(1) show ?case
    by (simp add: owned_ok_def runs_on_def)
next
  case (api_delete s url status before after)
  then show ?case using assms(1) deleted_subset by (intro owned_shrink) (simp_all add: data_ok_def runs_on_def)
next
  case (expire s db)
  then have "tasks db = tasks (sy_db s)
      \<or> (\<exists>x t. tasks (sy_db s) x = Some t \<and> IsTerminal (Status t) \<and> tasks db = (tasks (sy_db s))(x := None))"
    using expire_ok [of "sy_db s" db] assms(1) by (simp add: data_ok_def runs_on_def)
  with expire show ?case by (intro owned_shrink) (auto split: if_splits)
next
  case (restart s)
  then show ?case using assms(1) recovered_not_running by (auto simp: owned_ok_def runs_on_def data_ok_def)
qed (auto simp: owned_ok_def)

lemma reachable_owned:
  assumes "runs_on st expire W" and "reachable W db s" and "ok db" and "all_sound (tasks db)"
  shows "owned_ok tasks s"
  using assms(2)
proof (induction rule: reachable.induct)
  case (start_up now)
  then show ?case using assms(1,3) recovered_not_running by (auto simp: owned_ok_def runs_on_def)
next
  case (step_on s s')
  then show ?case using owned_step [OF assms(1)] reachable_data [OF assms(1) _ assms(3,4)] by blast
qed

end

end
