(* ===== verification/SystemBound.thy ===== *)
theory SystemBound
  imports SystemRuns
begin

text \<open>
  How often a task is delivered. As long as nothing but its own run writes to a task (no
  request, no failed write, no restart), the deliveries of its id are at most its retries and
  one, over all ticks and goroutines.
\<close>

section \<open>The count and what a goroutine adds to it\<close>

definition deliveries :: "string \<Rightarrow> (time \<times> time \<times> task) list \<Rightarrow> nat" where
  "deliveries x l = length (filter (\<lambda>(at, ft, u). ID u = x) l)"

text \<open>No delivery yet, or all there will be: the stored task is no longer pending.\<close>

definition spent :: "go_int \<Rightarrow> nat \<Rightarrow> task option \<Rightarrow> bool" where
  "spent R n t \<longleftrightarrow> n = 0 \<or> n \<le> Suc (nat (sint R)) \<and> (\<forall>u. t = Some u \<longrightarrow> Status u \<noteq> StatusPending)"

fun phase_bound :: "go_int \<Rightarrow> nat \<Rightarrow> task option \<Rightarrow> phase \<Rightarrow> bool" where
  "phase_bound R n t (Skipping u late ft) \<longleftrightarrow> n = 0 \<and> Retries u = R"
| "phase_bound R n t (Marking u ft) \<longleftrightarrow> n = 0 \<and> Retries u = R"
| "phase_bound R n t (Trying u a k ft) \<longleftrightarrow> n + tries_left a \<le> nat (sint R) \<and> Retries u = R"
| "phase_bound R n t (Sending u a k ft) \<longleftrightarrow> n + tries_left a \<le> Suc (nat (sint R)) \<and> Retries u = R"
| "phase_bound R n t (Retrying u a k ft began) \<longleftrightarrow> n + tries_left a \<le> Suc (nat (sint R)) \<and> Retries u = R"
| "phase_bound R n t (Finishing u ft) \<longleftrightarrow> n \<le> Suc (nat (sint R)) \<and> Retries u = R"
| "phase_bound R n t p \<longleftrightarrow> spent R n t"

text \<open>The state as seen from the id \<open>x\<close>, with \<open>R\<close> the retries of its task.\<close>

definition agrees :: "go_int \<Rightarrow> string \<Rightarrow> (time \<times> time \<times> task) list \<Rightarrow> task option \<Rightarrow> bool" where
  "agrees R x l t \<longleftrightarrow> (\<forall>(at, ft, u) \<in> set l. ID u = x \<longrightarrow> Retries u = R) \<and> (\<forall>u. t = Some u \<longrightarrow> Retries u = R)"

definition runs_ok :: "go_int \<Rightarrow> ('s \<Rightarrow> string \<Rightarrow> task option) \<Rightarrow> 's sys \<Rightarrow> string \<Rightarrow> bool" where
  "runs_ok R tasks s x \<longleftrightarrow> agrees R x (sy_log s) (tasks (sy_db s) x)
     \<and> (\<forall>j \<in> set (sy_jobs s). ID (j_task j) = x \<longrightarrow>
          phase_bound R (deliveries x (sy_log s)) (tasks (sy_db s) x) (j_phase j))
     \<and> (x \<notin> set (held (sy_jobs s)) \<longrightarrow> spent R (deliveries x (sy_log s)) (tasks (sy_db s) x))"

definition bounded_ok :: "('s \<Rightarrow> string \<Rightarrow> task option) \<Rightarrow> 's sys \<Rightarrow> bool" where
  "bounded_ok tasks s \<longleftrightarrow> (\<forall>x. x \<notin> sy_disturbed s \<longrightarrow> (\<exists>R. runs_ok R tasks s x))
     \<and> (\<forall>t. sy_creating s = Some t \<longrightarrow> deliveries (ID t) (sy_log s) = 0)"

lemma deliveries_simps [simp]:
  "deliveries x [] = 0"
  "deliveries x (l @ [(at, ft, u)]) = deliveries x l + (if ID u = x then 1 else 0)"
  by (simp_all add: deliveries_def)

lemma deliveries_0: "deliveries x l = 0 \<longleftrightarrow> x \<notin> ID ` (snd \<circ> snd) ` set l"
  by (force simp: deliveries_def filter_empty_conv)

lemma agrees_snoc [simp]:
  "agrees R x (l @ [(at, ft, u)]) t \<longleftrightarrow> agrees R x l t \<and> (ID u = x \<longrightarrow> Retries u = R)"
  by (auto simp: agrees_def)

lemma agrees_task: "agrees R x l t \<Longrightarrow> (\<And>u. t' = Some u \<Longrightarrow> Retries u = R) \<Longrightarrow> agrees R x l t'"
  by (simp add: agrees_def)

lemma agrees_unknown: "deliveries x l = 0 \<Longrightarrow> (\<And>u. t = Some u \<Longrightarrow> Retries u = R) \<Longrightarrow> agrees R x l t"
  unfolding deliveries_0 agrees_def by force

lemma spent_drop: "spent R n t \<Longrightarrow> (\<And>u. t' = Some u \<Longrightarrow> t = Some u) \<Longrightarrow> spent R n t'"
  by (auto simp: spent_def)

lemma phase_bound_drop:
  "phase_bound R n t p \<Longrightarrow> (\<And>u. t' = Some u \<Longrightarrow> t = Some u) \<Longrightarrow> phase_bound R n t' p"
  by (cases p) (auto intro: spent_drop)

text \<open>Tasks that go do not change the picture.\<close>

lemma runs_drop:
  assumes "runs_ok R tasks s x" and "\<And>u. tasks db x = Some u \<Longrightarrow> tasks (sy_db s) x = Some u"
  shows "runs_ok R tasks (s\<lparr>sy_db := db\<rparr>) x"
  using assms phase_bound_drop spent_drop
  unfolding runs_ok_def agrees_def by (simp) blast

lemma runs_unknown:
  assumes "deliveries x (sy_log s) = 0" and "x \<notin> set (held (sy_jobs s))"
  shows "\<exists>R. runs_ok R tasks s x"
proof -
  obtain R where R: "\<And>u. tasks (sy_db s) x = Some u \<Longrightarrow> Retries u = R"
    by (cases "tasks (sy_db s) x") auto
  have "x \<noteq> ID (j_task j)" if "j \<in> set (sy_jobs s)" for j using assms(2) that by (auto simp: held_def)
  then have "runs_ok R tasks s x"
    using assms agrees_unknown [OF assms(1) R] by (auto simp: runs_ok_def spent_def)
  then show ?thesis ..
qed

lemma runs_le:
  assumes "runs_ok R tasks s x"
  shows "deliveries x (sy_log s) \<le> Suc (nat (sint R))"
proof (cases "x \<in> set (held (sy_jobs s))")
  case True
  then obtain j where "j \<in> set (sy_jobs s)" "ID (j_task j) = x" by (auto simp: held_def)
  with assms have "phase_bound R (deliveries x (sy_log s)) (tasks (sy_db s) x) (j_phase j)"
    by (simp add: runs_ok_def)
  then show ?thesis by (cases "j_phase j") (auto simp: spent_def)
next
  case False
  with assms show ?thesis by (auto simp: runs_ok_def spent_def)
qed

context expiring_store
begin

lemma gstep_bound:
  assumes "gstep W t s p s' p'" and "w_store W = st" and "ok (sy_db s)" and "colon \<notin> set (ID t)"
    and "phase_ok (ID t) p" and "ID t \<notin> sy_disturbed s'" and "ID t \<in> known_ids s"
    and "agrees R (ID t) (sy_log s) (tasks (sy_db s) (ID t))"
    and "phase_bound R (deliveries (ID t) (sy_log s)) (tasks (sy_db s) (ID t)) p"
  shows "agrees R (ID t) (sy_log s') (tasks (sy_db s') (ID t))
    \<and> (case p' of None \<Rightarrow> spent R (deliveries (ID t) (sy_log s')) (tasks (sy_db s') (ID t))
       | Some q \<Rightarrow> phase_bound R (deliveries (ID t) (sy_log s')) (tasks (sy_db s') (ID t)) q)"
  using assms
proof (induction rule: gstep.induct)
  case (too_late ft cur late)
  then have "recheck st (w_cfg W) t ft (sy_db s) = Skip cur late" by simp
  note r = recheck_cases [OF too_late(3,4) disjI2 [OF this]]
  with too_late show ?case by (auto simp: spent_def agrees_def)
next
  case (on_time ft cur late)
  then have "recheck st (w_cfg W) t ft (sy_db s) = Fire cur late" by simp
  note r = recheck_cases [OF on_time(3,4) disjI1 [OF this]]
  with on_time show ?case by (auto simp: spent_def agrees_def)
next
  case (skip u cur late ft)
  then have u: "wf_task u" "ID u = ID t" "Retries u = R" by (simp_all add: wf_retire)
  from skip u have "fst (st_Update st u (sy_db s)) = None" by (auto split: if_splits)
  with update_cases(2) [OF skip(3) u(1)] skip u show ?case
    by (auto simp: spent_def intro: agrees_task)
next
  case (mark cur ft)
  then have u: "wf_task (mark_running cur)" "ID (mark_running cur) = ID t" by (simp_all add: mark_running_ok)
  from mark u have "fst (st_Update st (mark_running cur) (sy_db s)) = None" by (auto split: if_splits)
  with update_cases(2) [OF mark(2) u(1)] mark u show ?case
    by (auto simp: tries_left_newAttempt mark_running_ok intro: agrees_task)
next
  case (finalize u' u ft)
  then have u: "wf_task u'" "ID u' = ID t" "Retries u' = R" "Status u' = Status u" by (simp_all add: wf_finish)
  from finalize u have "fst (st_Update st u' (sy_db s)) = None" by (auto split: if_splits)
  with update_cases(2) [OF finalize(3) u(1)] finalize u show ?case
    by (auto simp: spent_def intro: agrees_task)
next
  case (requeue_next uuid u ft)
  then have f: "sane_clock ft" "unused st uuid s" by simp_all
  note e = unused_fresh [OF requeue_next(3) f(2)]
  then have "uuid \<noteq> ID t" using requeue_next by blast
  then have "tasks (reschedule st u ft uuid (sy_db s)) (ID t) = tasks (sy_db s) (ID t)"
    using reschedule_cases(2) [OF requeue_next(3) f(1) e(1), of u] by (simp split: option.split)
  with requeue_next show ?case by simp
next
  case (retry rnd began a a' slept u n ft)
  with next_try_Some(6) [OF retry(1)] show ?case by simp
qed auto

lemma held_mem: "j \<in> set js \<Longrightarrow> ID (j_task j) \<in> set (held js)"
  by (simp add: held_def)

lemma gstep_log: "gstep W t s p s' p' \<Longrightarrow> phase_ok (ID t) p \<Longrightarrow>
    (\<forall>x. x \<noteq> ID t \<longrightarrow> deliveries x (sy_log s') = deliveries x (sy_log s)
      \<and> (\<forall>R m. agrees R x (sy_log s') m = agrees R x (sy_log s) m))"
  by (erule gstepE) auto

text \<open>A goroutine's step as seen from another id.\<close>

lemma bound_other:
  assumes "runs_ok R tasks s x" and "x \<noteq> ID t" and "distinct (held (sy_jobs s))"
    and jobs: "sy_jobs s = js @ \<lparr>j_task = t, j_phase = p\<rparr> # js'"
    and g: "gstep W t s p s' p'" and "phase_ok (ID t) p"
    and "grows s (ID t) (tasks (sy_db s)) (tasks (sy_db s'))"
  shows "\<exists>R. runs_ok R tasks (with_jobs (js @ resume t p' @ js') s') x"
proof (cases "x \<in> known_ids s")
  case True
  with assms(2,7) have eq: "tasks (sy_db s') x = tasks (sy_db s) x" by (auto simp: grows_def)
  note l = gstep_log [OF g assms(6), rule_format, OF assms(2)]
  have "runs_ok R tasks (with_jobs (js @ resume t p' @ js') s') x"
    using assms(1,2) l unfolding runs_ok_def jobs with_jobs_simps eq
    by (auto simp: resume_def split: option.splits)
  then show ?thesis ..
next
  case False
  then have "deliveries x (sy_log s) = 0" "x \<notin> set (held (sy_jobs s))"
    by (auto simp: deliveries_0 known_ids_def held_def image_iff)
  moreover have "deliveries x (sy_log s') = deliveries x (sy_log s)"
    using gstep_log [OF g assms(6)] assms(2) by blast
  ultimately show ?thesis using assms(2) jobs by (intro runs_unknown) (auto split: option.splits)
qed

lemma bound_goroutine:
  assumes "w_store W = st" and "claims_ok W s" and "data_ok ok tasks s" and "bounded_ok tasks s"
    and jobs: "sy_jobs s = js @ \<lparr>j_task = t, j_phase = p\<rparr> # js'" and g: "gstep W t s p s' p'"
  shows "bounded_ok tasks (with_jobs (js @ resume t p' @ js') s')"
proof -
  have d: "ok (sy_db s)" "all_sound (tasks (sy_db s))" "sane_clock (sy_now s)"
    "colon \<notin> set (ID t)" "phase_ok (ID t) p"
    using assms(3) jobs by (simp_all add: data_ok_def)
  have dist: "distinct (held (sy_jobs s))" using assms(2) by (simp add: claims_ok_def)
  have mono: "sy_disturbed s \<subseteq> sy_disturbed s'" using gstep_lost [OF g] by blast
  have grow: "grows s (ID t) (tasks (sy_db s)) (tasks (sy_db s'))"
    using gstep_data [OF g assms(1) d] by blast
  have "\<exists>R. runs_ok R tasks (with_jobs (js @ resume t p' @ js') s') x" if x: "x \<notin> sy_disturbed s'" for x
  proof -
    obtain R where R: "runs_ok R tasks s x" using x mono assms(4) unfolding bounded_ok_def by blast
    show ?thesis
    proof (cases "x = ID t")
      case False
      show ?thesis by (rule bound_other [OF R False dist jobs g d(5) grow])
    next
      case True
      have k: "ID t \<in> known_ids s" using jobs by (auto simp: known_ids_def)
      have b: "agrees R (ID t) (sy_log s) (tasks (sy_db s) (ID t))"
        "phase_bound R (deliveries (ID t) (sy_log s)) (tasks (sy_db s) (ID t)) p"
        using R jobs unfolding True runs_ok_def by auto
      note e = gstep_bound [OF g assms(1) d(1,4,5) x [unfolded True] k b]
      have "\<forall>j \<in> set (js @ js'). ID (j_task j) \<noteq> ID t" using dist jobs held_mem by fastforce
      then have "runs_ok R tasks (with_jobs (js @ resume t p' @ js') s') x"
        using e unfolding True runs_ok_def by (auto simp: resume_def held_def split: option.splits)
      then show ?thesis ..
    qed
  qed
  moreover have "deliveries (ID u) (sy_log s') = 0" if u: "sy_creating s' = Some u" for u
  proof -
    have "sy_creating s = Some u" using gstep_frame [OF g] u by simp
    moreover from this have "ID u \<noteq> ID t" using assms(3) jobs by (auto simp: data_ok_def creating_ok_def)
    ultimately show ?thesis using gstep_log [OF g d(5)] assms(4) by (auto simp: bounded_ok_def)
  qed
  ultimately show ?thesis by (simp add: bounded_ok_def)
qed

lemma runs_same:
  assumes "runs_ok R tasks s x" and "sy_log s' = sy_log s" and "sy_jobs s' = sy_jobs s"
    and "\<And>u. tasks (sy_db s') x = Some u \<Longrightarrow> tasks (sy_db s) x = Some u"
  shows "runs_ok R tasks s' x"
  using assms phase_bound_drop spent_drop unfolding runs_ok_def agrees_def by simp blast

lemma bounded_same:
  assumes "bounded_ok tasks s" and "sy_log s' = sy_log s" and "sy_jobs s' = sy_jobs s"
    and "sy_disturbed s \<subseteq> sy_disturbed s'"
    and "\<And>x u. x \<notin> sy_disturbed s' \<Longrightarrow> tasks (sy_db s') x = Some u \<Longrightarrow> tasks (sy_db s) x = Some u"
    and "\<And>t. sy_creating s' = Some t \<Longrightarrow> sy_creating s = Some t \<or> deliveries (ID t) (sy_log s) = 0"
  shows "bounded_ok tasks s'"
  unfolding bounded_ok_def
proof (intro conjI allI impI)
  fix x assume x: "x \<notin> sy_disturbed s'"
  then obtain R where "runs_ok R tasks s x" using assms(1,4) unfolding bounded_ok_def by blast
  from runs_same [OF this assms(2,3)] assms(5) x show "\<exists>R. runs_ok R tasks s' x" by blast
qed (use assms(1,2,6) in \<open>auto simp: bounded_ok_def\<close>)

lemma bounded_step:
  assumes "runs_on st expire W" and "sstep W s s'" and "claims_ok W s" and "data_ok ok tasks s"
    and "bounded_ok tasks s"
  shows "bounded_ok tasks s'"
  using assms(2-5)
proof (induction rule: sstep_induct)
  case (goroutine s js t p js' s' p')
  then show ?case using assms(1) by (intro bound_goroutine) (simp_all add: runs_on_def)
next
  case (claim_next s t ts new)
  then have new: "ID t \<notin> set (held (sy_jobs s))" by (auto simp: claim_def claims_ok_def split: if_splits)
  let ?s' = "s\<lparr>sy_due := ts, sy_inflight := new, sy_jobs := sy_jobs s @ [\<lparr>j_task = t, j_phase = Claimed\<rparr>]\<rparr>"
  have "runs_ok R tasks ?s' x" if "runs_ok R tasks s x" for R x
    using that new by (auto simp: runs_ok_def)
  then have "\<exists>R. runs_ok R tasks ?s' x" if "x \<notin> sy_disturbed s" for x
    using claim_next(5) that unfolding bounded_ok_def by blast
  with claim_next(5) show ?case by (simp add: bounded_ok_def)
next
  case (create_begin s uuid asked r req at key)
  then have "deliveries uuid (sy_log s) = 0" by (auto simp: unused_def known_ids_def deliveries_0)
  then show ?case by (intro bounded_same [OF create_begin(8)]) auto
next
  case (create_save s t)
  then have t: "ok (sy_db s)" "wf_task (t\<lparr>Status := StatusPending\<rparr>)" "tasks (sy_db s) (ID t) = None"
    "deliveries (ID t) (sy_log s) = 0" "ID t \<notin> set (held (sy_jobs s))"
    by (auto simp: data_ok_def creating_ok_def bounded_ok_def held_def wf_task_def)
  let ?s' = "s\<lparr>sy_db := snd (st_Save st t (sy_db s)), sy_creating := None\<rparr>"
  have "\<exists>R. runs_ok R tasks ?s' x" if x: "x \<notin> sy_disturbed s" for x
  proof (cases "x = ID t")
    case True
    then show ?thesis using t by (intro runs_unknown) simp_all
  next
    case False
    then have "tasks (sy_db ?s') x = tasks (sy_db s) x" using save_cases(2) [OF t(1-3)] by simp
    moreover from create_save(4) x have "\<exists>R. runs_ok R tasks s x" by (simp add: bounded_ok_def)
    ultimately show ?thesis using runs_same [of _ s x ?s'] by auto
  qed
  with assms(1) show ?case by (simp add: bounded_ok_def runs_on_def)
next
  case (api_write s us u us')
  then have u: "ok (sy_db s)" "wf_task u" by (simp_all add: data_ok_def requests_ok_def)
  have "tasks (sy_db s) x = Some v" if "x \<noteq> ID u" "tasks (snd (st_Update st u (sy_db s))) x = Some v" for x v
    using update_cases(2) [OF u] that by (simp split: if_splits)
  moreover have "w_store W = st" using assms(1) by (simp add: runs_on_def)
  ultimately show ?case by (intro bounded_same [OF api_write(4)]) auto
next
  case (api_delete s url status before after)
  then have "ok (sy_db s)" "w_store W = st" using assms(1) by (simp_all add: data_ok_def runs_on_def)
  then show ?case using deleted_subset by (intro bounded_same [OF api_delete(3)]) auto
next
  case (expire s db)
  then have "tasks db = tasks (sy_db s)
      \<or> (\<exists>x t. tasks (sy_db s) x = Some t \<and> IsTerminal (Status t) \<and> tasks db = (tasks (sy_db s))(x := None))"
    using expire_ok [of "sy_db s" db] assms(1) by (simp add: data_ok_def runs_on_def)
  then show ?case by (intro bounded_same [OF expire(4)]) (auto split: if_splits)
next
  case (restart s)
  show ?case by (simp add: bounded_ok_def)
qed (rule bounded_same, assumption, simp_all)+

lemma reachable_bounded:
  assumes "runs_on st expire W" and "reachable W db s" and "ok db" and "all_sound (tasks db)"
  shows "bounded_ok tasks s"
  using assms(2)
proof (induction rule: reachable.induct)
  case (start_up now)
  have "\<exists>R. runs_ok R tasks (boot (w_store W) (started now db)) x" for x
    by (rule runs_unknown) simp_all
  then show ?case by (simp add: bounded_ok_def)
next
  case (step_on s s')
  show ?case
    by (rule bounded_step [OF assms(1) step_on(2) reachable_claims [OF step_on(1)]
          reachable_data [OF assms(1) step_on(1) assms(3,4)] step_on(3)])
qed

end

end
