(* ===== verification/SystemAlone.thy ===== *)
theory SystemAlone
  imports SystemTiming
begin

text \<open>
  The goroutine of the process model against the sequential reading of its body: when nothing
  but the clock moves between its steps, what a goroutine does from its delivery slot to its
  return is exactly \<open>run_task\<close>, for the answers, random numbers, times and UUID it met. So
  what theory \<open>RunnerTheorems\<close> proves of \<open>run_task\<close> holds of every undisturbed delivery
  of the running process.
\<close>

section \<open>A run of one goroutine\<close>

inductive alone :: "'s world \<Rightarrow> job list \<Rightarrow> task \<Rightarrow> job list \<Rightarrow> 's sys \<Rightarrow> phase \<Rightarrow> 's sys \<Rightarrow> bool"
  for W js t js'
where
  returns: "gstep W t s p s1 None \<Longrightarrow> alone W js t js' s p (with_jobs (js @ js') s1)"
| moves: "gstep W t s p s1 (Some q) \<Longrightarrow>
    alone W js t js' (with_jobs (js @ \<lparr>j_task = t, j_phase = q\<rparr> # js') s1) q s' \<Longrightarrow> alone W js t js' s p s'"
| waits: "sy_now s \<le> now \<Longrightarrow> sane_clock now \<Longrightarrow> alone W js t js' (s\<lparr>sy_now := now\<rparr>) p s' \<Longrightarrow>
    alone W js t js' s p s'"

lemma calls_simps [simp]:
  "sy_calls (set_db db s) = sy_calls s" "sy_calls (observe_with f s) = sy_calls s"
  "sy_calls (let_go x s) = sy_calls s" "sy_calls (take_slot s) = sy_calls s"
  "sy_calls (free_slot s) = sy_calls s" "sy_calls (sent ft u s) = sy_calls s"
  "sy_calls (observe_try res s) = sy_calls s" "sy_calls (update_own st final u s) = sy_calls s"
  by (simp_all add: set_db_def observe_with_def let_go_def take_slot_def free_slot_def sent_def
      observe_try_def update_own_def split: prod.split option.split)

lemma with_jobs_calls [simp]: "sy_calls (with_jobs js s) = sy_calls s"
  by (simp add: with_jobs_def)

lemma alone_clock: "alone W js t js' s p s' \<Longrightarrow> sy_now s \<le> sy_now s'"
proof (induction rule: alone.induct)
  case (returns s p s1)
  then show ?case using gstep_frame by fastforce
next
  case (moves s p s1 q s')
  then show ?case using gstep_frame by fastforce
qed simp

text \<open>Such a run is a run of the process.\<close>

lemma alone_steps:
  "alone W js t js' s p s' \<Longrightarrow> sy_jobs s = js @ \<lparr>j_task = t, j_phase = p\<rparr> # js' \<Longrightarrow>
    (sstep W)\<^sup>*\<^sup>* s s' \<and> sy_jobs s' = js @ js'"
proof (induction rule: alone.induct)
  case (returns s p s1)
  from goroutine [OF returns(2,1)] show ?case by (auto simp: resume_def)
next
  case (moves s p s1 q s')
  have "sstep W s (with_jobs (js @ \<lparr>j_task = t, j_phase = q\<rparr> # js') s1)"
    using goroutine [OF moves(4,1)] by (simp add: resume_def)
  with moves(3) show ?case by (auto intro: converse_rtranclp_into_rtranclp)
next
  case (waits s now p s')
  with clock [OF waits(1,2)] show ?case by (auto intro: converse_rtranclp_into_rtranclp)
qed

section \<open>What is left to do at each point\<close>

definition call_of :: "runner_cfg \<Rightarrow> task \<Rightarrow> task list" where
  "call_of cfg u = (case notifyFailure cfg u of None \<Rightarrow> [] | Some c \<Rightarrow> [c])"

text \<open>From \<open>s\<close> to \<open>s'\<close> these tasks were delivered, these callbacks made, and store and counters became these.\<close>

definition did :: "'s sys \<Rightarrow> 's sys \<Rightarrow> task list \<Rightarrow> task list \<Rightarrow> 's \<Rightarrow> metrics \<Rightarrow> bool" where
  "did s s' outs calls db m \<longleftrightarrow>
     map (snd \<circ> snd) (sy_log s') = map (snd \<circ> snd) (sy_log s) @ outs \<and> sy_calls s' = sy_calls s @ calls
     \<and> sy_db s' = db \<and> sy_metrics s' = InflightAdd (- 1) m \<and> sy_slots s' = sy_slots s - 1"

text \<open>The end of a delivery whose loop left \<open>u\<close> and \<open>m\<close>.\<close>

definition did_finish :: "'s world \<Rightarrow> 's sys \<Rightarrow> 's sys \<Rightarrow> time \<Rightarrow> task \<Rightarrow> task list \<Rightarrow> metrics \<Rightarrow> 's \<Rightarrow> bool" where
  "did_finish W s s' ft u outs m db \<longleftrightarrow> (\<exists>fin uuid. sy_now s \<le> fin \<and> fin \<le> sy_now s' \<and>
     (let u' = finish fin u
      in did s s' outs (if Status u' = StatusFailed then call_of (w_cfg W) u' else [])
        (reschedule (w_store W) u' ft uuid (snd (st_Update (w_store W) u' db)))
        (ObserveTaskFinished (Status u = StatusSucceeded) m)))"

text \<open>The rest of the delivery loop after an attempt that failed.\<close>

definition retry_from ::
  "(nat \<Rightarrow> round) \<Rightarrow> nat \<Rightarrow> (int \<Rightarrow> int) \<Rightarrow> time \<Rightarrow> time \<Rightarrow> go_int \<Rightarrow> task \<Rightarrow> attempt \<Rightarrow> metrics
    \<Rightarrow> task \<times> task list \<times> metrics"
where
  "retry_from env k rnd began woken n u a m =
     (case next_try rnd began woken a of
        None \<Rightarrow> (u\<lparr>Status := StatusFailed\<rparr>, [], m)
      | Some (a', slept) \<Rightarrow> deliver_loop env k n u a' m)"

lemma deliver_loop_round:
  "deliver_loop env k n u a m =
    (let r = env k; res = rd_exec r u; u1 = tried (rd_fired r) res n u;
         m1 = ObserveDelivery (ResDuration res) (ResErr res = None) m
     in if ResErr res = None then (u1\<lparr>Status := StatusSucceeded\<rparr>, [u], m1)
        else case retry_from env (Suc k) (rd_rand r) (rd_now r) (rd_woken r) (n + 1) u1 (hinted res a) m1 of
          (u2, outs, m2) \<Rightarrow> (u2, u # outs, m2))"
  by (simp add: deliver_loop.simps [of env k] retry_from_def Let_def tried_def hinted_def split: option.split)

text \<open>The body of \<open>run_task\<close> without the gauge.\<close>

definition run_body ::
  "'s Store \<Rightarrow> runner_cfg \<Rightarrow> (nat \<Rightarrow> round) \<Rightarrow> task \<Rightarrow> time \<Rightarrow> time \<Rightarrow> string
    \<Rightarrow> 's \<Rightarrow> metrics \<Rightarrow> task list \<times> 's \<times> metrics"
where
  "run_body st cfg env t ft fin uuid s m =
     (case recheck st cfg t ft s of
        Drop \<Rightarrow> ([], s, m)
      | Skip cur late \<Rightarrow> skipStale st cfg cur late ft uuid s m
      | Fire cur late \<Rightarrow> deliver st cfg env cur late ft fin uuid s m)"

lemma run_task_body:
  "run_body st cfg env t ft fin uuid s (InflightAdd 1 m) = (outs, s', m') \<Longrightarrow>
    run_task st cfg env t ft fin uuid s m = (outs, s', InflightAdd (- 1) m')"
  by (simp add: run_task_def run_body_def)

fun ends :: "'s world \<Rightarrow> task \<Rightarrow> 's sys \<Rightarrow> 's sys \<Rightarrow> phase \<Rightarrow> bool" where
  "ends W t s s' Leaving \<longleftrightarrow> did s s' [] [] (sy_db s) (sy_metrics s)"
| "ends W t s s' (Requeueing u ft) \<longleftrightarrow>
     (\<exists>uuid. did s s' [] [] (reschedule (w_store W) u ft uuid (sy_db s)) (sy_metrics s))"
| "ends W t s s' (Notifying u ft) \<longleftrightarrow>
     (\<exists>uuid. did s s' [] (call_of (w_cfg W) u) (reschedule (w_store W) u ft uuid (sy_db s)) (sy_metrics s))"
| "ends W t s s' (Finishing u ft) \<longleftrightarrow> did_finish W s s' ft u [] (sy_metrics s) (sy_db s)"
| "ends W t s s' (Retrying u a n ft began) \<longleftrightarrow>
     (\<exists>rnd woken env u1 outs m.
        retry_from env 0 rnd began woken n u a (sy_metrics s) = (u1, outs, m)
        \<and> did_finish W s s' ft u1 outs m (sy_db s))"
| "ends W t s s' (Sending u a n ft) \<longleftrightarrow>
     (\<exists>env u1 outs m. deliver_loop env 0 n u a (sy_metrics s) = (u1, u # outs, m)
        \<and> did_finish W s s' ft u1 outs m (sy_db s))"
| "ends W t s s' (Trying u a n ft) \<longleftrightarrow>
     (\<exists>env u1 outs m. deliver_loop env 0 n u a (sy_metrics s) = (u1, outs, m)
        \<and> did_finish W s s' ft u1 outs m (sy_db s))"
| "ends W t s s' (Marking cur ft) \<longleftrightarrow>
     (\<exists>env u1 outs m. deliver_loop env 0 (of_nat (length (Attempts cur))) (mark_running cur)
          (newAttempt (Retries cur) (RetryInterval cur) (RetryMode cur)) (sy_metrics s) = (u1, outs, m)
        \<and> did_finish W s s' ft u1 outs m (snd (st_Update (w_store W) (mark_running cur) (sy_db s))))"
| "ends W t s s' (Skipping cur late ft) \<longleftrightarrow>
     (\<exists>uuid. let u = retire_stale (w_cfg W) cur late ft
       in did s s' [] (call_of (w_cfg W) u)
         (reschedule (w_store W) u ft uuid (snd (st_Update (w_store W) u (sy_db s))))
         (ObserveTaskFinished False (ObserveSkipped (sy_metrics s))))"
| "ends W t s s' (Stamped ft) \<longleftrightarrow>
     (\<exists>env fin uuid outs calls db m. sy_now s \<le> fin \<and> fin \<le> sy_now s'
        \<and> run_body (w_store W) (w_cfg W) env t ft fin uuid (sy_db s) (sy_metrics s) = (outs @ calls, db, m)
        \<and> did s s' outs calls db m)"
| "ends W t s s' Slotted \<longleftrightarrow>
     (\<exists>env ft fin uuid outs calls db m. sy_now s \<le> ft \<and> ft \<le> fin \<and> fin \<le> sy_now s'
        \<and> run_body (w_store W) (w_cfg W) env t ft fin uuid (sy_db s) (sy_metrics s) = (outs @ calls, db, m)
        \<and> did s s' outs calls db m)"
| "ends W t s s' p \<longleftrightarrow> True"

lemma did_wait [simp]: "did (s\<lparr>sy_now := now\<rparr>) s' outs calls db m = did s s' outs calls db m"
  by (simp add: did_def)

lemma did_from_jobs [simp]: "did (with_jobs js s) s' outs calls db m = did s s' outs calls db m"
  by (simp add: did_def)

lemma did_finish_later:
  "did_finish W s1 s' ft u outs m db \<Longrightarrow> sy_now s \<le> sy_now s1 \<Longrightarrow>
    (\<And>cs d m'. did s1 s' outs cs d m' \<Longrightarrow> did s s' outs' cs d m') \<Longrightarrow> did_finish W s s' ft u outs' m db"
  unfolding did_finish_def Let_def by (meson order_trans)

lemma ends_wait:
  assumes "sy_now s \<le> now" and "ends W t (s\<lparr>sy_now := now\<rparr>) s' p"
  shows "ends W t s s' p"
proof -
  have f: "did_finish W s s' ft u outs m db" if "did_finish W (s\<lparr>sy_now := now\<rparr>) s' ft u outs m db" for ft u outs m db
    using assms(1) by (intro did_finish_later [OF that]) simp_all
  show ?thesis
  proof (cases p)
    case (Stamped ft)
    with assms show ?thesis by simp (meson order_trans)
  next
    case Slotted
    with assms show ?thesis by simp (meson order_trans)
  next
    case (Retrying u a n ft began)
    with assms(2) f show ?thesis by simp blast
  qed (use assms(2) in \<open>auto dest!: f\<close>)
qed

lemma did_finish_jobs [simp]: "did_finish W (with_jobs js s) s' ft u outs m db = did_finish W s s' ft u outs m db"
  by (simp add: did_finish_def)

lemma ends_jobs [simp]: "ends W t (with_jobs js s) s' p = ends W t s s' p"
  by (cases p) simp_all

section \<open>Every step does its part\<close>

text \<open>The rounds of the loop, from the second on.\<close>

lemma deliver_loop_tail:
  "deliver_loop (case_nat r env) (Suc k) n t a m = deliver_loop env k n t a m"
proof (induction env k n t a m rule: deliver_loop.induct)
  case (1 env k n t a m)
  show ?case
    unfolding deliver_loop.simps [of "case_nat r env" "Suc k"] deliver_loop.simps [of env k]
    using 1 by (auto simp: Let_def split: option.split)
qed

lemma retry_from_tail:
  "retry_from (case_nat r env) (Suc k) rnd began woken n u a m = retry_from env k rnd began woken n u a m"
  by (simp add: retry_from_def deliver_loop_tail split: option.split)

lemma ends_retry:
  assumes "ResErr res \<noteq> None" and "ends W t (observe_try res s) s' (Retrying (tried at res n u) (hinted res a) (n + 1) ft began)"
  shows "ends W t s s' (Sending u a n ft)"
proof -
  obtain rnd woken env u1 outs m where
    n: "retry_from env 0 rnd began woken (n + 1) (tried at res n u) (hinted res a) (sy_metrics (observe_try res s)) = (u1, outs, m)"
    and f: "did_finish W (observe_try res s) s' ft u1 outs m (sy_db (observe_try res s))"
    using assms(2) by auto
  obtain e where e: "ResErr res = Some e" using assms(1) by auto
  let ?r = "\<lparr>rd_exec = \<lambda>t. res, rd_fired = at, rd_now = began, rd_woken = woken, rd_rand = rnd\<rparr>"
  have "deliver_loop (case_nat ?r env) 0 n u a (sy_metrics s) = (u1, u # outs, m)"
    using e n by (simp add: deliver_loop_round [of "case_nat ?r env" 0] Let_def retry_from_tail)
  moreover have "did_finish W s s' ft u1 outs m (sy_db s)"
    using f by (simp add: did_finish_def did_def)
  ultimately show ?thesis by auto
qed

lemma run_bodyI:
  "recheck st cfg t ft s = Drop \<Longrightarrow> run_body st cfg env t ft fin uuid s m = ([], s, m)"
  "recheck st cfg t ft s = Skip cur late \<Longrightarrow>
    run_body st cfg env t ft fin uuid s m = skipStale st cfg cur late ft uuid s m"
  "recheck st cfg t ft s = Fire cur late \<Longrightarrow>
    run_body st cfg env t ft fin uuid s m = deliver st cfg env cur late ft fin uuid s m"
  by (simp_all add: run_body_def)

lemma ends_step:
  assumes "gstep W t s p s1 (Some q)" and "ends W t s1 s' q" and "sy_now s1 \<le> sy_now s'"
  shows "ends W t s s' p"
  using assms
proof (cases rule: gstep.cases)
  case (drop_claim ft)
  with assms(2,3) show ?thesis
    by (auto simp: run_bodyI intro!: exI [of _ "sy_now s"])
next
  case (too_late ft cur late)
  with assms(2,3) show ?thesis
    by (fastforce simp: run_bodyI skipStale_def Let_def call_of_def intro!: exI [of _ "sy_now s"])
next
  case (on_time ft cur late)
  let ?st = "w_store W" and ?cfg = "w_cfg W" and ?u = "mark_running cur"
  obtain env u1 outs m fin uuid where
    l: "deliver_loop env 0 (of_nat (length (Attempts cur))) ?u
      (newAttempt (Retries cur) (RetryInterval cur) (RetryMode cur)) (sy_metrics s1) = (u1, outs, m)"
    and fin: "sy_now s1 \<le> fin" "fin \<le> sy_now s'"
    and d: "did s1 s' outs (if Status (finish fin u1) = StatusFailed then call_of ?cfg (finish fin u1) else [])
      (reschedule ?st (finish fin u1) ft uuid (snd (st_Update ?st (finish fin u1) (snd (st_Update ?st ?u (sy_db s))))))
      (ObserveTaskFinished (Status u1 = StatusSucceeded) m)"
    using assms(2) on_time by (auto simp: did_finish_def Let_def)
  have "run_body ?st ?cfg env t ft fin uuid (sy_db s) (sy_metrics s) =
      (outs @ (if Status (finish fin u1) = StatusFailed then call_of ?cfg (finish fin u1) else []),
       reschedule ?st (finish fin u1) ft uuid (snd (st_Update ?st (finish fin u1) (snd (st_Update ?st ?u (sy_db s))))),
       ObserveTaskFinished (Status u1 = StatusSucceeded) m)"
    using l on_time by (simp add: run_bodyI deliver_def Let_def call_of_def)
  moreover have "did s s' outs (if Status (finish fin u1) = StatusFailed then call_of ?cfg (finish fin u1) else [])
      (reschedule ?st (finish fin u1) ft uuid (snd (st_Update ?st (finish fin u1) (snd (st_Update ?st ?u (sy_db s))))))
      (ObserveTaskFinished (Status u1 = StatusSucceeded) m)"
    using d on_time by (simp add: did_def)
  ultimately show ?thesis using fin on_time unfolding on_time(1) ends.simps by (intro exI conjI) simp_all
next
  case (try_ok res u a n ft)
  let ?r = "\<lparr>rd_exec = \<lambda>t. res, rd_fired = sy_now s, rd_now = 0, rd_woken = 0, rd_rand = \<lambda>n. 0\<rparr>"
  have "deliver_loop (\<lambda>k. ?r) 0 n u a (sy_metrics s)
      = ((tried (sy_now s) res n u)\<lparr>Status := StatusSucceeded\<rparr>, [u], sy_metrics s1)"
    using try_ok by (simp add: deliver_loop_round [of "\<lambda>k. ?r" 0] Let_def)
  moreover have "did_finish W s s' ft ((tried (sy_now s) res n u)\<lparr>Status := StatusSucceeded\<rparr>) [] (sy_metrics s1) (sy_db s)"
    using assms(2) try_ok by (simp add: did_finish_def did_def)
  ultimately show ?thesis unfolding try_ok(1) ends.simps by blast
next
  case (try_failed res u a n ft)
  with assms(2) show ?thesis using ends_retry by metis
next
  case (retry rnd began a a' slept u n ft)
  then have "retry_from env 0 rnd began (sy_now s) n u a m = deliver_loop env 0 n u a' m" for env m
    by (simp add: retry_from_def)
  with assms(2) retry show ?thesis by simp metis
next
  case (give_up rnd began a u n ft)
  then have "retry_from env 0 rnd began (sy_now s) n u a m = (u\<lparr>Status := StatusFailed\<rparr>, [], m)" for env m
    by (simp add: retry_from_def)
  with assms(2) give_up show ?thesis by simp metis
next
  case (finalize u' u ft)
  let ?s = "observe_with (ObserveTaskFinished (Status u = StatusSucceeded)) s"
  have "\<exists>uuid. did s s' [] (if Status u' = StatusFailed then call_of (w_cfg W) u' else [])
      (reschedule (w_store W) u' ft uuid (snd (st_Update (w_store W) u' (sy_db s))))
      (ObserveTaskFinished (Status u = StatusSucceeded) (sy_metrics s))"
    using assms(2) finalize(2,3) by (auto simp: did_def split: if_splits)
  with finalize assms(3) gstep_frame [OF assms(1)] show ?thesis
    unfolding finalize(1) ends.simps did_finish_def Let_def by (intro exI [of _ "sy_now s"]) auto
next
  case (send u a n ft)
  have "did s s' (u # outs) cs d m" if "did s1 s' outs cs d m" for outs cs d m
    using that send by (simp add: did_def)
  moreover have "sy_now s \<le> sy_now s1" using send by simp
  ultimately have "did_finish W s s' ft u1 (u # outs) m db" if "did_finish W s1 s' ft u1 outs m db" for u1 outs m db
    using that by (blast intro: did_finish_later)
  with assms(2) send show ?thesis by simp blast
next
  case stamp
  with assms(2) show ?thesis by simp blast
qed (use assms(2,3) in \<open>auto simp: did_def did_finish_def Let_def call_of_def\<close>)

lemma alone_ends: "alone W js t js' s p s' \<Longrightarrow> ends W t s s' p"
proof (induction rule: alone.induct)
  case (returns s p s1)
  then show ?case by (cases rule: gstep.cases) (auto simp: did_def)
next
  case (moves s p s1 q s')
  have "sy_now s1 \<le> sy_now s'" using alone_clock [OF moves(2)] by simp
  with ends_step [OF moves(1)] moves(3) show ?case by simp
next
  case (waits s now p s')
  then show ?case by (blast intro: ends_wait)
qed

section \<open>Undisturbed deliveries\<close>

lemma alone_run_task:
  assumes "alone W js t js' s Queued s'" and "\<not> sy_stop s"
  shows "\<exists>env ft fin uuid outs calls. sy_now s \<le> ft \<and> ft \<le> fin \<and> fin \<le> sy_now s'
    \<and> run_task (w_store W) (w_cfg W) env t ft fin uuid (sy_db s) (sy_metrics s) = (outs @ calls, sy_db s', sy_metrics s')
    \<and> map (snd \<circ> snd) (sy_log s') = map (snd \<circ> snd) (sy_log s) @ outs \<and> sy_calls s' = sy_calls s @ calls
    \<and> sy_slots s' = sy_slots s"
  using assms
proof (induction s Queued s' rule: alone.induct)
  case (returns s s1)
  then show ?case by (simp add: gstep_Queued)
next
  case (moves s s1 q s')
  then have q: "s1 = take_slot s" "q = Slotted" by (simp_all add: gstep_Queued)
  with alone_ends [OF moves(2)] obtain env ft fin uuid outs calls db m where
    t: "sy_now s \<le> ft" "ft \<le> fin" "fin \<le> sy_now s'"
    and b: "run_body (w_store W) (w_cfg W) env t ft fin uuid (sy_db s) (InflightAdd 1 (sy_metrics s)) = (outs @ calls, db, m)"
    and d: "did (take_slot s) s' outs calls db m" by auto
  from run_task_body [OF b] t d show ?case by (auto simp: did_def)
next
  case (waits s now s')
  then show ?case by simp (meson order_trans)
qed

end
