(* ===== verification/RunnerTheorems.thy ===== *)
theory RunnerTheorems
  imports RunnerProps StoreTheorems
begin

text \<open>
  The properties of the runner and of its retry state, on the runner over \<open>BadgerStore\<close>, for
  every database that behaves as \<open>badger\<close> says, every executor, clock and random source.
\<close>

section \<open>Example runs\<close>

definition ex_cfg :: runner_cfg where
  "ex_cfg = \<lparr>onFailureURL = ''http://f'', maxStaleness = Hour\<rparr>"

text \<open>An executor that fails with status 503 in the rounds before \<open>k\<close> and succeeds from then on.\<close>

definition ex_env :: "nat \<Rightarrow> nat \<Rightarrow> round" where
  "ex_env k j =
     \<lparr>rd_exec = (\<lambda>t. if j < k
        then \<lparr>ResStatusCode = 503, ResErr = Some ''unexpected status code: 503'', ResDuration = Millisecond,
          ResBody = ''busy'', ResBodyTruncated = False, ResRetryAfter = 0\<rparr>
        else \<lparr>ResStatusCode = 200, ResErr = None, ResDuration = Millisecond, ResBody = [],
          ResBodyTruncated = False, ResRetryAfter = 0\<rparr>),
      rd_fired = (1700000001 + int j) * Second, rd_now = (1700000001 + int j) * Second,
      rd_woken = (1700000001 + int j) * Second, rd_rand = (\<lambda>n. n div 2)\<rparr>"

lemma ex_records: "view (mem_kv 8) ex_db x = Some u \<Longrightarrow> sound_record u"
proof -
  have "sound_record ex_pending" "sound_record ex_done" by code_simp+
  then show "view (mem_kv 8) ex_db x = Some u \<Longrightarrow> sound_record u" using ex_tasks by blast
qed

definition ex_hourly :: task where
  "ex_hourly = ex_pending\<lparr>Schedule := ''1h''\<rparr>"

definition ex_hourly_db :: "item list" where
  "ex_hourly_db = mem_db Hour [ex_done, ex_hourly]"

lemma ex_hourly_db:
  "wf_store (mem_kv 8) ex_hourly_db"
  "view (mem_kv 8) ex_hourly_db (ID ex_hourly) = Some ex_hourly"
  "fresh_id ''n'' (view (mem_kv 8) ex_hourly_db)"
proof -
  have s: "storable [ex_done, ex_hourly]" and i: "ID ex_hourly = ''a''" by code_simp+
  show "wf_store (mem_kv 8) ex_hourly_db" "view (mem_kv 8) ex_hourly_db (ID ex_hourly) = Some ex_hourly"
    "fresh_id ''n'' (view (mem_kv 8) ex_hourly_db)"
    unfolding ex_hourly_db_def fresh_id_def using i ex_id
    by (simp_all add: mem_wf mem_view_iff mem_view_None s)
qed

lemma marshal_ok_finished:
  "marshal_ok t \<Longrightarrow> time_json_ok fired \<Longrightarrow> time_json_ok f \<Longrightarrow>
    marshal_ok (t\<lparr>Attempts := Attempts t @ [attempt_of n fired res], Status := s, FinishedAt := Some f\<rparr>)"
  by (simp add: marshal_ok_def attempt_of_def)

lemma ex_run:
  "fst (Update (mem_kv 8) Hour (outcome_task ex_cfg (ex_env 0) ex_pending (1700000001 * Second) (1700000009 * Second))
      (if stale ex_cfg (time_Sub (1700000001 * Second) (ExecuteAt ex_pending)) then ex_db
       else snd (Update (mem_kv 8) Hour (ex_pending\<lparr>Status := StatusRunning\<rparr>) ex_db))) = None"
  (is "fst (Update _ _ ?u (if ?s then _ else snd (Update _ _ ?run _))) = None")
proof -
  have ns: "\<not> ?s" by code_simp
  have u: "?u = ex_pending\<lparr>Attempts := Attempts ex_pending
        @ [attempt_of (of_nat (length (Attempts ex_pending)) + 1) (1700000001 * Second) (rd_exec (ex_env 0 0) ex_pending)],
      Status := StatusSucceeded, FinishedAt := Some (1700000009 * Second)\<rparr>"
    by (simp add: outcome_task_def ns delivered_def delivery_def finish_def mark_running_def
        deliver_loop.simps [of "ex_env 0" 0] ex_env_def Let_def)
  have "marshal_ok ex_pending" "time_json_ok (1700000009 * Second)" "time_json_ok (1700000001 * Second)"
    by code_simp+
  then have "marshal_ok ?u" unfolding u by (intro marshal_ok_finished)
  moreover have "length ex_db = 2" by (simp add: ex_db_def mem_db_def)
  then have "length (snd (Update (mem_kv 8) Hour ?run ex_db)) < 8"
    using mem_Update_length [of 8 Hour ?run ex_db] by linarith
  ultimately show ?thesis unfolding if_not_P [OF ns] using mem_Update by (metis fst_conv)
qed

section \<open>Before firing\<close>

text \<open>
  C2: A claimed task that was deleted, cancelled, otherwise moved out of pending, or
  rescheduled before its timer fired is not delivered: nothing is handed to the executor,
  the store is untouched, and no metric moves.
\<close>
theorem stale_claim_dropped:
  assumes "badger kv" and "wf_store kv db" and "colon \<notin> set (ID t)"
    and "\<forall>cur. view kv db (ID t) = Some cur \<longrightarrow> Status cur \<noteq> StatusPending \<or> ExecuteAt cur \<noteq> ExecuteAt t"
  shows "run_task (badger_store kv ttl) cfg env t fireTime finTime uuid db m = ([], db, m)"
proof -
  have "\<not> fireable t (view kv db (ID t))"
    using assms(4) by (auto simp: fireable_def split: option.splits)
  from task_store.run_task_dropped [OF badger.contract [OF assms(1)] assms(2,3) this]
  show ?thesis .
qed

lemma stale_claim_dropped_witness:
  "run_task (badger_store (mem_kv 8) Hour) ex_cfg (ex_env 0) (ex_pending\<lparr>ExecuteAt := 1\<rparr>)
     (1700000001 * Second) (1700000002 * Second) ''n'' ex_db init_metrics = ([], ex_db, init_metrics)"
  by (rule stale_claim_dropped [OF ex_badger ex_db_wf(1)]) (auto simp: ex_db_view ex_pending_def Second_def)

text \<open>
  A task older than the configured staleness is never delivered: whatever the executor
  would answer, the only thing handed to it is the failure callback of the task retired as
  failed, with an attempt that records the reason.
\<close>
theorem stale_task_skipped:
  assumes "badger kv" and "wf_store kv db" and "colon \<notin> set (ID t)" and "view kv db (ID t) = Some cur"
    and "Status cur = StatusPending" and "ExecuteAt cur = ExecuteAt t"
    and "0 < maxStaleness cfg" and "maxStaleness cfg < time_Sub fireTime (ExecuteAt cur)"
  shows "fst (run_task (badger_store kv ttl) cfg env t fireTime finTime uuid db m) =
    (case notifyFailure cfg (retire_stale cfg cur (time_Sub fireTime (ExecuteAt cur)) fireTime) of
       None \<Rightarrow> [] | Some c \<Rightarrow> [c])"
  using task_store.run_task_calls_stale [OF badger.contract [OF assms(1)] assms(2-4)] assms(5-8)
  by (simp add: fireable_def stale_def callback_list_def)

lemma stale_task_skipped_witness:
  "fst (run_task (badger_store (mem_kv 8) Hour) ex_cfg (ex_env 0) ex_pending
     (1700007200 * Second) (1700007201 * Second) ''n'' ex_db init_metrics) =
   (case notifyFailure ex_cfg (retire_stale ex_cfg ex_pending
       (time_Sub (1700007200 * Second) (ExecuteAt ex_pending)) (1700007200 * Second)) of
      None \<Rightarrow> [] | Some c \<Rightarrow> [c])"
  by (rule stale_task_skipped [OF ex_badger ex_db_wf(1) _ ex_db_view(3) _ refl]; code_simp)

section \<open>Delivery\<close>

text \<open>
  C1: A delivery hands the freshly read task, marked running and carrying the attempts made
  so far, to the executor once per round, up to and including the first round that succeeds,
  and at most once more than the task's retries; the failure callback follows exactly when
  every round failed. (\<open>N\<close> is the number of the last round.)
\<close>
theorem delivery_rounds_exact:
  assumes "badger kv" and "wf_store kv db" and "colon \<notin> set (ID t)" and "view kv db (ID t) = Some cur"
    and "Status cur = StatusPending" and "ExecuteAt cur = ExecuteAt t"
    and "\<not> (0 < maxStaleness cfg \<and> maxStaleness cfg < time_Sub fireTime (ExecuteAt cur))"
  defines "n \<equiv> of_nat (length (Attempts cur))" and "run \<equiv> cur\<lparr>Status := StatusRunning\<rparr>"
  shows "\<exists>N \<le> nat (sint (Retries cur)).
    (\<forall>j < N. \<not> round_ok env 0 n run j) \<and> (round_ok env 0 n run N \<or> N = nat (sint (Retries cur)))
    \<and> fst (run_task (badger_store kv ttl) cfg env t fireTime finTime uuid db m) =
        map (deliver_seq env 0 n run) [0..<Suc N] @
        (if round_ok env 0 n run N then [] else callback_list cfg (delivered env cur finTime))"
proof -
  have run: "run = mark_running cur" by (simp add: run_def mark_running_def)
  obtain N where N: "last_round env 0 n run (nat (sint (Retries cur))) N"
    and d: "delivery env cur init_metrics =
      ((deliver_seq env 0 n run (Suc N))
         \<lparr>Status := if round_ok env 0 n run N then StatusSucceeded else StatusFailed\<rparr>,
       map (deliver_seq env 0 n run) [0..<Suc N], fold (observe_round env 0 n run) [0..<Suc N] init_metrics)"
    using delivery_rounds [of env cur init_metrics] unfolding run n_def by blast
  have "Status (delivered env cur finTime) = StatusFailed \<longleftrightarrow> \<not> round_ok env 0 n run N"
    by (simp only: delivered_def finish_def d fst_conv) simp
  with task_store.run_task_calls_fire [OF badger.contract [OF assms(1)] assms(2-4), of cfg fireTime ttl env finTime uuid m]
    assms(5-7) d N show ?thesis
    by (intro exI [of _ N]) (simp add: fireable_def stale_def last_round_def)
qed

lemma delivery_rounds_exact_witness:
  "\<exists>N \<le> nat (sint (Retries ex_pending)).
    fst (run_task (badger_store (mem_kv 8) Hour) ex_cfg (ex_env 1) ex_pending
        (1700000001 * Second) (1700000009 * Second) ''n'' ex_db init_metrics) =
        map (deliver_seq (ex_env 1) 0 (of_nat (length (Attempts ex_pending))) (ex_pending\<lparr>Status := StatusRunning\<rparr>)) [0..<Suc N] @
        (if round_ok (ex_env 1) 0 (of_nat (length (Attempts ex_pending))) (ex_pending\<lparr>Status := StatusRunning\<rparr>) N
         then [] else callback_list ex_cfg (delivered (ex_env 1) ex_pending (1700000009 * Second)))"
proof -
  have p: "colon \<notin> set (ID ex_pending)" "Status ex_pending = StatusPending"
    "\<not> (0 < maxStaleness ex_cfg \<and> maxStaleness ex_cfg < time_Sub (1700000001 * Second) (ExecuteAt ex_pending))"
    by code_simp+
  show ?thesis
    using delivery_rounds_exact [OF ex_badger ex_db_wf(1) p(1) ex_db_view(3) p(2) refl p(3), where ttl = Hour and env = "ex_env 1"
        and finTime = "1700000009 * Second" and uuid = "''n''" and m = init_metrics] by blast
qed

text \<open>
  C3: What a run leaves in the store, whichever of its writes fail: the store invariant, every
  other task as it was, the task itself as it was read, as marked running, or as finished
  (in the last case \<open>outcome_task\<close>), and at most one new task, the successor.
\<close>
theorem run_task_frame:
  fixes t :: task and ttl :: duration
  assumes "badger kv" and "wf_store kv db" and "view kv db (ID t) = Some cur"
    and "Status cur = StatusPending" and "ExecuteAt cur = ExecuteAt t"
    and "sane_clock fireTime" and "fresh_id uuid (view kv db)"
    and "fst (snd (run_task (badger_store kv ttl) cfg env t fireTime finTime uuid db m)) = db'"
  shows "wf_store kv db'
    \<and> {x. view kv db' x \<noteq> view kv db x} \<subseteq> {ID t, uuid}
    \<and> view kv db' (ID t) \<in> {Some cur, Some (cur\<lparr>Status := StatusRunning\<rparr>), Some (outcome_task cfg env cur fireTime finTime)}
    \<and> view kv db' uuid \<in> {None, successor cur fireTime uuid}"
proof -
  have "fireable t (Some cur)" using assms(4,5) by (simp add: fireable_def)
  note e = task_store.run_task_effect [OF badger.contract [OF assms(1), of ttl] assms(2,3) this assms(6,7),
      where cfg = cfg and env = env and finTime = finTime and m = m, unfolded assms(8)]
  show ?thesis using e(1,3,4) e(2) by (auto simp: mark_running_def)
qed

lemma run_task_frame_witness:
  "let db' = fst (snd (run_task (badger_store (mem_kv 8) Hour) ex_cfg (ex_env 1) ex_hourly
         (1700000001 * Second) (1700000009 * Second) ''n'' ex_hourly_db init_metrics))
   in wf_store (mem_kv 8) db'
    \<and> {x. view (mem_kv 8) db' x \<noteq> view (mem_kv 8) ex_hourly_db x} \<subseteq> {ID ex_hourly, ''n''}
    \<and> view (mem_kv 8) db' (ID ex_hourly) \<in> {Some ex_hourly, Some (ex_hourly\<lparr>Status := StatusRunning\<rparr>),
        Some (outcome_task ex_cfg (ex_env 1) ex_hourly (1700000001 * Second) (1700000009 * Second))}
    \<and> view (mem_kv 8) db' ''n'' \<in> {None, successor ex_hourly (1700000001 * Second) ''n''}"
  unfolding Let_def
proof (rule run_task_frame [OF ex_badger ex_hourly_db(1,2) _ refl _ ex_hourly_db(3) refl])
  show "Status ex_hourly = StatusPending" "sane_clock (1700000001 * Second)" by code_simp+
qed

text \<open>
  C4: When the last write of a run succeeds, the stored task is finished: succeeded or failed,
  with its finishing time, everything the client owns unchanged.
\<close>
theorem run_task_completes:
  assumes "badger kv" and "wf_store kv db" and "view kv db (ID t) = Some cur"
    and "Status cur = StatusPending" and "ExecuteAt cur = ExecuteAt t"
    and "sane_clock fireTime" and "fresh_id uuid (view kv db)"
    and "fst (Update kv ttl (outcome_task cfg env cur fireTime finTime)
      (if stale cfg (time_Sub fireTime (ExecuteAt cur)) then db
       else snd (Update kv ttl (cur\<lparr>Status := StatusRunning\<rparr>) db))) = None"
  shows "\<exists>u. view kv (fst (snd (run_task (badger_store kv ttl) cfg env t fireTime finTime uuid db m))) (ID t) = Some u
    \<and> (Status u = StatusSucceeded \<or> Status u = StatusFailed) \<and> FinishedAt u \<noteq> None
    \<and> u = cur\<lparr>Status := Status u, Attempts := Attempts u, FinishedAt := FinishedAt u\<rparr>"
proof -
  let ?u = "outcome_task cfg env cur fireTime finTime"
  have "fireable t (Some cur)" using assms(4,5) by (simp add: fireable_def)
  from task_store.run_task_finished [OF badger.contract [OF assms(1), of ttl] assms(2,3) this assms(6,7),
      where cfg = cfg and env = env and finTime = finTime and m = m,
      unfolded badger_store_ops mark_running_def, OF assms(8)]
  have v: "view kv (fst (snd (run_task (badger_store kv ttl) cfg env t fireTime finTime uuid db m))) (ID t) = Some ?u" .
  obtain s ats f where u: "?u = cur\<lparr>Status := s, Attempts := ats, FinishedAt := Some f\<rparr>"
    "s = StatusSucceeded \<or> s = StatusFailed"
    using outcome_fields by blast
  show ?thesis by (rule exI [of _ ?u], intro conjI v) (use u in auto)
qed

lemma run_task_completes_witness:
  "\<exists>u. view (mem_kv 8) (fst (snd (run_task (badger_store (mem_kv 8) Hour) ex_cfg (ex_env 0) ex_pending
       (1700000001 * Second) (1700000009 * Second) ''n'' ex_db init_metrics))) (ID ex_pending) = Some u
    \<and> (Status u = StatusSucceeded \<or> Status u = StatusFailed) \<and> FinishedAt u \<noteq> None
    \<and> u = ex_pending\<lparr>Status := Status u, Attempts := Attempts u, FinishedAt := FinishedAt u\<rparr>"
proof (rule run_task_completes [OF ex_badger ex_db_wf(1) ex_db_view(3) _ refl _ ex_db_fresh ex_run])
qed code_simp+

text \<open>
  The records stay sound through a run: if every stored task has its attempts numbered
  1, 2, 3, ... without a gap and a finishing time exactly when its status is terminal, the
  same holds afterwards, whichever writes failed (a replayed task continues its numbering).
\<close>
theorem run_task_keeps_records_sound:
  assumes "badger kv" and "wf_store kv db" and "view kv db (ID t) = Some cur"
    and "Status cur = StatusPending" and "ExecuteAt cur = ExecuteAt t"
    and "sane_clock fireTime" and "fresh_id uuid (view kv db)"
    and "\<forall>x u. view kv db x = Some u \<longrightarrow> sound_record u"
    and "view kv (fst (snd (run_task (badger_store kv ttl) cfg env t fireTime finTime uuid db m))) x = Some u"
  shows "map AttN (Attempts u) = map (\<lambda>i. of_nat (Suc i)) [0..<length (Attempts u)]
    \<and> (FinishedAt u \<noteq> None \<longleftrightarrow> IsTerminal (Status u))"
proof -
  have "fireable t (Some cur)" using assms(4,5) by (simp add: fireable_def)
  from task_store.run_task_records [OF badger.contract [OF assms(1)] assms(2,3) this assms(6-9)]
  show ?thesis by (simp add: record_defs)
qed

lemma run_task_keeps_records_sound_witness:
  "let u = outcome_task ex_cfg (ex_env 0) ex_pending (1700000001 * Second) (1700000009 * Second)
   in map AttN (Attempts u) = map (\<lambda>i. of_nat (Suc i)) [0..<length (Attempts u)]
    \<and> (FinishedAt u \<noteq> None \<longleftrightarrow> IsTerminal (Status u))"
  unfolding Let_def
proof (rule run_task_keeps_records_sound [OF ex_badger ex_db_wf(1) ex_db_view(3) _ refl _ ex_db_fresh,
      where cfg = ex_cfg and env = "ex_env 0" and fireTime = "1700000001 * Second"
        and finTime = "1700000009 * Second" and ttl = Hour and m = init_metrics and x = "ID ex_pending"])
  show p: "Status ex_pending = StatusPending" "sane_clock (1700000001 * Second)" by code_simp+
  show "\<forall>x u. view (mem_kv 8) ex_db x = Some u \<longrightarrow> sound_record u"
    using ex_records by blast
  have "fireable ex_pending (Some ex_pending)" using p(1) by (simp add: fireable_def)
  from task_store.run_task_finished [OF badger.contract [OF ex_badger] ex_db_wf(1) ex_db_view(3) this p(2) ex_db_fresh,
      unfolded badger_store_ops mark_running_def, OF ex_run]
  show "view (mem_kv 8) (fst (snd (run_task (badger_store (mem_kv 8) Hour) ex_cfg (ex_env 0) ex_pending
        (1700000001 * Second) (1700000009 * Second) ''n'' ex_db init_metrics))) (ID ex_pending) =
    Some (outcome_task ex_cfg (ex_env 0) ex_pending (1700000001 * Second) (1700000009 * Second))" .
qed

section \<open>Claims\<close>

text \<open>
  C21: One tick starts at most a batch of deliveries, each for a task that is stored, pending
  and due before the second of the tick's end, never for a task that is already in flight and
  never twice for one task; afterwards exactly these are claimed in addition.
\<close>
theorem tick_claims:
  assumes "badger kv" and "wf_store kv db" and "fits16 (Unix until)"
    and "runOnce (badger_store kv ttl) start until db inflight = (started, inflight')"
  shows "distinct (map ID started) \<and> length started \<le> MaxDueBatch
    \<and> (\<forall>t \<in> set started. view kv db (ID t) = Some t \<and> Status t = StatusPending
        \<and> Unix (ExecuteAt t) < Unix until \<and> ID t \<notin> inflight)
    \<and> inflight' = inflight \<union> ID ` set started"
proof -
  let ?due = "take MaxDueBatch (filter (due_now until) (tasks_of kv db))"
  have lim: "due_limit (int MaxDueBatch) = MaxDueBatch" by (simp add: due_limit_def MaxDueBatch_def)
  have c: "claim_all ?due inflight = (started, inflight')"
    using assms(4) badger.GetDueTasks_eq [OF assms(1-3), of start "int MaxDueBatch"]
    by (simp add: runOnce_def lim)
  note spec = claim_all_spec [OF c]
  have "card (set started) \<le> card (set ?due)" using spec by (intro card_mono) simp_all
  moreover have "card (set ?due) \<le> MaxDueBatch"
    by (rule order_trans [OF card_length]) simp
  moreover have "length started = card (set started)"
    using spec by (metis distinct_card distinct_map)
  moreover have "view kv db (ID t) = Some t \<and> due_now until t" if "t \<in> set started" for t
  proof -
    have "t \<in> set ?due" using spec that by blast
    then have "t \<in> set (filter (due_now until) (tasks_of kv db))" by (rule in_set_takeD)
    then show ?thesis using view_Some [OF assms(2)] by simp
  qed
  ultimately show ?thesis using spec by (auto simp: due_now_def)
qed

lemma tick_claims_witness:
  "view (mem_kv 8) ex_db (ID ex_pending) = Some ex_pending \<and> Status ex_pending = StatusPending
    \<and> Unix (ExecuteAt ex_pending) < Unix (1700000005 * Second) \<and> ID ex_pending \<notin> {''z''}
    \<and> {''a'', ''z''} = {''z''} \<union> ID ` set [ex_pending]"
proof -
  have f: "fits16 (Unix (1700000005 * Second))" by code_simp
  let ?xs = "filter (due_now (1700000005 * Second)) (tasks_of (mem_kv 8) ex_db)"
  have "distinct ?xs" using badger.distinct_IDs [OF ex_badger ex_db_wf(1)] by (simp add: distinct_map)
  moreover have "due_now (1700000005 * Second) ex_pending" "\<not> due_now (1700000005 * Second) ex_done"
    by code_simp+
  then have "set ?xs = {ex_pending}"
    by (auto simp: ex_db_def mem_tasks_of [OF ex_storable(1)])
  ultimately have "?xs = [ex_pending]" by (rule distinct_singleton_set)
  then have "runOnce (badger_store (mem_kv 8) Hour) 0 (1700000005 * Second) ex_db {''z''} = ([ex_pending], {''a'', ''z''})"
    by (simp add: runOnce_def badger.GetDueTasks_eq [OF ex_badger ex_db_wf(1) f] due_limit_def MaxDueBatch_def
        claim_def ex_id)
  note t = tick_claims [OF ex_badger ex_db_wf(1) f this]
  have "ex_pending \<in> set [ex_pending]" by simp
  from bspec [OF conjunct1 [OF conjunct2 [OF conjunct2 [OF t]]] this] conjunct2 [OF conjunct2 [OF conjunct2 [OF t]]]
  show ?thesis by (simp only: simp_thms)
qed

section \<open>Recurrence\<close>

text \<open>
  The successor of a recurring task is due one interval after the moment this run fired,
  pending, with no attempts, no finishing time and no idempotency key, under the new id, and
  otherwise the same task; it depends on nothing that happened in the run. A task without a
  schedule, or with one that is no positive duration, has no successor.
\<close>
theorem successor_spec:
  "successor (t\<lparr>Status := s, Attempts := ats, FinishedAt := f\<rparr>) fireTime uuid =
    (case ParseDuration (Schedule t) of
       None \<Rightarrow> None
     | Some ival \<Rightarrow>
         if Schedule t \<noteq> [] \<and> 0 < ival then
           Some (t\<lparr>ID := uuid, IdempotencyKey := [], ExecuteAt := fireTime + ival,
             Status := StatusPending, Attempts := [], FinishedAt := None\<rparr>)
         else None)"
  unfolding successor_cong by (auto simp: successor_def split: option.split)

end
