(* ===== verification/HandlerTheorems.thy ===== *)
theory HandlerTheorems
  imports HandlerProps RunnerTheorems
begin

text \<open>
  The properties of the HTTP API over \<open>BadgerStore\<close>: what is accepted, what each handler does
  to the stored tasks, and idempotent creation.
\<close>

section \<open>Example requests\<close>

definition ex_req :: "string \<Rightarrow> string \<Rightarrow> http_req" where
  "ex_req key tid =
     \<lparr>hr_header = (\<lambda>h. if h = ''Idempotency-Key'' then key else []), hr_query = (\<lambda>q. []),
      hr_path_id = tid, hr_body_need = 60,
      hr_body = Doc (JObj [(''URL'', JStr ''http://y''), (''execute_in'', JStr ''5m''),
        (''retries'', JInt 3)])\<rparr>"

definition ex_now :: time where "ex_now = 1700000000 * Second"

definition ex_taskRequest :: taskRequest where
  "ex_taskRequest = zero_request\<lparr>rURL := ''http://y'', rMethod := ''POST'', rExecuteIn := ''5m'',
     rRetries := 3, rRetryInterval := Some 2000, rRetryMode := RetryFixed\<rparr>"

lemma ex_decode:
  "decodeTaskRequest (\<lambda>u. None) ex_now (ex_req key tid) = Inr (ex_taskRequest, ex_now + 5 * Minute)"
  by code_simp

section \<open>Admission\<close>

text \<open>With an API key configured, a request reaches its handler exactly when it carries it.\<close>
lemma auth_exact:
  "WithAuth apiKey r next = Inr next \<longleftrightarrow> apiKey = [] \<or> hr_header r ''X-API-Key'' = apiKey"
  by (auto simp: WithAuth_def Let_def)

text \<open>
  C39: A create or update body is accepted only within 1 MiB, with a URL, one of six methods, a
  fire time in the future that the store can order, a known retry mode, a timeout of at most
  five minutes, an absolute http(s) callback if any, and a positive interval if any.
\<close>
theorem accepted_request:
  assumes "decodeTaskRequest parse_url now r = Inr (req, t)" and "sane_clock now"
  shows "hr_body_need r \<le> 1048576 \<and> rURL req \<noteq> []
    \<and> rMethod req \<in> {''GET'', ''POST'', ''PUT'', ''PATCH'', ''DELETE'', ''HEAD''}
    \<and> now < t \<and> fits16 (Unix t)
    \<and> (rRetryMode req = RetryFixed \<or> rRetryMode req = RetryExponential)
    \<and> 0 \<le> sint (rTimeoutMs req) \<and> sint (rTimeoutMs req) \<le> 300000
    \<and> (rOnFailureURL req = [] \<or> (\<exists>scheme host. parse_url (rOnFailureURL req) = Some (scheme, host)
        \<and> (scheme = ''http'' \<or> scheme = ''https'') \<and> host \<noteq> []))
    \<and> (rSchedule req = [] \<or> (\<exists>d. ParseDuration (rSchedule req) = Some d \<and> 0 < d))"
proof -
  note a = decode_accepted [OF assms(1), unfolded acceptable_def options_None]
  have "now < t \<and> fits16 (Unix t)" using decode_fits16 [OF assms] .
  moreover have "hr_body_need r \<le> 1048576" using a(1) by (simp add: maxTaskBody_def)
  moreover have "rMethod req \<in> {''GET'', ''POST'', ''PUT'', ''PATCH'', ''DELETE'', ''HEAD''}"
    using a(2) by (simp add: validMethods_def)
  moreover have "rOnFailureURL req = [] \<or> (\<exists>scheme host. parse_url (rOnFailureURL req) = Some (scheme, host)
        \<and> (scheme = ''http'' \<or> scheme = ''https'') \<and> host \<noteq> [])"
    using a(2) by (auto simp: valid_callback_def split: option.splits)
  moreover have "rSchedule req = [] \<or> (\<exists>d. ParseDuration (rSchedule req) = Some d \<and> 0 < d)"
    using a(2) by (auto simp: positive_duration_def split: option.splits)
  ultimately show ?thesis using a(2) by (simp add: retry_Valid_def MaxTimeoutMs_def)
qed

lemma accepted_request_witness:
  "ex_now < ex_now + 5 * Minute \<and> fits16 (Unix (ex_now + 5 * Minute))
   \<and> rMethod ex_taskRequest \<in> {''GET'', ''POST'', ''PUT'', ''PATCH'', ''DELETE'', ''HEAD''}"
proof -
  have "sane_clock ex_now" by code_simp
  from accepted_request [OF ex_decode this] show ?thesis by blast
qed

section \<open>Creating\<close>

text \<open>
  C18: Every create request is answered, whatever is stored: the duplicate search over all
  pages ends. The store invariant holds afterwards, and the stored tasks are unchanged or one
  task was added, under the new id, when no pending task is repeated by the request.
\<close>
theorem create_answered:
  assumes "badger kv" and "wf_store kv db" and "sane_clock now" and "fresh_id uuid (view kv db)"
  shows "\<exists>rep db'. CreateTask (badger_store kv ttl) parse_url now uuid r db = Some (rep, db') \<and> wf_store kv db'
    \<and> (view kv db' = view kv db \<or> (\<exists>req t. decodeTaskRequest parse_url now r = Inr (req, t)
        \<and> (\<forall>x u. view kv db x = Some u \<longrightarrow> \<not> repeats (hr_header r ''Idempotency-Key'') (rURL req) t u)
        \<and> view kv db' = (view kv db)(uuid \<mapsto> new_task uuid (hr_header r ''Idempotency-Key'') req t)))"
  by (rule task_store.create_effect [OF badger.contract [OF assms(1), of ttl] assms(2-4), of parse_url r]) blast

lemma create_answered_witness:
  "\<exists>rep db'. CreateTask (badger_store (mem_kv 8) Hour) (\<lambda>u. None) ex_now ''n'' (ex_req ''k'' []) ex_db = Some (rep, db')
    \<and> wf_store (mem_kv 8) db'"
proof -
  have "sane_clock ex_now" "fresh_id ''n'' (view (mem_kv 8) ex_db)" by (code_simp, rule ex_db_fresh)
  from create_answered [OF ex_badger ex_db_wf(1) this, where ttl = Hour and parse_url = "\<lambda>u. None" and r = "ex_req ''k'' []"]
  show ?thesis by blast
qed

text \<open>
  C19: Creating is idempotent: a valid request that repeats a pending task (the same
  idempotency key, or without a key the same URL and a fire time less than a second away)
  changes nothing and answers 200 with a stored pending task that it repeats.
\<close>
theorem create_repeat_returns_existing:
  fixes now
  assumes "badger kv" and "wf_store kv db" and "decodeTaskRequest parse_url now r = Inr (req, t)"
    and "view kv db x = Some u" and "Status u = StatusPending"
    and "if hr_header r ''Idempotency-Key'' = [] then URL u = rURL req \<and> \<bar>ExecuteAt u - t\<bar> < Second
         else IdempotencyKey u = hr_header r ''Idempotency-Key''"
  shows "\<exists>v. CreateTask (badger_store kv ttl) parse_url now uuid r db = Some (json_reply 200 v, db)
    \<and> view kv db (ID v) = Some v \<and> Status v = StatusPending
    \<and> (if hr_header r ''Idempotency-Key'' = [] then URL v = rURL req \<and> \<bar>ExecuteAt v - t\<bar> < Second
       else IdempotencyKey v = hr_header r ''Idempotency-Key'')"
proof -
  have rep: "repeats (hr_header r ''Idempotency-Key'') (rURL req) t w \<longleftrightarrow> Status w = StatusPending
    \<and> (if hr_header r ''Idempotency-Key'' = [] then URL w = rURL req \<and> \<bar>ExecuteAt w - t\<bar> < Second
       else IdempotencyKey w = hr_header r ''Idempotency-Key'')" for w
    using dur_Abs_Sub_less [of Second "ExecuteAt w" t]
    by (auto simp: repeats_def duplicates_def Second_def max_duration_def)
  from task_store.create_repeat [OF badger.contract [OF assms(1), of ttl] assms(2,3,4), of uuid]
    assms(5,6) show ?thesis unfolding rep by blast
qed

definition ex_keyed :: task where
  "ex_keyed = ex_pending\<lparr>IdempotencyKey := ''k''\<rparr>"

definition ex_keyed_db :: "item list" where
  "ex_keyed_db = mem_db Hour [ex_done, ex_keyed]"

lemma create_repeat_returns_existing_witness:
  "\<exists>v. CreateTask (badger_store (mem_kv 8) Hour) (\<lambda>u. None) ex_now ''n'' (ex_req ''k'' []) ex_keyed_db
      = Some (json_reply 200 v, ex_keyed_db)
    \<and> view (mem_kv 8) ex_keyed_db (ID v) = Some v \<and> Status v = StatusPending
    \<and> (if hr_header (ex_req ''k'' []) ''Idempotency-Key'' = []
       then URL v = rURL ex_taskRequest \<and> \<bar>ExecuteAt v - (ex_now + 5 * Minute)\<bar> < Second
       else IdempotencyKey v = hr_header (ex_req ''k'' []) ''Idempotency-Key'')"
proof (rule create_repeat_returns_existing [OF ex_badger _ ex_decode, where x = "''a''" and u = ex_keyed])
  have s: "storable [ex_done, ex_keyed]" "ID ex_keyed = ''a''" by code_simp+
  show "wf_store (mem_kv 8) ex_keyed_db" "view (mem_kv 8) ex_keyed_db ''a'' = Some ex_keyed"
    unfolding ex_keyed_db_def by (simp_all add: mem_wf mem_view_iff s)
qed code_simp+



section \<open>Changing one task\<close>





text \<open>
  Cancelling marks one task that is not finished, the one named in the path, as cancelled
  with a finishing time and keeps it in the history; a finished task, and every other task,
  stays as it was.
\<close>
theorem cancel_marks:
  assumes "badger kv" and "wf_store kv db" and "DeleteTask (badger_store kv ttl) now r db = (rep, db')"
  shows "wf_store kv db' \<and> (db' = db \<or> (\<exists>t. addressed r t \<and> view kv db (ID t) = Some t \<and> \<not> IsTerminal (Status t)
    \<and> view kv db' = (view kv db)(ID t \<mapsto> t\<lparr>Status := StatusCancelled, FinishedAt := Some now\<rparr>)
    \<and> rp_status rep = 204))"
proof -
  have c: "task_store (badger_store kv ttl) (wf_store kv) (view kv) (db_listing kv) (db_at_cursor kv)"
    by (rule badger.contract [OF assms(1)])
  from task_store.cancel_effect [OF c assms(2,3)]
  show ?thesis unfolding task_store.rewrites_one_def [OF c] cancel_def [abs_def]
    by (auto simp: no_content_def)
qed

lemma cancel_marks_witness:
  "let rep = fst (DeleteTask (badger_store (mem_kv 8) Hour) ex_now (ex_req [] ''a'') ex_db);
       db' = snd (DeleteTask (badger_store (mem_kv 8) Hour) ex_now (ex_req [] ''a'') ex_db)
   in wf_store (mem_kv 8) db' \<and> (db' = ex_db \<or> (\<exists>t. addressed (ex_req [] ''a'') t \<and> view (mem_kv 8) ex_db (ID t) = Some t
    \<and> \<not> IsTerminal (Status t)
    \<and> view (mem_kv 8) db' = (view (mem_kv 8) ex_db)(ID t \<mapsto> t\<lparr>Status := StatusCancelled, FinishedAt := Some ex_now\<rparr>)
    \<and> rp_status rep = 204))"
  unfolding Let_def
  by (rule cancel_marks [OF ex_badger ex_db_wf(1), where ttl = Hour]) (rule prod.collapse [symmetric])

text \<open>
  Bulk deletion over the API never runs without a filter: a request with no url, status,
  before or after is refused with 400 and leaves the store as it is, whatever the store.
\<close>
lemma bulk_delete_needs_filter:
  "hr_query r ''url'' = [] \<and> hr_query r ''status'' = [] \<and> hr_query r ''before'' = [] \<and> hr_query r ''after'' = []
    \<longrightarrow> api_DeleteTasks st r s = (http_Error ''at least one filter required (url, status, before, or after)'' 400, s)"
  by (simp add: api_DeleteTasks_def time_param_def)

lemma bulk_delete_needs_filter_witness:
  "api_DeleteTasks (badger_store (mem_kv 8) Hour) (ex_req [] []) ex_db
    = (http_Error ''at least one filter required (url, status, before, or after)'' 400, ex_db)"
  using bulk_delete_needs_filter [of "ex_req [] []" "badger_store (mem_kv 8) Hour" ex_db]
  by (simp add: ex_req_def)

section \<open>Sound records\<close>

definition sound_store :: "'db kv \<Rightarrow> 'db \<Rightarrow> bool" where
  "sound_store kv db \<longleftrightarrow> wf_store kv db \<and> (\<forall>x t. view kv db x = Some t \<longrightarrow> sound_record t)"

lemma sound_rewrites:
  "sound_record t \<Longrightarrow> Status t = StatusPending \<Longrightarrow> sound_record (replace_fields req at t)"
  "sound_record t \<Longrightarrow> sound_record (rearm now t)"
  "sound_record t \<Longrightarrow> sound_record (cancel now t)"
  "sound_record (new_task uuid key req at)"
  by (simp_all add: record_defs)

text \<open>
  Every writing handler keeps the records of all stored tasks sound, attempts numbered
  without gaps and a finishing time exactly on the finished ones: create, update, replay,
  cancel and bulk deletion.
\<close>
theorem handlers_keep_records_sound:
  assumes "badger kv" and "sound_store kv db" and "sane_clock now" and "fresh_id uuid (view kv db)"
  shows "(\<exists>rep db'. CreateTask (badger_store kv ttl) parse_url now uuid r db = Some (rep, db') \<and> sound_store kv db')
    \<and> sound_store kv (snd (UpdateTask (badger_store kv ttl) parse_url now r db))
    \<and> sound_store kv (snd (fst (ReplayTask (badger_store kv ttl) now r db m)))
    \<and> sound_store kv (snd (DeleteTask (badger_store kv ttl) now r db))
    \<and> sound_store kv (snd (api_DeleteTasks (badger_store kv ttl) r db))"
proof -
  have c: "task_store (badger_store kv ttl) (wf_store kv) (view kv) (db_listing kv) (db_at_cursor kv)"
    by (rule badger.contract [OF assms(1)])
  have wf: "wf_store kv db" and snd: "\<And>x t. view kv db x = Some t \<Longrightarrow> sound_record t"
    using assms(2) by (simp_all add: sound_store_def)
  have upd: "sound_store kv db'" if "wf_store kv db'" "view kv db' = (view kv db)(x \<mapsto> u)" "sound_record u"
    for db' x u using that snd by (auto simp: sound_store_def)
  have rw: "sound_store kv db'" if "wf_store kv db' \<and> task_store.rewrites_one (view kv) P f rep_of db rep db'"
    "\<And>t. sound_record t \<Longrightarrow> P t \<Longrightarrow> sound_record (f t)" for P f rep_of rep db'
    using that upd snd assms(2) unfolding task_store.rewrites_one_def [OF c] by metis
  obtain rep db1 where cr: "CreateTask (badger_store kv ttl) parse_url now uuid r db = Some (rep, db1)" "wf_store kv db1"
    "view kv db1 = view kv db \<or> (\<exists>req t. decodeTaskRequest parse_url now r = Inr (req, t)
      \<and> (\<forall>x t'. view kv db x = Some t' \<longrightarrow> \<not> repeats (hr_header r ''Idempotency-Key'') (rURL req) t t')
      \<and> view kv db1 = (view kv db)(uuid \<mapsto> new_task uuid (hr_header r ''Idempotency-Key'') req t))"
    by (rule task_store.create_effect [OF c wf assms(3,4), of parse_url r])
  have "sound_store kv db1" using cr(2,3) upd snd sound_rewrites(4) by (auto simp: sound_store_def)
  moreover have "sound_store kv (snd (UpdateTask (badger_store kv ttl) parse_url now r db))"
  proof (cases "snd (UpdateTask (badger_store kv ttl) parse_url now r db) = db")
    case True
    with assms(2) show ?thesis by simp
  next
    case False
    from task_store.update_effect [OF c wf assms(3) prod.collapse [symmetric], of parse_url r] False
    obtain req at where "wf_store kv (snd (UpdateTask (badger_store kv ttl) parse_url now r db))
      \<and> task_store.rewrites_one (view kv) (\<lambda>t. addressed r t \<and> Status t = StatusPending) (replace_fields req at)
        (\<lambda>t. json_reply 200 (replace_fields req at t)) db
        (fst (UpdateTask (badger_store kv ttl) parse_url now r db))
        (snd (UpdateTask (badger_store kv ttl) parse_url now r db))" by blast
    then show ?thesis by (rule rw) (simp add: sound_rewrites(1))
  qed
  moreover have "sound_store kv (snd (fst (ReplayTask (badger_store kv ttl) now r db m)))"
    by (rule rw [OF task_store.replay_effect [OF c wf assms(3)]]) (auto intro: sound_rewrites simp: prod_eq_iff)
  moreover have "sound_store kv (snd (DeleteTask (badger_store kv ttl) now r db))"
    by (rule rw [OF task_store.cancel_effect [OF c wf]]) (auto intro: sound_rewrites simp: prod_eq_iff)
  moreover have "sound_store kv (snd (api_DeleteTasks (badger_store kv ttl) r db))"
    using task_store.delete_many_effect [OF c wf prod.collapse [symmetric], of r] snd assms(2)
    by (auto simp: sound_store_def split: option.splits if_splits)
  ultimately show ?thesis using cr(1) by blast
qed

lemma ex_sound: "sound_store (mem_kv 8) ex_db"
  using ex_db_wf(1) ex_records by (simp add: sound_store_def)

lemma handlers_keep_records_sound_witness:
  "(\<exists>rep db'. CreateTask (badger_store (mem_kv 8) Hour) (\<lambda>u. None) ex_now ''n'' (ex_req ''k'' ''a'') ex_db = Some (rep, db')
      \<and> sound_store (mem_kv 8) db')
    \<and> sound_store (mem_kv 8) (snd (UpdateTask (badger_store (mem_kv 8) Hour) (\<lambda>u. None) ex_now (ex_req ''k'' ''a'') ex_db))
    \<and> sound_store (mem_kv 8) (snd (fst (ReplayTask (badger_store (mem_kv 8) Hour) ex_now (ex_req ''k'' ''a'') ex_db init_metrics)))
    \<and> sound_store (mem_kv 8) (snd (DeleteTask (badger_store (mem_kv 8) Hour) ex_now (ex_req ''k'' ''a'') ex_db))
    \<and> sound_store (mem_kv 8) (snd (api_DeleteTasks (badger_store (mem_kv 8) Hour) (ex_req ''k'' ''a'') ex_db))"
  by (rule handlers_keep_records_sound [OF ex_badger ex_sound _ ex_db_fresh]; code_simp)

end
