(* ===== verification/ScrapeTheorems.thy ===== *)
theory ScrapeTheorems
  imports HandlerTheorems
begin

text \<open>
  The properties of a scrape: what \<open>GET /metrics\<close> sends over \<open>BadgerStore\<close>, with a
  connection that takes everything and with one that breaks.
\<close>

definition buffer :: "string io" where
  "buffer w s = (None, w @ s)"

text \<open>What \<open>io.Writer\<close> promises: a write without an error takes the whole text, one with an error a part of it.\<close>

definition appends :: "string io \<Rightarrow> bool" where
  "appends io \<longleftrightarrow> (\<forall>w s. case io w s of (None, w') \<Rightarrow> w' = w @ s | (Some e, w') \<Rightarrow> \<exists>p. prefix p s \<and> w' = w @ p)"

lemma writes_prefix:
  assumes "appends io"
  shows "\<exists>p. prefix p (concat ss) \<and> writes io ss w = (fst (writes io ss w), w @ p)
    \<and> (fst (writes io ss w) = None \<longrightarrow> p = concat ss)"
proof (induction ss arbitrary: w)
  case (Cons s ss)
  obtain e w' where r: "io w s = (e, w')" by fastforce
  with assms have a: "case e of None \<Rightarrow> w' = w @ s | Some e \<Rightarrow> \<exists>p. prefix p s \<and> w' = w @ p"
    unfolding appends_def by (metis (mono_tags, lifting) case_prod_conv)
  show ?case
  proof (cases e)
    case None
    with Cons.IH [of w'] r a show ?thesis by (auto simp: prefix_def)
  next
    case (Some x)
    with r a show ?thesis by (auto simp: prefix_def)
  qed
qed simp

definition scrape_snapshot :: "'db kv \<Rightarrow> time \<Rightarrow> 'db \<Rightarrow> snapshot" where
  "scrape_snapshot kv now db =
     \<lparr>snap_ByStatus = ByStatus (Counts kv now db), snap_Overdue = Overdue (Counts kv now db)\<rparr>"

lemma api_Metrics_writes:
  assumes "wf_metrics m"
  shows "api_Metrics (badger_store kv ttl) now io db m = \<lparr>rp_status = 200, rp_body = PlainText
     (snd (writes io (page_texts (scrape_snapshot kv now db) m) []))\<rparr>"
  by (simp add: api_Metrics_def Write_writes [OF assms] scrape_snapshot_def Let_def)

text \<open>The gauges of the page.\<close>

definition gauge_text :: "string \<Rightarrow> nat \<Rightarrow> string" where
  "gauge_text name n = name @ '' '' @ dec_digits n @ newline"

lemma format_nat: "n < 10 ^ 15 \<Longrightarrow> format (float_of_int (int n)) = dec_digits n"
  using format_int [of "int n"] by (simp add: dec_int_def)

lemma page_gauges:
  assumes "\<And>s. (case snap_ByStatus sn s of None \<Rightarrow> 0 | Some k \<Rightarrow> k) < 10 ^ 15" and "snap_Overdue sn < 10 ^ 15"
  shows "\<exists>rest. page_texts sn m =
    header_text ''schedy_tasks'' ''gauge'' ''Tasks currently in each lifecycle status.'' #
    map (\<lambda>s. gauge_text (''schedy_tasks{status='' @ quoted s @ ''}'')
      (case snap_ByStatus sn s of None \<Rightarrow> 0 | Some k \<Rightarrow> k)) Statuses @
    [header_text ''schedy_tasks_overdue'' ''gauge'' ''Pending tasks whose execute_at has already passed.'',
     gauge_text ''schedy_tasks_overdue'' (snap_Overdue sn)] @ rest"
proof -
  have "line_text ''schedy_tasks'' (''status='' @ quoted s)
      (float_of_int (case snap_ByStatus sn s of None \<Rightarrow> 0 | Some n \<Rightarrow> int n))
    = gauge_text (''schedy_tasks{status='' @ quoted s @ ''}'') (case snap_ByStatus sn s of None \<Rightarrow> 0 | Some k \<Rightarrow> k)" for s
    using assms(1) [of s] format_nat [of "case snap_ByStatus sn s of None \<Rightarrow> 0 | Some k \<Rightarrow> k"]
    by (cases "snap_ByStatus sn s") (simp_all add: line_text_def gauge_text_def)
  moreover have "line_text ''schedy_tasks_overdue'' [] (float_of_int (int (snap_Overdue sn)))
    = gauge_text ''schedy_tasks_overdue'' (snap_Overdue sn)"
    using format_nat [OF assms(2)] by (simp add: line_text_def gauge_text_def)
  ultimately show ?thesis unfolding page_texts_def by simp
qed



end
