(* ===== verification/SystemTheorems.thy ===== *)
theory SystemTheorems
  imports SystemBound SystemAlone ScrapeTheorems
begin

text \<open>
  The properties of the running process over \<open>BadgerStore\<close>: they hold in every state that
  any interleaving of ticks, deliveries, requests, expiries, shutdowns, crashes and restarts
  can reach, for every database that behaves as \<open>badger\<close> says.
\<close>

text \<open>The process that \<open>main\<close> starts: ticks every ten seconds, entries expire as they do.\<close>

definition schedy :: "'db kv \<Rightarrow> duration \<Rightarrow> runner_cfg \<Rightarrow> nat \<Rightarrow> (string \<Rightarrow> (string \<times> string) option) \<Rightarrow> 'db world" where
  "schedy kv ttl cfg slots parse_url =
     \<lparr>w_store = badger_store kv ttl, w_cfg = cfg, w_slots = slots, w_interval = 10 * Second,
      w_parse_url = parse_url, w_expire = expires kv\<rparr>"

lemma schedy_simps [simp]:
  "w_store (schedy kv ttl cfg slots parse_url) = badger_store kv ttl"
  "w_cfg (schedy kv ttl cfg slots parse_url) = cfg" "w_slots (schedy kv ttl cfg slots parse_url) = slots"
  "w_interval (schedy kv ttl cfg slots parse_url) = 10 * Second"
  by (simp_all add: schedy_def)

lemma schedy_runs: "runs_on (badger_store kv ttl) (expires kv) (schedy kv ttl cfg slots parse_url)"
  by (simp add: runs_on_def schedy_def Second_def max_duration_def)

lemma sound_store_iff: "sound_store kv db \<longleftrightarrow> wf_store kv db \<and> all_sound (view kv db)"
  by (simp add: sound_store_def all_sound_def)

section \<open>An example run\<close>

definition ex_world :: "item list world" where
  "ex_world = schedy (mem_kv 8) Hour ex_cfg 1 (\<lambda>u. None)"

definition ex_clock :: time where "ex_clock = 1700000001 * Second"

lemma ex_recovered: "RecoverRunning (mem_kv 8) ttl ex_db = (None, ex_db)"
proof -
  have "\<forall>t \<in> set (tasks_of (mem_kv 8) ex_db). Status t \<noteq> StatusRunning"
  proof -
    have "Status ex_pending \<noteq> StatusRunning" "Status ex_done \<noteq> StatusRunning" by code_simp+
    then show ?thesis by (simp add: ex_db_def mem_tasks_of ex_storable)
  qed
  then show ?thesis by (rule mem_RecoverRunning_none [OF ex_db_wf(1)])
qed

lemma ex_due: "GetDueTasks (mem_kv 8) ex_clock (ex_clock + 10 * Second) (int MaxDueBatch) ex_db = ([ex_pending], None)"
proof -
  have f: "fits16 (Unix (ex_clock + 10 * Second))" by code_simp
  let ?xs = "filter (due_now (ex_clock + 10 * Second)) (tasks_of (mem_kv 8) ex_db)"
  have "distinct ?xs" using badger.distinct_IDs [OF ex_badger ex_db_wf(1)] by (simp add: distinct_map)
  moreover have "due_now (ex_clock + 10 * Second) ex_pending" "\<not> due_now (ex_clock + 10 * Second) ex_done"
    by code_simp+
  then have "set ?xs = {ex_pending}" by (auto simp: ex_db_def mem_tasks_of [OF ex_storable(1)])
  ultimately have "?xs = [ex_pending]" by (rule distinct_singleton_set)
  then show ?thesis
    by (simp add: badger.GetDueTasks_eq [OF ex_badger ex_db_wf(1) f] due_limit_def MaxDueBatch_def)
qed

text \<open>A state with one goroutine, and what of it the next step needs.\<close>

definition lone :: "phase \<Rightarrow> item list \<Rightarrow> nat \<Rightarrow> (time \<times> time \<times> task) list \<Rightarrow> item list sys \<Rightarrow> bool" where
  "lone p db n l s \<longleftrightarrow> reachable ex_world ex_db s \<and> sy_jobs s = [\<lparr>j_task = ex_pending, j_phase = p\<rparr>]
     \<and> sy_now s = ex_clock \<and> sy_db s = db \<and> sy_slots s = n \<and> sy_log s = l
     \<and> sy_disturbed s = {} \<and> sy_lost s = {}"

lemma lone_step:
  assumes "lone p db n l s" and "gstep ex_world ex_pending s p s' (Some q)"
    and "sy_db s' = db'" and "sy_slots s' = n'" and "sy_log s' = l'" and "sy_disturbed s' = {}" and "sy_lost s' = {}"
  shows "\<exists>s. lone q db' n' l' s"
proof -
  have "sy_jobs s = [] @ \<lparr>j_task = ex_pending, j_phase = p\<rparr> # []" using assms(1) by (simp add: lone_def)
  from goroutine [OF this assms(2)] assms(1) have "reachable ex_world ex_db (with_jobs (resume ex_pending (Some q)) s')"
    by (auto simp: lone_def intro: step_on)
  moreover have "sy_now s' = ex_clock" using gstep_frame [OF assms(2)] assms(1) by (simp add: lone_def)
  ultimately have "lone q db' n' l' (with_jobs (resume ex_pending (Some q)) s')"
    using assms(3-7) by (simp add: lone_def resume_def)
  then show ?thesis ..
qed

lemma ex_facts:
  "sane_clock ex_clock" "Status ex_pending = StatusPending" "ExecuteAt ex_pending \<le> ex_clock"
  "\<not> stale ex_cfg (time_Sub ex_clock (ExecuteAt ex_pending))" "Attempts ex_pending = []"
  by code_simp+

lemma ex_world_simps:
  "w_store ex_world = badger_store (mem_kv 8) Hour" "w_cfg ex_world = ex_cfg" "w_slots ex_world = 1"
  "w_interval ex_world = 10 * Second"
  by (simp_all add: ex_world_def)

lemma ex_claimed: "\<exists>s. lone Claimed ex_db 0 [] s"
proof -
  let ?s0 = "boot (badger_store (mem_kv 8) Hour) (started ex_clock ex_db)"
  have r0: "reachable ex_world ex_db ?s0"
    using start_up [OF ex_facts(1), of ex_world ex_db] by (simp add: ex_world_simps)
  define s1 where "s1 = ?s0\<lparr>sy_due := [ex_pending]\<rparr>"
  have "sstep ex_world ?s0 s1" unfolding s1_def
    by (rule looping, rule tick [where start = ex_clock])
      (use ex_due ex_facts in \<open>simp_all add: ex_world_simps ex_recovered boot_def started_def\<close>)
  with r0 have r1: "reachable ex_world ex_db s1" by (rule step_on)
  define s2 where "s2 = s1\<lparr>sy_due := [], sy_inflight := {ID ex_pending},
    sy_jobs := sy_jobs s1 @ [\<lparr>j_task = ex_pending, j_phase = Claimed\<rparr>]\<rparr>"
  have "sstep ex_world s1 s2" unfolding s2_def by (rule looping, rule claim_next) (simp_all add: s1_def claim_def)
  with r1 have "reachable ex_world ex_db s2" by (rule step_on)
  then have "lone Claimed ex_db 0 [] s2" by (simp add: lone_def s2_def s1_def ex_recovered)
  then show ?thesis ..
qed

lemma ex_stamped: "\<exists>s. lone (Stamped ex_clock) ex_db 1 [] s"
proof -
  obtain s where s: "lone Claimed ex_db 0 [] s" using ex_claimed ..
  have "timer_for ex_clock ex_pending = 0"
    using ex_facts(3) by (simp add: timer_for_def time_Sub_def max_def min_def max_duration_def min_duration_def)
  with s have "gstep ex_world ex_pending s Claimed s (Some (Waiting ex_clock))"
    using arm [of ex_world ex_pending s] by (simp add: lone_def)
  from lone_step [OF s this, of ex_db 0 "[]"] s obtain s where s: "lone (Waiting ex_clock) ex_db 0 [] s" by (auto simp: lone_def)
  have "gstep ex_world ex_pending s (Waiting ex_clock) s (Some Queued)" by (rule fire) (use s in \<open>simp add: lone_def\<close>)
  from lone_step [OF s this, of ex_db 0 "[]"] s obtain s where s: "lone Queued ex_db 0 [] s" by (auto simp: lone_def)
  have "gstep ex_world ex_pending s Queued (take_slot s) (Some Slotted)"
    by (rule slot) (use s in \<open>simp add: lone_def ex_world_simps\<close>)
  from lone_step [OF s this, of ex_db 1 "[]"] s obtain s where s: "lone Slotted ex_db 1 [] s" by (auto simp: lone_def)
  have "gstep ex_world ex_pending s Slotted s (Some (Stamped ex_clock))"
    using stamp [of ex_world ex_pending s] s by (simp add: lone_def)
  from lone_step [OF s this, of ex_db 1 "[]"] s show ?thesis by (auto simp: lone_def)
qed

definition ex_marked_db :: "item list" where
  "ex_marked_db = snd (Update (mem_kv 8) Hour (mark_running ex_pending) ex_db)"

lemma ex_mark: "Update (mem_kv 8) Hour (mark_running ex_pending) ex_db = (None, ex_marked_db)"
  unfolding ex_marked_db_def by (rule mem_Update [OF ex_room(1)]) code_simp

text \<open>The pending task of the example, picked up by the first tick and marked running.\<close>

lemma ex_trying:
  "\<exists>s. lone (Trying (mark_running ex_pending) (newAttempt (Retries ex_pending) (RetryInterval ex_pending)
     (RetryMode ex_pending)) 0 ex_clock) ex_marked_db 1 [] s"
proof -
  obtain s where s: "lone (Stamped ex_clock) ex_db 1 [] s" using ex_stamped ..
  let ?late = "time_Sub ex_clock (ExecuteAt ex_pending)"
  have "recheck (badger_store (mem_kv 8) Hour) ex_cfg ex_pending ex_clock ex_db = Fire ex_pending ?late"
    using task_store.recheck_spec [OF badger.contract [OF ex_badger] ex_db_wf(1), of ex_pending Hour ex_cfg ex_clock]
      ex_facts ex_db_view(3) ex_id by (simp add: fireable_def)
  with s have "gstep ex_world ex_pending s (Stamped ex_clock) (observe_with (ObserveLateness ?late) s)
      (Some (Marking ex_pending ex_clock))"
    by (intro on_time) (simp add: ex_world_simps lone_def)
  from lone_step [OF s this, of ex_db 1 "[]"] s obtain s where s: "lone (Marking ex_pending ex_clock) ex_db 1 [] s"
    by (auto simp: lone_def)
  from lone_step [OF s mark, of ex_marked_db 1 "[]"] s ex_mark ex_facts(5) show ?thesis
    by (simp add: lone_def ex_world_simps)
qed

lemma ex_tried: "\<exists>s p. lone p ex_marked_db 1 [(ex_clock, ex_clock, mark_running ex_pending)] s"
proof -
  obtain a s where s: "lone (Trying (mark_running ex_pending) a 0 ex_clock) ex_marked_db 1 [] s" using ex_trying ..
  from lone_step [OF s send, of ex_marked_db 1 "[(ex_clock, ex_clock, mark_running ex_pending)]"] s
  show ?thesis by (auto simp: lone_def)
qed

section \<open>Safety\<close>

text \<open>
  C5: Soundness of the stored data in every reachable state: whatever the interleaving, and
  whichever writes failed, the database keeps the store's invariant, and every stored task
  has its attempts numbered without a gap and a finishing time exactly when it is finished.
\<close>
theorem system_keeps_records_sound:
  assumes "badger kv" and "sound_store kv db" and "reachable (schedy kv ttl cfg slots parse_url) db s"
  shows "sound_store kv (sy_db s)"
  using expiring_store.reachable_data [OF badger.expiring_contract [OF assms(1)] schedy_runs assms(3)] assms(2)
  by (simp add: sound_store_iff data_ok_def)

lemma system_keeps_records_sound_witness:
  "\<exists>s. reachable ex_world ex_db s \<and> view (mem_kv 8) (sy_db s) (ID ex_pending) = Some (mark_running ex_pending)
    \<and> sound_store (mem_kv 8) (sy_db s)"
proof -
  obtain s p where s: "lone p ex_marked_db 1 [(ex_clock, ex_clock, mark_running ex_pending)] s"
    using ex_tried by blast
  then have "reachable (schedy (mem_kv 8) Hour ex_cfg 1 (\<lambda>u. None)) ex_db s"
    by (simp add: lone_def ex_world_def)
  then have "sound_store (mem_kv 8) (sy_db s)" by (rule system_keeps_records_sound [OF ex_badger ex_sound])
  moreover have "view (mem_kv 8) ex_marked_db (ID (mark_running ex_pending)) = Some (mark_running ex_pending)"
    using badger.Update_map [OF ex_badger ex_db_wf(1) _ ex_mark] ex_wf(1) by (simp add: mark_running_ok)
  ultimately show ?thesis using s by (auto simp: lone_def)
qed

text \<open>
  C7: One goroutine per task: in every reachable state no two delivery goroutines work for the
  same task, whatever ticks and requests interleave, and the claims held are exactly the ids
  of the goroutines there are, so none is leaked.
\<close>
theorem one_goroutine_per_task:
  assumes "reachable W db s"
  shows "distinct (map (\<lambda>j. ID (j_task j)) (sy_jobs s))
    \<and> sy_inflight s = (\<lambda>j. ID (j_task j)) ` set (sy_jobs s)"
  using reachable_claims [OF assms] by (simp add: claims_ok_def held_def o_def image_image)

lemma one_goroutine_per_task_witness:
  "\<exists>s :: item list sys. sy_jobs s \<noteq> [] \<and> distinct (map (\<lambda>j. ID (j_task j)) (sy_jobs s))
    \<and> sy_inflight s = (\<lambda>j. ID (j_task j)) ` set (sy_jobs s)"
proof -
  obtain s p where s: "lone p ex_marked_db 1 [(ex_clock, ex_clock, mark_running ex_pending)] s"
    using ex_tried by blast
  then have "sy_jobs s \<noteq> []" and "reachable ex_world ex_db s" by (simp_all add: lone_def)
  then show ?thesis using one_goroutine_per_task [of ex_world ex_db s] by blast
qed

text \<open>
  C8: The delivery slots: the goroutines past the semaphore are never more than the configured
  number, the in-flight gauge shows exactly how many they are, and every slot taken belongs
  to a goroutine that is still there.
\<close>
theorem slots_bounded:
  assumes "reachable W db s"
  shows "length (filter (\<lambda>j. has_slot (j_phase j)) (sy_jobs s)) \<le> w_slots W
    \<and> sy_slots s = length (filter (\<lambda>j. has_slot (j_phase j)) (sy_jobs s))
    \<and> inflight_gauge (sy_metrics s) = of_nat (length (filter (\<lambda>j. has_slot (j_phase j)) (sy_jobs s)))"
  using reachable_claims [OF assms] by (simp add: claims_ok_def slot_holders_def o_def)

lemma slots_bounded_witness:
  "\<exists>s :: item list sys. sy_slots s = 1 \<and> w_slots ex_world = 1
    \<and> length (filter (\<lambda>j. has_slot (j_phase j)) (sy_jobs s)) \<le> w_slots ex_world
    \<and> inflight_gauge (sy_metrics s) = of_nat (length (filter (\<lambda>j. has_slot (j_phase j)) (sy_jobs s)))"
proof -
  obtain s p where s: "lone p ex_marked_db 1 [(ex_clock, ex_clock, mark_running ex_pending)] s"
    using ex_tried by blast
  then have "sy_slots s = 1" and "reachable ex_world ex_db s" by (simp_all add: lone_def)
  then show ?thesis using slots_bounded [of ex_world ex_db s] ex_world_simps(3) by blast
qed



text \<open>
  C10: Nothing hangs in running: a task that is stored as running is in the hands of a
  goroutine that is delivering it, unless the final write of its run failed (or, after a
  restart, the recovery did); so once a process has restarted and recovered, no task is left
  running without a goroutine.
\<close>
theorem running_is_owned:
  assumes "badger kv" and "sound_store kv db" and "reachable (schedy kv ttl cfg slots parse_url) db s"
    and "view kv (sy_db s) x = Some t" and "Status t = StatusRunning" and "x \<notin> sy_lost s"
  shows "\<exists>j \<in> set (sy_jobs s). ID (j_task j) = x \<and> delivering (j_phase j)"
proof -
  have "wf_store kv db" "all_sound (view kv db)" using assms(2) by (simp_all add: sound_store_iff)
  from expiring_store.reachable_owned [OF badger.expiring_contract [OF assms(1)] schedy_runs assms(3) this] assms(4-6)
  show ?thesis unfolding owned_ok_def by blast
qed

lemma ex_marked_view: "view (mem_kv 8) ex_marked_db (ID ex_pending) = Some (mark_running ex_pending)"
  using badger.Update_map [OF ex_badger ex_db_wf(1) _ ex_mark] ex_wf(1) by (simp add: mark_running_ok)

lemma running_is_owned_witness:
  "\<exists>s :: item list sys. view (mem_kv 8) (sy_db s) (ID ex_pending) = Some (mark_running ex_pending)
    \<and> (\<exists>j \<in> set (sy_jobs s). ID (j_task j) = ID ex_pending \<and> delivering (j_phase j))"
proof -
  obtain s p where s: "lone p ex_marked_db 1 [(ex_clock, ex_clock, mark_running ex_pending)] s"
    using ex_tried by blast
  then have r: "reachable (schedy (mem_kv 8) Hour ex_cfg 1 (\<lambda>u. None)) ex_db s"
    and v: "view (mem_kv 8) (sy_db s) (ID ex_pending) = Some (mark_running ex_pending)"
    and l: "ID ex_pending \<notin> sy_lost s"
    using ex_marked_view by (simp_all add: lone_def ex_world_def)
  from running_is_owned [OF ex_badger ex_sound r v mark_running_simps(3) l] v show ?thesis by blast
qed

text \<open>
  C6: A task is delivered at most once more than its retries, over all ticks, batches and
  goroutines, as long as nothing but its own run interferes with it: no request rewrites it,
  none of its writes fails, the process is not restarted.
\<close>
theorem deliveries_bounded:
  assumes "badger kv" and "sound_store kv db" and "reachable (schedy kv ttl cfg slots parse_url) db s"
    and "ID u \<notin> sy_disturbed s" and "(at, ft, u) \<in> set (sy_log s)"
  shows "length (filter (\<lambda>(at, ft, v). ID v = ID u) (sy_log s)) \<le> nat (sint (Retries u)) + 1"
proof -
  have "wf_store kv db" "all_sound (view kv db)" using assms(2) by (simp_all add: sound_store_iff)
  from expiring_store.reachable_bounded [OF badger.expiring_contract [OF assms(1)] schedy_runs assms(3) this] assms(4)
  obtain R where R: "runs_ok R (view kv) s (ID u)" unfolding bounded_ok_def by blast
  then have "Retries u = R" using assms(5) by (force simp: runs_ok_def agrees_def)
  moreover have "deliveries (ID u) (sy_log s) \<le> Suc (nat (sint R))" by (rule runs_le [OF R])
  ultimately show ?thesis by (simp add: deliveries_def)
qed

lemma deliveries_bounded_witness:
  "\<exists>s :: item list sys. ID (mark_running ex_pending) \<notin> sy_disturbed s
    \<and> length (filter (\<lambda>(at, ft, v). ID v = ID (mark_running ex_pending)) (sy_log s)) = 1
    \<and> length (filter (\<lambda>(at, ft, v). ID v = ID (mark_running ex_pending)) (sy_log s))
      \<le> nat (sint (Retries (mark_running ex_pending))) + 1"
proof -
  obtain s p where s: "lone p ex_marked_db 1 [(ex_clock, ex_clock, mark_running ex_pending)] s"
    using ex_tried by blast
  then have r: "reachable (schedy (mem_kv 8) Hour ex_cfg 1 (\<lambda>u. None)) ex_db s"
    and d: "ID (mark_running ex_pending) \<notin> sy_disturbed s"
    and l: "sy_log s = [(ex_clock, ex_clock, mark_running ex_pending)]"
    by (simp_all add: lone_def ex_world_def)
  have "(ex_clock, ex_clock, mark_running ex_pending) \<in> set (sy_log s)" by (simp add: l)
  from deliveries_bounded [OF ex_badger ex_sound r d this] d l show ?thesis by (intro exI [of _ s]) simp
qed

section \<open>Progress\<close>

text \<open>
  C16: A delivery goroutine comes to an end: each of its steps brings it closer to its return
  in a well-founded order, so it takes finitely many, and it is never stuck: where it need not
  wait for its timer, a delivery slot, its retry delay or a new UUID, it can take a step.
\<close>
theorem goroutine_ends:
  "wf closer \<and> (gstep W t s p s' (Some q) \<longrightarrow> (q, p) \<in> closer)
    \<and> (ready W s p \<longrightarrow> (\<exists>s' p'. gstep W t s p s' p'))"
  using wf_closer gstep_closer gstep_progress by blast

lemma goroutine_ends_witness:
  "(Stamped ex_clock, Slotted) \<in> closer"
proof -
  obtain s where "lone (Stamped ex_clock) ex_db 1 [] s" using ex_stamped ..
  then have "gstep ex_world ex_pending s Slotted s (Some (Stamped ex_clock))"
    using stamp [of ex_world ex_pending s] by (simp add: lone_def)
  with goroutine_ends [of ex_world ex_pending s Slotted s "Stamped ex_clock"] show ?thesis by blast
qed

section \<open>Undisturbed deliveries\<close>

text \<open>
  C11: The process against the sequential reading of its goroutine: when only the clock moves
  between the steps of a goroutine that waits for a slot, then, unless a shutdown came first,
  these steps are a run of the process that does exactly what \<open>run_task\<close> does, for the
  answers, random numbers and UUID it met and times in their order: the same deliveries and
  callbacks, the same store, the same counters, and the slot is free again.
\<close>
theorem undisturbed_delivery:
  assumes "alone W js t js' s Queued s'" and "\<not> sy_stop s"
    and "sy_jobs s = js @ \<lparr>j_task = t, j_phase = Queued\<rparr> # js'"
  shows "(sstep W)\<^sup>*\<^sup>* s s' \<and> sy_jobs s' = js @ js' \<and> sy_slots s' = sy_slots s
    \<and> (\<exists>env ft fin uuid outs calls. sy_now s \<le> ft \<and> ft \<le> fin \<and> fin \<le> sy_now s'
      \<and> run_task (w_store W) (w_cfg W) env t ft fin uuid (sy_db s) (sy_metrics s)
          = (outs @ calls, sy_db s', sy_metrics s')
      \<and> map (\<lambda>(at, ft, u). u) (sy_log s') = map (\<lambda>(at, ft, u). u) (sy_log s) @ outs
      \<and> sy_calls s' = sy_calls s @ calls)"
proof -
  have e: "(\<lambda>(at, ft, u). u) = snd \<circ> snd" by auto
  from alone_steps [OF assms(1,3)] alone_run_task [OF assms(1,2)] show ?thesis unfolding e by blast
qed

text \<open>A claim whose task was rescheduled while it waited for its slot.\<close>

lemma undisturbed_delivery_witness:
  "\<exists>s s'. sy_db s = ex_db \<and> (sstep ex_world)\<^sup>*\<^sup>* s s' \<and> sy_jobs s \<noteq> [] \<and> sy_jobs s' = []
    \<and> (\<exists>env ft fin uuid outs calls. run_task (w_store ex_world) ex_cfg env (ex_pending\<lparr>ExecuteAt := 0\<rparr>) ft fin uuid
          ex_db (sy_metrics s) = (outs @ calls, sy_db s', sy_metrics s'))"
proof -
  let ?t = "ex_pending\<lparr>ExecuteAt := 0\<rparr>"
  let ?s = "(started ex_clock ex_db)\<lparr>sy_jobs := [\<lparr>j_task = ?t, j_phase = Queued\<rparr>]\<rparr>"
  let ?at = "\<lambda>q s. with_jobs ([] @ \<lparr>j_task = ?t, j_phase = q\<rparr> # []) s"
  let ?s1 = "?at Slotted (take_slot ?s)"
  let ?s2 = "?at (Stamped ex_clock) ?s1"
  let ?s3 = "?at Leaving ?s2"
  have "ExecuteAt ex_pending \<noteq> 0" by code_simp
  then have "recheck (badger_store (mem_kv 8) Hour) ex_cfg ?t ex_clock ex_db = Drop"
    using task_store.recheck_spec [OF badger.contract [OF ex_badger] ex_db_wf(1), of ?t Hour ex_cfg ex_clock] ex_db_view(3)
    by (simp add: fireable_def ex_id)
  then have "gstep ex_world ?t ?s2 (Stamped ex_clock) ?s2 (Some Leaving)"
    by (intro drop_claim) (simp add: ex_world_simps started_def)
  moreover have "gstep ex_world ?t ?s1 Slotted ?s1 (Some (Stamped ex_clock))"
    using stamp [of ex_world ?t ?s1] by simp
  moreover have "gstep ex_world ?t ?s Queued (take_slot ?s) (Some Slotted)"
    by (rule slot) (simp add: ex_world_simps started_def)
  ultimately have "alone ex_world [] ?t [] ?s Queued (with_jobs ([] @ []) (let_go (ID ?t) (free_slot ?s3)))"
    by (meson alone.moves alone.returns leave)
  moreover have "\<not> sy_stop ?s" by (simp add: started_def)
  moreover have "sy_jobs ?s = [] @ \<lparr>j_task = ?t, j_phase = Queued\<rparr> # []" by simp
  ultimately have "(sstep ex_world)\<^sup>*\<^sup>* ?s (with_jobs ([] @ []) (let_go (ID ?t) (free_slot ?s3)))
    \<and> (\<exists>env ft fin uuid outs calls. run_task (w_store ex_world) (w_cfg ex_world) env ?t ft fin uuid (sy_db ?s) (sy_metrics ?s)
        = (outs @ calls, sy_db (with_jobs ([] @ []) (let_go (ID ?t) (free_slot ?s3))),
           sy_metrics (with_jobs ([] @ []) (let_go (ID ?t) (free_slot ?s3)))))"
    by (metis undisturbed_delivery)
  then show ?thesis
    by (intro exI [of _ ?s] exI [of _ "with_jobs ([] @ []) (let_go (ID ?t) (free_slot ?s3))"]) (auto simp: ex_world_simps)
qed

end
