(* ===== verification/Server.thy ===== *)
theory Server
  imports Handler Config
begin

text \<open>
  How a request reaches its handler: the CORS wrapper of \<open>internal/api/cors.go\<close> around the
  \<open>http.ServeMux\<close> that \<open>main\<close> fills, whose handlers sit behind \<open>WithAuth\<close> except for the
  two probes. A request here has a method and the segments of its path, as the mux splits a
  cleaned path (a trailing slash is a last empty segment). The mux answers 405 to a path it
  knows under another method and 404 to every other path; a \<open>GET\<close> pattern takes \<open>HEAD\<close> as well.
\<close>

record wire_request =
  wr_method :: string
  wr_path :: "string list"
  wr_http :: http_req

section \<open>CORS\<close>

definition allowed_origins :: "string \<Rightarrow> string list" where
  "allowed_origins origins = map trim_space (split_on (CHR '','') origins)"

definition preflight :: "wire_request \<Rightarrow> bool" where
  "preflight r \<longleftrightarrow> wr_method r = ''OPTIONS'' \<and> hr_header (wr_http r) ''Access-Control-Request-Method'' \<noteq> []"

definition preflight_headers :: "(string \<times> string) list" where
  "preflight_headers =
     [(''Access-Control-Allow-Methods'', ''GET, POST, PUT, DELETE''),
      (''Access-Control-Allow-Headers'', ''Content-Type, X-API-Key, Idempotency-Key''),
      (''Access-Control-Max-Age'', ''86400'')]"

text \<open>The headers that are set, and the reply if the request ends here.\<close>

definition CORS :: "string \<Rightarrow> wire_request \<Rightarrow> (string \<times> string) list \<times> reply option" where
  "CORS origins r =
     (if origins = [] then ([], None)
      else let allowed = allowed_origins origins;
               origin = hr_header (wr_http r) ''Origin'';
               vary = [(''Vary'', ''Origin'')]
        in if origin \<noteq> [] \<and> (''*'' \<in> set allowed \<or> origin \<in> set allowed) then
             let hs = vary @ [(''Access-Control-Allow-Origin'', origin)]
             in if preflight r then (hs @ preflight_headers, Some no_content) else (hs, None)
           else (vary, None))"

section \<open>Routes\<close>

datatype segment = Lit string | Wild

datatype endpoint =
    EpHealth | EpReady | EpMetrics | EpCreate | EpList | EpGet | EpUpdate | EpReplay | EpCancel
  | EpDeleteMany | EpBackup

definition routes :: "(string \<times> segment list \<times> endpoint) list" where
  "routes =
     [(''GET'', [Lit ''healthz''], EpHealth),
      (''GET'', [Lit ''readyz''], EpReady),
      (''GET'', [Lit ''metrics''], EpMetrics),
      (''POST'', [Lit ''tasks''], EpCreate),
      (''GET'', [Lit ''tasks''], EpList),
      (''GET'', [Lit ''tasks'', Wild], EpGet),
      (''PUT'', [Lit ''tasks'', Wild], EpUpdate),
      (''POST'', [Lit ''tasks'', Wild, Lit ''run''], EpReplay),
      (''DELETE'', [Lit ''tasks'', Wild], EpCancel),
      (''DELETE'', [Lit ''tasks''], EpDeleteMany),
      (''GET'', [Lit ''admin'', Lit ''backup''], EpBackup)]"

text \<open>The values of the wildcards, if the path matches. A wildcard does not match an empty segment.\<close>

fun match_path :: "segment list \<Rightarrow> string list \<Rightarrow> string list option" where
  "match_path [] [] = Some []"
| "match_path (Lit a # ps) (s # ss) = (if s = a then match_path ps ss else None)"
| "match_path (Wild # ps) (s # ss) = (if s = [] then None else map_option (Cons s) (match_path ps ss))"
| "match_path _ _ = None"

definition match_method :: "string \<Rightarrow> string \<Rightarrow> bool" where
  "match_method pat m \<longleftrightarrow> m = pat \<or> pat = ''GET'' \<and> m = ''HEAD''"

definition path_id :: "string list \<Rightarrow> string" where
  "path_id vs = (case vs of [] \<Rightarrow> [] | v # _ \<Rightarrow> v)"

definition mux :: "wire_request \<Rightarrow> reply + endpoint \<times> string" where
  "mux r =
     (let here = filter (\<lambda>(m, p, e). match_path p (wr_path r) \<noteq> None) routes
      in case find (\<lambda>(m, p, e). match_method m (wr_method r)) here of
          Some (m, p, e) \<Rightarrow> Inr (e, path_id (the (match_path p (wr_path r))))
        | None \<Rightarrow> Inl (if here = [] then http_Error ''404 page not found'' 404
            else http_Error ''Method Not Allowed'' 405))"

section \<open>Serving\<close>

text \<open>What one request finds outside: clock, UUID, URL parser, response writer, and the backup stream of the database.\<close>

record 's site =
  site_now :: time
  site_uuid :: string
  site_parse_url :: "string \<Rightarrow> (string \<times> string) option"
  site_writer :: "string io"
  site_version :: string
  site_backup :: "'s \<Rightarrow> string"

definition handle ::
  "'s Store \<Rightarrow> 's site \<Rightarrow> endpoint \<Rightarrow> http_req \<Rightarrow> 's \<Rightarrow> metrics \<Rightarrow> ((reply \<times> 's) \<times> metrics) option" where
  "handle st e ep r s m =
     (case ep of
        EpHealth \<Rightarrow> Some ((Health (site_version e), s), m)
      | EpReady \<Rightarrow> Some ((Ready st s, s), m)
      | EpMetrics \<Rightarrow> Some ((api_Metrics st (site_now e) (site_writer e) s m, s), m)
      | EpCreate \<Rightarrow> map_option (\<lambda>p. (p, m)) (CreateTask st (site_parse_url e) (site_now e) (site_uuid e) r s)
      | EpList \<Rightarrow> Some ((api_ListTasks st r s, s), m)
      | EpGet \<Rightarrow> Some ((api_GetTask st r s, s), m)
      | EpUpdate \<Rightarrow> Some (UpdateTask st (site_parse_url e) (site_now e) r s, m)
      | EpReplay \<Rightarrow> Some (ReplayTask st (site_now e) r s m)
      | EpCancel \<Rightarrow> Some (DeleteTask st (site_now e) r s, m)
      | EpDeleteMany \<Rightarrow> Some (api_DeleteTasks st r s, m)
      | EpBackup \<Rightarrow> Some ((\<lparr>rp_status = 200, rp_body = PlainText (site_backup e s)\<rparr>, s), m))"

definition guarded_by_key :: "endpoint \<Rightarrow> bool" where
  "guarded_by_key ep \<longleftrightarrow> ep \<notin> {EpHealth, EpReady}"

text \<open>The whole server: headers, reply, and the store and counters afterwards; \<open>None\<close> if it never answers.\<close>

definition serve ::
  "settings \<Rightarrow> 's Store \<Rightarrow> 's site \<Rightarrow> wire_request \<Rightarrow> 's \<Rightarrow> metrics
    \<Rightarrow> ((string \<times> string) list \<times> (reply \<times> 's) \<times> metrics) option"
where
  "serve c st e r s m =
     (case CORS (set_cors c) r of
        (hs, Some rep) \<Rightarrow> Some (hs, (rep, s), m)
      | (hs, None) \<Rightarrow>
          (case mux r of
             Inl rep \<Rightarrow> Some (hs, (rep, s), m)
           | Inr (ep, tid) \<Rightarrow>
               let req = (wr_http r)\<lparr>hr_path_id := tid\<rparr>
               in case (if guarded_by_key ep then WithAuth (set_api_key c) req () else Inr ()) of
                   Inl rep \<Rightarrow> Some (hs, (rep, s), m)
                 | Inr _ \<Rightarrow> map_option (Pair hs) (handle st e ep req s m)))"

end
