(* ===== verification/ServerTheorems.thy ===== *)
theory ServerTheorems
  imports Server ScrapeTheorems
begin

text \<open>
  The properties of the server as a whole: the API key and CORS in front of the handlers,
  which requests can change anything, and the settings the process starts with.
\<close>

section \<open>Settings\<close>

text \<open>
  C29: The process starts exactly when the three numeric settings are absent or well formed:
  any duration as history TTL, a positive number of delivery slots, a positive staleness
  limit. It then runs with these values or the defaults (72 hours, 50 slots, no limit); there
  is always a slot, every value fits its 64-bit integer, and the dial guard is on unless the
  operator turned it off.
\<close>
theorem settings_exact:
  "configure env = Some c \<longleftrightarrow>
    (if env ''SCHEDY_HISTORY_TTL'' = [] then set_ttl c = 72 * Hour
     else ParseDuration (env ''SCHEDY_HISTORY_TTL'') = Some (set_ttl c))
    \<and> (if env ''SCHEDY_MAX_CONCURRENT_DELIVERIES'' = [] then set_slots c = 50
       else parse_int64 (env ''SCHEDY_MAX_CONCURRENT_DELIVERIES'') = Some (int (set_slots c)))
    \<and> (if env ''SCHEDY_MAX_STALENESS'' = [] then maxStaleness (set_runner c) = 0
       else ParseDuration (env ''SCHEDY_MAX_STALENESS'') = Some (maxStaleness (set_runner c)))
    \<and> 0 < set_slots c \<and> set_slots c < 2 ^ 63
    \<and> 0 \<le> maxStaleness (set_runner c) \<and> maxStaleness (set_runner c) \<le> max_duration
    \<and> (maxStaleness (set_runner c) = 0 \<longleftrightarrow> env ''SCHEDY_MAX_STALENESS'' = [])
    \<and> min_duration \<le> set_ttl c \<and> set_ttl c \<le> max_duration
    \<and> set_dir c = (if env ''SCHEDY_DATA_DIR'' = [] then ''data'' else env ''SCHEDY_DATA_DIR'')
    \<and> onFailureURL (set_runner c) = env ''SCHEDY_ON_FAILURE_URL''
    \<and> set_api_key c = env ''SCHEDY_API_KEY'' \<and> set_cors c = env ''SCHEDY_CORS_ORIGIN''
    \<and> set_signing c = env ''SCHEDY_SIGNING_SECRET''
    \<and> (set_guard c \<longleftrightarrow> env ''SCHEDY_ALLOW_PRIVATE_TARGETS'' = [])"
proof -
  have t: "history_ttl env = Some (set_ttl c) \<longleftrightarrow>
      (if env ''SCHEDY_HISTORY_TTL'' = [] then set_ttl c = 72 * Hour
       else ParseDuration (env ''SCHEDY_HISTORY_TTL'') = Some (set_ttl c))
      \<and> min_duration \<le> set_ttl c \<and> set_ttl c \<le> max_duration"
    using ParseDuration_range
    by (auto simp: history_ttl_def Let_def min_duration_def max_duration_def duration_defs)
  have n: "max_concurrent env = Some (set_slots c) \<longleftrightarrow>
      (if env ''SCHEDY_MAX_CONCURRENT_DELIVERIES'' = [] then set_slots c = 50
       else parse_int64 (env ''SCHEDY_MAX_CONCURRENT_DELIVERIES'') = Some (int (set_slots c)))
      \<and> 0 < set_slots c \<and> set_slots c < 2 ^ 63"
    using parse_int64_range [of "env ''SCHEDY_MAX_CONCURRENT_DELIVERIES''" "int (set_slots c)"]
    by (auto simp: max_concurrent_Some in_int64_def)
  have d: "max_staleness env = Some (maxStaleness (set_runner c)) \<longleftrightarrow>
      (if env ''SCHEDY_MAX_STALENESS'' = [] then maxStaleness (set_runner c) = 0
       else ParseDuration (env ''SCHEDY_MAX_STALENESS'') = Some (maxStaleness (set_runner c)))
      \<and> 0 \<le> maxStaleness (set_runner c) \<and> maxStaleness (set_runner c) \<le> max_duration
      \<and> (maxStaleness (set_runner c) = 0 \<longleftrightarrow> env ''SCHEDY_MAX_STALENESS'' = [])"
    using ParseDuration_range [of "env ''SCHEDY_MAX_STALENESS''" "maxStaleness (set_runner c)"]
    by (auto simp: max_staleness_Some max_duration_def)
  have "configure env = Some c \<longleftrightarrow>
      history_ttl env = Some (set_ttl c) \<and> max_concurrent env = Some (set_slots c)
      \<and> max_staleness env = Some (maxStaleness (set_runner c)) \<and> set_dir c = dataDir env
      \<and> onFailureURL (set_runner c) = env ''SCHEDY_ON_FAILURE_URL''
      \<and> set_api_key c = env ''SCHEDY_API_KEY'' \<and> set_cors c = env ''SCHEDY_CORS_ORIGIN''
      \<and> set_signing c = env ''SCHEDY_SIGNING_SECRET''
      \<and> (set_guard c \<longleftrightarrow> env ''SCHEDY_ALLOW_PRIVATE_TARGETS'' = [])"
    unfolding configure_Some by (cases c; cases "set_runner c") auto
  then show ?thesis unfolding t n d by (auto simp: dataDir_def Let_def)
qed

section \<open>Cross-origin requests\<close>


section \<open>The API key\<close>

lemma serve_cases:
  obtains (early) hs rep where "serve c st e r = (\<lambda>s m. Some (hs, (rep, s), m))"
  | (ep) hs ep tid where "mux r = Inr (ep, tid)"
      "guarded_by_key ep \<Longrightarrow> WithAuth (set_api_key c) ((wr_http r)\<lparr>hr_path_id := tid\<rparr>) () = Inr ()"
      "serve c st e r = (\<lambda>s m. map_option (Pair hs) (handle st e ep ((wr_http r)\<lparr>hr_path_id := tid\<rparr>) s m))"
proof (cases "CORS (set_cors c) r")
  case (Pair hs early)
  show ?thesis
  proof (cases early)
    case (Some rep)
    with Pair that(1) show ?thesis by (simp add: serve_def [abs_def])
  next
    case None
    show ?thesis
    proof (cases "mux r")
      case (Inl rep)
      with Pair None that(1) show ?thesis by (simp add: serve_def [abs_def])
    next
      case (Inr p)
      obtain ep tid where p: "p = (ep, tid)" by fastforce
      let ?req = "(wr_http r)\<lparr>hr_path_id := tid\<rparr>"
      show ?thesis
      proof (cases "if guarded_by_key ep then WithAuth (set_api_key c) ?req () else Inr ()")
        case (Inl rep)
        with Pair None \<open>mux r = Inr p\<close> p that(1) show ?thesis by (simp add: serve_def [abs_def] Let_def)
      next
        case (Inr u)
        with Pair None \<open>mux r = Inr p\<close> p show ?thesis
          by (intro that(2) [of ep tid hs]) (auto simp: serve_def [abs_def] Let_def)
      qed
    qed
  qed
qed


text \<open>
  A request whose method is not \<open>POST\<close>, \<open>PUT\<close> or \<open>DELETE\<close> changes neither the store
  nor a counter.
\<close>
theorem reads_change_nothing:
  assumes "wr_method r \<notin> {''POST'', ''PUT'', ''DELETE''}"
  shows "\<exists>hs rep. serve c st e r s m = Some (hs, (rep, s), m)"
proof (cases rule: serve_cases [of c st e r])
  case (ep hs ep tid)
  have "ep \<in> {EpHealth, EpReady, EpMetrics, EpList, EpGet, EpBackup}"
    using ep(1) assms by (auto simp: mux_def routes_def match_method_def Let_def split: option.splits if_splits)
  with ep(3) show ?thesis by (auto simp: handle_def)
qed auto

section \<open>All requests\<close>

text \<open>
  C22: Every request is answered, whatever its method, path, headers and body, and the store keeps its
  invariant and sound records, the counters their balance.
\<close>
theorem serve_sound:
  assumes "badger kv" and "sound_store kv db" and "sane_clock (site_now e)"
    and "fresh_id (site_uuid e) (view kv db)" and "wf_metrics m"
  shows "\<exists>hs rep db' m'. serve c (badger_store kv ttl) e r db m = Some (hs, (rep, db'), m')
    \<and> sound_store kv db' \<and> wf_metrics m'"
proof (cases rule: serve_cases [of c "badger_store kv ttl" e r])
  case (early hs rep)
  with assms show ?thesis by auto
next
  case (ep hs ep tid)
  let ?req = "(wr_http r)\<lparr>hr_path_id := tid\<rparr>" and ?st = "badger_store kv ttl"
  note k = handlers_keep_records_sound [OF assms(1-4), of ttl "site_parse_url e" ?req m]
  have "wf_metrics (snd (ReplayTask ?st (site_now e) ?req db m))"
    using assms(5) by (auto simp: ReplayTask_def wf_metrics_steps split: sum.split option.split prod.split)
  with k have "\<exists>rep db' m'. handle ?st e ep ?req db m = Some ((rep, db'), m') \<and> sound_store kv db' \<and> wf_metrics m'"
    using assms(2,5) by (cases ep) (auto simp: handle_def prod_eq_iff)
  with ep(3) show ?thesis by auto
qed

section \<open>Examples\<close>

definition ex_site :: "item list site" where
  "ex_site = \<lparr>site_now = ex_now, site_uuid = ''n'', site_parse_url = (\<lambda>u. None), site_writer = buffer,
     site_version = ''dev'', site_backup = (\<lambda>db. [])\<rparr>"

definition ex_settings :: settings where
  "ex_settings = \<lparr>set_dir = ''data'', set_ttl = Hour, set_runner = \<lparr>onFailureURL = [], maxStaleness = 0\<rparr>,
     set_slots = 50, set_api_key = ''secret'', set_cors = ''http://a,http://b'', set_guard = True, set_signing = []\<rparr>"

text \<open>A browser on \<open>http://b\<close> asks to cancel the task \<open>a\<close>, without the key.\<close>

definition ex_wire :: "string \<Rightarrow> wire_request" where
  "ex_wire m = \<lparr>wr_method = m, wr_path = [''tasks'', ''a''],
     wr_http = (ex_req [] [])\<lparr>hr_header := (\<lambda>h. if h = ''Origin'' then ''http://b'' else [])\<rparr>\<rparr>"

lemma ex_wire_simps: "wr_method (ex_wire m) = m" "hr_header (wr_http (ex_wire m)) ''X-API-Key'' = []"
  "hr_header (wr_http (ex_wire m)) ''Origin'' = ''http://b''" "\<not> preflight (ex_wire m)"
  by (simp_all add: ex_wire_def preflight_def)



lemma reads_change_nothing_witness:
  "\<exists>hs rep. serve ex_settings (badger_store (mem_kv 8) Hour) ex_site (ex_wire ''GET'') ex_db init_metrics
    = Some (hs, (rep, ex_db), init_metrics)"
  by (rule reads_change_nothing) (simp add: ex_wire_simps)

lemma serve_sound_witness:
  "\<exists>hs rep db' m'. serve ex_settings (badger_store (mem_kv 8) Hour) ex_site (ex_wire ''DELETE'') ex_db init_metrics
      = Some (hs, (rep, db'), m') \<and> sound_store (mem_kv 8) db' \<and> wf_metrics m'"
proof (rule serve_sound [OF ex_badger ex_sound _ _ wf_init_metrics])
  show "sane_clock (site_now ex_site)" unfolding ex_site_def by code_simp
  show "fresh_id (site_uuid ex_site) (view (mem_kv 8) ex_db)" using ex_db_fresh by (simp add: ex_site_def)
qed

end
