(* ===== verification/ProcessTheorems.thy ===== *)
theory ProcessTheorems
  imports SystemTheorems ServerTheorems
begin

text \<open>
  The process model against the functions of its components: a tick is \<open>runOnce\<close>, and a
  request that nothing interrupts is \<open>serve\<close>. So the steps of the process lose nothing of
  what the runner and the server can do.
\<close>

section \<open>Ticks\<close>

definition spawn :: "task list \<Rightarrow> string set \<Rightarrow> 's sys \<Rightarrow> 's sys" where
  "spawn ts cl s = s\<lparr>sy_due := [], sy_jobs := sy_jobs s @ map (\<lambda>t. \<lparr>j_task = t, j_phase = Claimed\<rparr>) ts,
     sy_inflight := cl\<rparr>"

lemma claim_steps:
  "claim_all ts (sy_inflight s) = (cs, cl) \<Longrightarrow> sy_due s = ts \<Longrightarrow> (sstep W)\<^sup>*\<^sup>* s (spawn cs cl s)"
proof (induction ts arbitrary: s cs)
  case Nil
  then have "spawn cs cl s = s" by (cases s) (simp add: spawn_def)
  then show ?case by simp
next
  case (Cons t ts)
  show ?case
  proof (cases "ID t \<in> sy_inflight s")
    case True
    let ?s = "s\<lparr>sy_due := ts\<rparr>"
    have "sstep W s ?s" by (rule looping, rule claim_held [OF Cons.prems(2)]) (use True in \<open>simp add: claim_def\<close>)
    moreover have "claim_all ts (sy_inflight ?s) = (cs, cl)" using Cons.prems(1) True by (simp add: claim_def)
    moreover have "spawn cs cl ?s = spawn cs cl s" by (simp add: spawn_def)
    ultimately show ?thesis
      using Cons.IH [of ?s cs] by (metis converse_rtranclp_into_rtranclp sys.select_convs(3) sys.surjective sys.update_convs(3))
  next
    case False
    let ?s = "s\<lparr>sy_due := ts, sy_inflight := insert (ID t) (sy_inflight s),
      sy_jobs := sy_jobs s @ [\<lparr>j_task = t, j_phase = Claimed\<rparr>]\<rparr>"
    have "sstep W s ?s" by (rule looping, rule claim_next [OF Cons.prems(2)]) (use False in \<open>simp add: claim_def\<close>)
    moreover obtain cs' where c: "claim_all ts (sy_inflight ?s) = (cs', cl)" "cs = t # cs'"
      using Cons.prems(1) False by (auto simp: claim_def split: prod.splits)
    moreover have "spawn cs' cl ?s = spawn cs cl s" by (simp add: spawn_def c(2))
    ultimately show ?thesis
      using Cons.IH [OF c(1)] by (simp add: converse_rtranclp_into_rtranclp)
  qed
qed


section \<open>Requests\<close>

text \<open>Steps that lead to a state with this database and these counters, the goroutines as they are.\<close>

definition can_become :: "'s world \<Rightarrow> 's sys \<Rightarrow> 's \<Rightarrow> metrics \<Rightarrow> bool" where
  "can_become W s db m \<longleftrightarrow>
     (\<exists>s'. (sstep W)\<^sup>*\<^sup>* s s' \<and> sy_db s' = db \<and> sy_metrics s' = m \<and> sy_jobs s' = sy_jobs s \<and> sy_now s' = sy_now s)"

lemma can_stay: "can_become W s (sy_db s) (sy_metrics s)"
  unfolding can_become_def by blast

lemma can_edit:
  assumes "loadTask (w_store W) r (sy_db s) = Inr t" and "edits W (sy_now s) t u"
  shows "can_become W s (snd (st_Update (w_store W) u (sy_db s))) (sy_metrics s)"
    and "can_become W s (snd (st_Update (w_store W) u (sy_db s))) (ObserveReplay (sy_metrics s))"
proof -
  let ?s1 = "s\<lparr>sy_writes := u # sy_writes s\<rparr>"
  let ?s2 = "?s1\<lparr>sy_db := snd (st_Update (w_store W) u (sy_db s)), sy_writes := sy_writes s,
    sy_disturbed := insert (ID u) (sy_disturbed s)\<rparr>"
  have "sstep W s ?s1" by (rule serving [OF api_load [OF assms]])
  moreover have "sstep W ?s1 ?s2" using serving [OF api_write [of ?s1 "[]" u "sy_writes s" W]] by simp
  ultimately have r: "(sstep W)\<^sup>*\<^sup>* s ?s2" by simp
  then show "can_become W s (snd (st_Update (w_store W) u (sy_db s))) (sy_metrics s)"
    unfolding can_become_def by (intro exI [of _ ?s2]) simp
  from r serving [OF count_replay [of W ?s2]] have "(sstep W)\<^sup>*\<^sup>* s (observe_with ObserveReplay ?s2)"
    by (rule rtranclp.rtrancl_into_rtrancl)
  then show "can_become W s (snd (st_Update (w_store W) u (sy_db s))) (ObserveReplay (sy_metrics s))"
    unfolding can_become_def by (intro exI [of _ "observe_with ObserveReplay ?s2"]) simp
qed

lemma can_write_back:
  assumes "loadTask (w_store W) r (sy_db s) = Inr t" and "edits W (sy_now s) t u"
  shows "can_become W s (snd (write_back (w_store W) u msg rep (sy_db s))) (sy_metrics s)"
  using can_edit(1) [OF assms]
  by (cases "st_Update (w_store W) u (sy_db s)") (auto simp: write_back_def split: option.split)

lemma can_create:
  assumes "CreateTask (w_store W) (w_parse_url W) now uuid r (sy_db s) = Some (rep, db)"
    and "sy_creating s = None" and "unused (w_store W) uuid s" and "now \<le> sy_now s" and "sane_clock now"
  shows "can_become W s db (sy_metrics s)"
proof (cases "decodeTaskRequest (w_parse_url W) now r")
  case (Inl e)
  with assms(1) can_stay show ?thesis by (auto simp: CreateTask_def)
next
  case (Inr p)
  obtain req t where p: "p = (req, t)" by fastforce
  let ?key = "hr_header r ''Idempotency-Key''"
  let ?t = "new_task uuid ?key req t"
  let ?s1 = "s\<lparr>sy_creating := Some ?t\<rparr>"
  let ?s2 = "?s1\<lparr>sy_db := snd (st_Save (w_store W) ?t (sy_db ?s1)), sy_creating := None\<rparr>"
  have s1: "sstep W s ?s1" using Inr p by (intro serving create_begin [OF assms(2-5)]) simp
  have s2: "sstep W ?s1 ?s2" by (rule serving, rule create_save) simp
  from assms(1) Inr p consider "db = sy_db s" | "db = snd (st_Save (w_store W) ?t (sy_db s))"
    by (auto simp: CreateTask_def Let_def split: option.splits sum.splits prod.splits)
  then show ?thesis
  proof cases
    case 1
    with can_stay show ?thesis by blast
  next
    case 2
    from s1 s2 have "(sstep W)\<^sup>*\<^sup>* s ?s2" by simp
    with 2 show ?thesis unfolding can_become_def by (intro exI [of _ ?s2]) simp
  qed
qed

text \<open>
  C12: A request that nothing interrupts: whatever \<open>serve\<close> makes of the store and the counters
  for a request that arrives now, the process can reach in steps, from every state in which no
  other create request is under way. So what holds in every reachable state holds after every
  request that is served.
\<close>
theorem serve_is_process:
  assumes "reachable W db0 s" and "serve c (w_store W) e r (sy_db s) (sy_metrics s) = Some (hs, (rep, db), m)"
    and "site_now e = sy_now s" and "sane_clock (sy_now s)" and "site_parse_url e = w_parse_url W"
    and "sy_creating s = None" and "unused (w_store W) (site_uuid e) s"
  shows "\<exists>s'. reachable W db0 s' \<and> sy_db s' = db \<and> sy_metrics s' = m \<and> sy_jobs s' = sy_jobs s \<and> sy_now s' = sy_now s"
proof -
  have "can_become W s db m"
  proof (cases rule: serve_cases [of c "w_store W" e r])
    case (early hs rep)
    with assms(2) can_stay show ?thesis by auto
  next
    case (ep hs ep tid)
    let ?req = "(wr_http r)\<lparr>hr_path_id := tid\<rparr>" and ?st = "w_store W"
    have h: "handle ?st e ep ?req (sy_db s) (sy_metrics s) = Some ((rep, db), m)"
      using ep(3) assms(2) by auto
    show ?thesis
    proof (cases ep)
      case EpCreate
      with h assms(3-7) show ?thesis
        by (auto simp: handle_def intro: can_create)
    next
      case EpUpdate
      then have u: "UpdateTask ?st (w_parse_url W) (sy_now s) ?req (sy_db s) = (rep, db)" "m = sy_metrics s"
        using h assms(3,5) by (auto simp: handle_def)
      show ?thesis
      proof (cases "\<exists>req at t. decodeTaskRequest (w_parse_url W) (sy_now s) ?req = Inr (req, at)
          \<and> loadTask ?st ?req (sy_db s) = Inr t \<and> Status t = StatusPending")
        case True
        then obtain req at t where l: "decodeTaskRequest (w_parse_url W) (sy_now s) ?req = Inr (req, at)"
          "loadTask ?st ?req (sy_db s) = Inr t" "Status t = StatusPending" by blast
        from can_write_back [OF l(2) by_update [OF l(1) assms(4) l(3)]] u l show ?thesis
          by (simp add: UpdateTask_def Let_def) (metis snd_conv)
      next
        case False
        with u have "db = sy_db s" by (fastforce simp: UpdateTask_def Let_def split: sum.splits prod.splits if_splits)
        with u can_stay show ?thesis by blast
      qed
    next
      case EpReplay
      then have u: "ReplayTask ?st (sy_now s) ?req (sy_db s) (sy_metrics s) = ((rep, db), m)"
        using h assms(3) by (auto simp: handle_def)
      show ?thesis
      proof (cases "\<exists>t. loadTask ?st ?req (sy_db s) = Inr t \<and> IsTerminal (Status t)")
        case True
        then obtain t where l: "loadTask ?st ?req (sy_db s) = Inr t" "IsTerminal (Status t)" by blast
        from can_edit [OF l(1) by_replay [OF l(2)]] u l show ?thesis
          by (cases "st_Update ?st (rearm (sy_now s) t) (sy_db s)") (auto simp: ReplayTask_def split: option.splits)
      next
        case False
        with u have "db = sy_db s" "m = sy_metrics s" by (auto simp: ReplayTask_def split: sum.splits if_splits)
        with can_stay show ?thesis by blast
      qed
    next
      case EpCancel
      then have u: "DeleteTask ?st (sy_now s) ?req (sy_db s) = (rep, db)" "m = sy_metrics s"
        using h assms(3) by (auto simp: handle_def)
      show ?thesis
      proof (cases "\<exists>t. loadTask ?st ?req (sy_db s) = Inr t \<and> \<not> IsTerminal (Status t)")
        case True
        then obtain t where l: "loadTask ?st ?req (sy_db s) = Inr t" "\<not> IsTerminal (Status t)" by blast
        from can_write_back [OF l(1) by_cancel [OF l(2)]] u l show ?thesis
          by (simp add: DeleteTask_def) (metis snd_conv)
      next
        case False
        with u have "db = sy_db s" by (auto simp: DeleteTask_def split: sum.splits if_splits)
        with u can_stay show ?thesis by blast
      qed
    next
      case EpDeleteMany
      then have u: "api_DeleteTasks ?st ?req (sy_db s) = (rep, db)" "m = sy_metrics s"
        using h by (auto simp: handle_def)
      have "can_become W s (snd (st_DeleteTasks ?st url status before after (sy_db s))) (sy_metrics s)" for url status before after
        unfolding can_become_def
        by (rule exI [of _ "s\<lparr>sy_db := snd (st_DeleteTasks ?st url status before after (sy_db s))\<rparr>"])
          (simp add: serving [OF api_delete] r_into_rtranclp)
      moreover have "db = sy_db s \<or> (\<exists>url status before after. db = snd (st_DeleteTasks ?st url status before after (sy_db s)))"
        using u(1) by (auto simp: api_DeleteTasks_def Let_def split: option.splits prod.splits if_splits) (metis snd_conv)+
      ultimately show ?thesis using u(2) can_stay by blast
    qed (use h can_stay in \<open>auto simp: handle_def\<close>)
  qed
  then obtain s' where r: "(sstep W)\<^sup>*\<^sup>* s s'"
    and s': "sy_db s' = db" "sy_metrics s' = m" "sy_jobs s' = sy_jobs s" "sy_now s' = sy_now s"
    unfolding can_become_def by blast
  from r assms(1) have "reachable W db0 s'" by (induction rule: rtranclp_induct) (auto intro: step_on)
  with s' show ?thesis by blast
qed

section \<open>Examples\<close>

lemma ex_boot: "reachable ex_world ex_db (boot (w_store ex_world) (started ex_clock ex_db))"
  by (rule start_up [OF ex_facts(1)])

lemma ex_boot_simps: "sy_db (boot (w_store ex_world) (started ex_clock ex_db)) = ex_db"
  "sy_now (boot (w_store ex_world) (started ex_clock ex_db)) = ex_clock"
  "sy_loop (boot (w_store ex_world) (started ex_clock ex_db))"
  "sy_inflight (boot (w_store ex_world) (started ex_clock ex_db)) = {}"
  "sy_due (boot (w_store ex_world) (started ex_clock ex_db)) = []"
  "sy_metrics (boot (w_store ex_world) (started ex_clock ex_db)) = init_metrics"
  by (simp_all add: ex_world_simps ex_recovered) (simp add: boot_def split: prod.split)


lemma serve_is_process_witness:
  "\<exists>hs rep db m s'. serve (ex_settings\<lparr>set_api_key := []\<rparr>) (badger_store (mem_kv 8) Hour) (ex_site\<lparr>site_now := ex_clock\<rparr>)
      (ex_wire ''DELETE'') ex_db init_metrics = Some (hs, (rep, db), m)
    \<and> reachable ex_world ex_db s' \<and> sy_db s' = db \<and> sy_metrics s' = m"
proof -
  let ?s = "boot (w_store ex_world) (started ex_clock ex_db)" and ?e = "ex_site\<lparr>site_now := ex_clock\<rparr>"
  let ?c = "ex_settings\<lparr>set_api_key := []\<rparr>"
  have "serve ?c (w_store ex_world) ?e (ex_wire ''DELETE'') ex_db init_metrics \<noteq> None"
    by (cases rule: serve_cases [of ?c "w_store ex_world" ?e "ex_wire ''DELETE''"])
      (auto simp: handle_def mux_def routes_def ex_wire_def match_method_def split: endpoint.split)
  then obtain hs rep db m where h: "serve ?c (w_store ex_world) ?e (ex_wire ''DELETE'') ex_db init_metrics = Some (hs, (rep, db), m)"
    by (metis not_None_eq prod.collapse)
  have "GetTask (mem_kv 8) ''n'' ex_db = Inr None"
    using task_store.get_task [OF badger.contract [OF ex_badger, of Hour] ex_db_wf(1), of "''n''"] ex_db_fresh
    by (simp add: fresh_id_def)
  then have "unused (w_store ex_world) (site_uuid ?e) ?s"
    by (simp add: unused_def known_ids_def ex_world_simps ex_recovered ex_site_def)
  from serve_is_process [OF ex_boot, of ?c ?e "ex_wire ''DELETE''", unfolded ex_boot_simps, OF h _ ex_facts(1) _ _ this]
  show ?thesis using h by (auto simp: ex_world_def schedy_def ex_site_def)
qed

end
