(* ===== verification/Startup.thy ===== *)
theory Startup
  imports Disk ProcessTheorems
begin

text \<open>
  \<open>main\<close> of \<open>cmd/schedy/main.go\<close> up to the point where the process serves: the restore
  subcommand, the version flag, the settings, opening the store, crash recovery, the runner.
  The flag parser is an argument (the port and whether \<open>-version\<close> was given, or \<open>None\<close>
  for an error, with which it exits with code 2).
  Proved: a process that serves is the one the step relation starts with, on recovered data.
\<close>

datatype 'db outcome = Exited nat "'db option" | Serving settings string 'db

definition NewBadgerStore :: "('db, 'b) disk \<Rightarrow> 'db kv \<Rightarrow> string \<Rightarrow> duration \<Rightarrow> string + 'db Store \<times> 'db" where
  "NewBadgerStore d kv path historyTTL =
     (case dk_OpenDB d path of Inl e \<Rightarrow> Inl e | Inr db \<Rightarrow> Inr (badger_store kv historyTTL, db))"

definition start_server ::
  "('db, 'b) disk \<Rightarrow> 'db kv \<Rightarrow> environ \<Rightarrow> string \<Rightarrow> 'db outcome"
where
  "start_server d kv env port =
     (case history_ttl env of
        None \<Rightarrow> Exited 1 None
      | Some ttl \<Rightarrow>
          (case NewBadgerStore d kv (dataDir env) ttl of
             Inl e \<Rightarrow> Exited 1 None
           | Inr (st, db) \<Rightarrow>
               let db' = snd (st_RecoverRunning st db)
               in case new_runner env of
                   None \<Rightarrow> Exited 1 (Some db')
                 | Some (cfg, n) \<Rightarrow> Serving
                     \<lparr>set_dir = dataDir env, set_ttl = ttl, set_runner = cfg, set_slots = n,
                      set_api_key = env ''SCHEDY_API_KEY'', set_cors = env ''SCHEDY_CORS_ORIGIN'',
                      set_guard = (env ''SCHEDY_ALLOW_PRIVATE_TARGETS'' = []),
                      set_signing = env ''SCHEDY_SIGNING_SECRET''\<rparr> port db'))"

definition start_main ::
  "('db, 'b) disk \<Rightarrow> 'db kv \<Rightarrow> environ \<Rightarrow> (string list \<Rightarrow> (string \<times> bool) option) \<Rightarrow> string list \<Rightarrow> 'db outcome"
where
  "start_main d kv env parse_flags args =
     (if args \<noteq> [] \<and> hd args = ''restore'' then
        (case runRestore d env (tl args) of (code, db) \<Rightarrow> Exited code db)
      else case parse_flags args of
          None \<Rightarrow> Exited 2 None
        | Some (port, showVersion) \<Rightarrow> if showVersion then Exited 0 None else start_server d kv env port)"

lemma start_serving:
  assumes "start_main d kv env parse_flags args = Serving c port db'"
  shows "\<exists>db. dk_OpenDB d (dataDir env) = Inr db \<and> configure env = Some c \<and> set_dir c = dataDir env
    \<and> db' = snd (RecoverRunning kv (set_ttl c) db)"
  using assms
  by (auto simp: start_main_def start_server_def NewBadgerStore_def configure_def Let_def
      split: if_splits option.splits prod.splits sum.splits)

text \<open>
  C26: A process that comes to serve does so on the data of its directory, with settings it
  accepted and at least one delivery slot; what its store holds then is exactly the first
  state of the process model for these settings, with sound records, and, if the recovery
  succeeded, no task stored as running.
\<close>
theorem start_is_boot:
  assumes "badger kv" and "start_main d kv env parse_flags args = Serving c port db'"
    and "dk_OpenDB d (dataDir env) = Inr db" and "sound_store kv db" and "sane_clock now"
  shows "configure env = Some c \<and> 0 < set_slots c
    \<and> (\<exists>s. reachable (schedy kv (set_ttl c) (set_runner c) (set_slots c) parse_url) db s
        \<and> sy_db s = db' \<and> sy_now s = now \<and> sy_jobs s = [] \<and> sy_inflight s = {} \<and> sy_slots s = 0)
    \<and> sound_store kv db'
    \<and> (fst (RecoverRunning kv (set_ttl c) db) = None \<longrightarrow> (\<forall>x t. view kv db' x = Some t \<longrightarrow> Status t \<noteq> StatusRunning))"
proof -
  let ?W = "schedy kv (set_ttl c) (set_runner c) (set_slots c) parse_url"
  let ?s = "boot (w_store ?W) (started now db)"
  have c: "configure env = Some c" and db': "db' = snd (RecoverRunning kv (set_ttl c) db)"
    using start_serving [OF assms(2)] assms(3) by auto
  have r: "reachable ?W db ?s" by (rule start_up [OF assms(5)])
  have s: "sy_db ?s = db'" by (simp add: db')
  have "0 < set_slots c" using c by (auto simp: configure_Some max_concurrent_Some split: if_splits)
  moreover have "sound_store kv db'"
    using expiring_store.reachable_data [OF badger.expiring_contract [OF assms(1)] schedy_runs r] assms(4) s
    by (simp add: sound_store_iff data_ok_def)
  moreover have "Status t \<noteq> StatusRunning"
    if "fst (RecoverRunning kv (set_ttl c) db) = None" "view kv db' x = Some t" for x t
    using expiring_store.recovered_not_running [OF badger.expiring_contract [OF assms(1), of "set_ttl c"], of db x t]
      that assms(4) by (simp add: db' sound_store_def)
  moreover have "sy_now ?s = now" "sy_jobs ?s = []" "sy_inflight ?s = {}" "sy_slots ?s = 0" by simp_all
  ultimately show ?thesis using c r s by blast
qed

text \<open>An environment without any variable, on the example store.\<close>

definition ex_disk :: "(item list, item list) disk" where
  "ex_disk = (mem_disk [] [])\<lparr>dk_OpenDB := \<lambda>dir. Inr ex_db\<rparr>"

lemma ex_start: "\<exists>c. start_main ex_disk (mem_kv 8) (\<lambda>v. []) (\<lambda>args. Some (''8080'', False)) [] = Serving c ''8080'' ex_db"
  by (simp add: start_main_def start_server_def NewBadgerStore_def history_ttl_def new_runner_def max_concurrent_def
      max_staleness_def ex_disk_def ex_recovered Let_def)

lemma start_is_boot_witness:
  "\<exists>c. start_main ex_disk (mem_kv 8) (\<lambda>v. []) (\<lambda>args. Some (''8080'', False)) [] = Serving c ''8080'' ex_db
    \<and> configure (\<lambda>v. []) = Some c \<and> 0 < set_slots c \<and> sound_store (mem_kv 8) ex_db"
proof -
  obtain c where c: "start_main ex_disk (mem_kv 8) (\<lambda>v. []) (\<lambda>args. Some (''8080'', False)) [] = Serving c ''8080'' ex_db"
    using ex_start by blast
  have "dk_OpenDB ex_disk (dataDir (\<lambda>v. [])) = Inr ex_db" by (simp add: ex_disk_def)
  from start_is_boot [OF ex_badger c this ex_sound ex_facts(1)] c show ?thesis by blast
qed

end
