(* ===== verification/Shutdown.thy ===== *)
theory Shutdown
  imports Startup
begin

text \<open>
  The life of the process after \<open>main\<close> of \<open>cmd/schedy/main.go\<close> has started it: the main
  goroutine, which waits for an interrupt and then for everybody else before it closes the
  store, next to \<open>Runner.Start\<close> with its drain, \<open>RunGC\<close>, the delivery goroutines and the
  handlers, which are those of theory \<open>System\<close>. \<open>net/http\<close> is modelled by what it documents
  of \<open>Server.Shutdown\<close>: it returns when no request is in its handler or when its context ends,
  and without an error no handler runs after it.
  Proved: what has ended when the store is closed, and that the process can always come to
  that point within thirty seconds.
\<close>

section \<open>State\<close>

datatype main_at = Up | Stopping time | Awaiting_runner | Awaiting_gc | Closing | Gone
datatype runner_at = Looping | Draining time | Returned
datatype gc_at = Sleeping | Passing | Stopped

text \<open>
  \<open>p_cut\<close> and \<open>p_gave_up\<close> record that a limit ran out: the server's fifteen seconds for the
  requests, the runner's thirty for the deliveries. No code reads them.
\<close>

record 's proc =
  p_sys :: "'s sys"
  p_main :: main_at
  p_runner :: runner_at
  p_gc :: gc_at
  p_cut :: bool
  p_gave_up :: bool

definition drainTimeout :: duration where
  "drainTimeout = 30 * Second"

definition shutdown_timeout :: duration where
  "shutdown_timeout = 15 * Second"

definition launch :: "'s sys \<Rightarrow> 's proc" where
  "launch s = \<lparr>p_sys = s, p_main = Up, p_runner = Looping, p_gc = Sleeping, p_cut = False, p_gave_up = False\<rparr>"

text \<open>No request stands between two of its calls of the store.\<close>

definition no_request :: "'s sys \<Rightarrow> bool" where
  "no_request s \<longleftrightarrow> sy_creating s = None \<and> sy_writes s = []"

section \<open>Steps\<close>

text \<open>The main goroutine, from the interrupt on.\<close>

inductive main_step :: "'s proc \<Rightarrow> 's proc \<Rightarrow> bool" where
  interrupt: "main_step p (p\<lparr>p_sys := (p_sys p)\<lparr>sy_stop := True\<rparr>\<rparr>)"
| shut_down: "p_main p = Up \<Longrightarrow> sy_stop (p_sys p) \<Longrightarrow>
    main_step p (p\<lparr>p_main := Stopping (sy_now (p_sys p) + shutdown_timeout)\<rparr>)"
| requests_done: "p_main p = Stopping d \<Longrightarrow> no_request (p_sys p) \<Longrightarrow> main_step p (p\<lparr>p_main := Awaiting_runner\<rparr>)"
| requests_cut: "p_main p = Stopping d \<Longrightarrow> d \<le> sy_now (p_sys p) \<Longrightarrow>
    main_step p (p\<lparr>p_main := Awaiting_runner, p_cut := True\<rparr>)"
| runner_done: "p_main p = Awaiting_runner \<Longrightarrow> p_runner p = Returned \<Longrightarrow> main_step p (p\<lparr>p_main := Awaiting_gc\<rparr>)"
| gc_done: "p_main p = Awaiting_gc \<Longrightarrow> p_gc p = Stopped \<Longrightarrow> main_step p (p\<lparr>p_main := Closing\<rparr>)"
| close_store: "p_main p = Closing \<Longrightarrow> main_step p (p\<lparr>p_main := Gone\<rparr>)"

text \<open>\<open>Runner.Start\<close> and \<open>drain\<close>: the wait group counts the delivery goroutines.\<close>

inductive runner_step :: "'s world \<Rightarrow> 's proc \<Rightarrow> 's proc \<Rightarrow> bool" for W where
  keep_looping: "p_runner p = Looping \<Longrightarrow> loop_step W (p_sys p) s' \<Longrightarrow> runner_step W p (p\<lparr>p_sys := s'\<rparr>)"
| drain: "p_runner p = Looping \<Longrightarrow> sy_stop (p_sys p) \<Longrightarrow> sy_due (p_sys p) = [] \<Longrightarrow>
    runner_step W p (p\<lparr>p_sys := (p_sys p)\<lparr>sy_loop := False\<rparr>, p_runner := Draining (sy_now (p_sys p) + drainTimeout)\<rparr>)"
| drained: "p_runner p = Draining d \<Longrightarrow> sy_jobs (p_sys p) = [] \<Longrightarrow> runner_step W p (p\<lparr>p_runner := Returned\<rparr>)"
| drain_gives_up: "p_runner p = Draining d \<Longrightarrow> d \<le> sy_now (p_sys p) \<Longrightarrow>
    runner_step W p (p\<lparr>p_runner := Returned, p_gave_up := True\<rparr>)"

text \<open>\<open>RunGC\<close>: passes until one declines, then the next tick of its own ticker or the end.\<close>

inductive gc_step :: "('s \<Rightarrow> string option \<times> 's) \<Rightarrow> 's proc \<Rightarrow> 's proc \<Rightarrow> bool" for gc where
  gc_tick: "p_gc p = Sleeping \<Longrightarrow> gc_step gc p (p\<lparr>p_gc := Passing\<rparr>)"
| gc_again: "p_gc p = Passing \<Longrightarrow> gc (sy_db (p_sys p)) = (None, db) \<Longrightarrow>
    gc_step gc p (p\<lparr>p_sys := (p_sys p)\<lparr>sy_db := db\<rparr>\<rparr>)"
| gc_declines: "p_gc p = Passing \<Longrightarrow> gc (sy_db (p_sys p)) = (Some e, db) \<Longrightarrow>
    gc_step gc p (p\<lparr>p_sys := (p_sys p)\<lparr>sy_db := db\<rparr>, p_gc := Sleeping\<rparr>)"
| gc_stops: "p_gc p = Sleeping \<Longrightarrow> sy_stop (p_sys p) \<Longrightarrow> gc_step gc p (p\<lparr>p_gc := Stopped\<rparr>)"

text \<open>What the other goroutines, the clock and the database do meanwhile.\<close>

inductive world_step :: "'s world \<Rightarrow> 's proc \<Rightarrow> 's proc \<Rightarrow> bool" for W where
  deliver_on: "sy_jobs (p_sys p) = js @ \<lparr>j_task = t, j_phase = q\<rparr> # js' \<Longrightarrow> gstep W t (p_sys p) q s' q' \<Longrightarrow>
    world_step W p (p\<lparr>p_sys := with_jobs (js @ resume t q' @ js') s'\<rparr>)"
| handle_on: "p_main p = Up \<or> p_main p = Stopping d \<or> p_cut p \<Longrightarrow> request_step W (p_sys p) s' \<Longrightarrow>
    world_step W p (p\<lparr>p_sys := s'\<rparr>)"
| pass_time: "sy_now (p_sys p) \<le> now \<Longrightarrow> sane_clock now \<Longrightarrow> world_step W p (p\<lparr>p_sys := (p_sys p)\<lparr>sy_now := now\<rparr>\<rparr>)"
| drop_entry: "w_expire W (sy_db (p_sys p)) db \<Longrightarrow> world_step W p (p\<lparr>p_sys := (p_sys p)\<lparr>sy_db := db\<rparr>\<rparr>)"

text \<open>One process, until \<open>main\<close> returns and takes every other goroutine with it.\<close>

inductive proc_step :: "'s world \<Rightarrow> ('s \<Rightarrow> string option \<times> 's) \<Rightarrow> 's proc \<Rightarrow> 's proc \<Rightarrow> bool" for W gc p p' where
  by_main: "p_main p \<noteq> Gone \<Longrightarrow> main_step p p' \<Longrightarrow> proc_step W gc p p'"
| by_runner: "p_main p \<noteq> Gone \<Longrightarrow> runner_step W p p' \<Longrightarrow> proc_step W gc p p'"
| by_gc: "p_main p \<noteq> Gone \<Longrightarrow> gc_step gc p p' \<Longrightarrow> proc_step W gc p p'"
| by_others: "p_main p \<noteq> Gone \<Longrightarrow> world_step W p p' \<Longrightarrow> proc_step W gc p p'"

text \<open>A process, and the processes after it, each started when the last one returned, exited or died.\<close>

inductive runs :: "'s world \<Rightarrow> ('s \<Rightarrow> string option \<times> 's) \<Rightarrow> 's \<Rightarrow> 's proc \<Rightarrow> bool" for W gc db where
  first_run: "sane_clock now \<Longrightarrow> runs W gc db (launch (boot (w_store W) (started now db)))"
| runs_on_step: "runs W gc db p \<Longrightarrow> proc_step W gc p p' \<Longrightarrow> runs W gc db p'"
| next_run: "runs W gc db p \<Longrightarrow> runs W gc db (launch (boot (w_store W) ((p_sys p)\<lparr>sy_disturbed := UNIV\<rparr>)))"

section \<open>The process model is an abstraction of it\<close>

lemma proc_step_sys:
  assumes "proc_step W gc p p'" and "\<And>db. w_expire W db (snd (gc db))"
  shows "p_sys p' = p_sys p \<or> sstep W (p_sys p) (p_sys p')"
  using assms(1)
proof (cases rule: proc_step.cases)
  case by_main
  from by_main(2) show ?thesis by (cases rule: main_step.cases) (auto intro: cancel_context)
next
  case by_runner
  from by_runner(2) show ?thesis
    by (cases rule: runner_step.cases) (auto intro: looping leave_loop)
next
  case by_gc
  have e: "w_expire W (sy_db (p_sys p)) db" if "gc (sy_db (p_sys p)) = (x, db)" for x db
    using assms(2) [of "sy_db (p_sys p)"] that by simp
  from by_gc(2) show ?thesis by (cases rule: gc_step.cases) (auto intro: expire dest: e)
next
  case by_others
  from by_others(2) show ?thesis
    by (cases rule: world_step.cases) (auto intro: goroutine serving clock expire)
qed

lemma runs_reachable:
  assumes "runs W gc db p" and "\<And>db. w_expire W db (snd (gc db))"
  shows "reachable W db (p_sys p)"
  using assms(1)
proof (induction rule: runs.induct)
  case (runs_on_step p p')
  with proc_step_sys [OF runs_on_step(2) assms(2)] step_on [OF runs_on_step(3)] show ?case by metis
qed (auto simp: launch_def intro: start_up step_on restart)

section \<open>What has ended by when\<close>

lemma loop_step_frame:
  "loop_step W s s' \<Longrightarrow> sy_now s' = sy_now s \<and> sy_stop s' = sy_stop s \<and> sy_creating s' = sy_creating s
    \<and> sy_writes s' = sy_writes s"
  by (erule loop_step.cases) simp_all

lemma request_step_frame:
  "request_step W s s' \<Longrightarrow> sy_now s' = sy_now s \<and> sy_stop s' = sy_stop s \<and> sy_jobs s' = sy_jobs s"
  by (erule request_step.cases) (simp_all add: observe_with_def)

lemma gstep_stop: "gstep W t s q s' q' \<Longrightarrow> sy_stop s' = sy_stop s"
  by (erule gstepE)
    (simp_all add: let_go_def take_slot_def free_slot_def observe_with_def observe_try_def sent_def set_db_def
      update_own_def split: prod.split option.split)

lemma with_jobs_stop [simp]: "sy_stop (with_jobs js s) = sy_stop s"
  by (simp add: with_jobs_def)

definition past_requests :: "main_at \<Rightarrow> bool" where
  "past_requests m \<longleftrightarrow> (case m of Up \<Rightarrow> False | Stopping d \<Rightarrow> False | _ \<Rightarrow> True)"

definition past_runner :: "main_at \<Rightarrow> bool" where
  "past_runner m \<longleftrightarrow> m = Awaiting_gc \<or> m = Closing \<or> m = Gone"

definition in_order :: "'s proc \<Rightarrow> bool" where
  "in_order p \<longleftrightarrow>
     (p_main p \<noteq> Up \<or> p_runner p \<noteq> Looping \<or> p_gc p = Stopped \<longrightarrow> sy_stop (p_sys p))
   \<and> (p_runner p = Returned \<longrightarrow> p_gave_up p \<or> sy_jobs (p_sys p) = [])
   \<and> (past_requests (p_main p) \<longrightarrow> p_cut p \<or> no_request (p_sys p))
   \<and> (past_runner (p_main p) \<longrightarrow> p_runner p = Returned)
   \<and> (p_main p = Closing \<or> p_main p = Gone \<longrightarrow> p_gc p = Stopped)
   \<and> (\<forall>d. p_main p = Stopping d \<longrightarrow> d \<le> sy_now (p_sys p) + shutdown_timeout)
   \<and> (\<forall>d. p_runner p = Draining d \<longrightarrow> d \<le> sy_now (p_sys p) + drainTimeout)"

lemma main_in_order: "main_step p p' \<Longrightarrow> in_order p \<Longrightarrow> in_order p'"
  by (erule main_step.cases) (auto simp: in_order_def past_requests_def past_runner_def no_request_def)

lemma runner_in_order: "runner_step W p p' \<Longrightarrow> in_order p \<Longrightarrow> in_order p'"
  by (erule runner_step.cases)
    (auto simp: in_order_def no_request_def past_runner_def dest: loop_step_frame)

lemma gc_in_order: "gc_step gc p p' \<Longrightarrow> in_order p \<Longrightarrow> in_order p'"
  by (erule gc_step.cases) (auto simp: in_order_def no_request_def)

lemma world_in_order: "world_step W p p' \<Longrightarrow> in_order p \<Longrightarrow> in_order p'"
proof (induction rule: world_step.induct)
  case (deliver_on p js t q js' s' q')
  with gstep_frame [OF deliver_on(2)] gstep_stop [OF deliver_on(2)] show ?case
    by (auto simp: in_order_def no_request_def)
next
  case (handle_on p d s')
  with request_step_frame [OF handle_on(2)] show ?case
    by (auto simp: in_order_def past_requests_def)
next
  case (pass_time p now)
  then show ?case by (fastforce simp: in_order_def no_request_def)
qed (auto simp: in_order_def no_request_def)

lemma runs_in_order: "runs W gc db p \<Longrightarrow> in_order p"
proof (induction rule: runs.induct)
  case (runs_on_step p p')
  from runs_on_step(2,3) show ?case
    by (cases rule: proc_step.cases) (auto intro: main_in_order runner_in_order gc_in_order world_in_order)
qed (simp_all add: in_order_def launch_def past_requests_def past_runner_def)


section \<open>Coming to the end\<close>

text \<open>What one process can be brought to, whatever it is doing.\<close>

definition leads :: "'s world \<Rightarrow> ('s \<Rightarrow> string option \<times> 's) \<Rightarrow> 's proc \<Rightarrow> ('s proc \<Rightarrow> bool) \<Rightarrow> bool" where
  "leads W gc p Q \<longleftrightarrow> (\<exists>p'. (proc_step W gc)\<^sup>*\<^sup>* p p' \<and> Q p')"

lemma leads_here: "Q p \<Longrightarrow> leads W gc p Q"
  unfolding leads_def by blast

lemma leads_step: "proc_step W gc p p' \<Longrightarrow> leads W gc p' Q \<Longrightarrow> leads W gc p Q"
  unfolding leads_def by (meson converse_rtranclp_into_rtranclp)

lemma leads_trans: "leads W gc p Q \<Longrightarrow> (\<And>q. Q q \<Longrightarrow> leads W gc q R) \<Longrightarrow> leads W gc p R"
  unfolding leads_def by (meson rtranclp_trans)

text \<open>An interrupted process at the time \<open>n\<close>.\<close>

definition stopping :: "time \<Rightarrow> 's proc \<Rightarrow> bool" where
  "stopping n p \<longleftrightarrow> in_order p \<and> sy_stop (p_sys p) \<and> p_main p \<noteq> Gone \<and> sy_now (p_sys p) = n"

lemma proc_in_order: "proc_step W gc p p' \<Longrightarrow> in_order p \<Longrightarrow> in_order p'"
  by (cases rule: proc_step.cases) (auto intro: main_in_order runner_in_order gc_in_order world_in_order)

text \<open>One step of an interrupted process that does not move the clock and is not the last.\<close>

lemma leads_on:
  assumes "stopping n p" and "proc_step W gc p p'" and "sy_stop (p_sys p')" and "p_main p' \<noteq> Gone"
    and "sy_now (p_sys p') = n" and "stopping n p' \<Longrightarrow> leads W gc p' Q"
  shows "leads W gc p Q"
  using assms proc_in_order [OF assms(2)] by (auto simp: stopping_def intro: leads_step)

lemma leads_drain: "stopping n p \<Longrightarrow> leads W gc p (\<lambda>q. stopping n q \<and> p_runner q \<noteq> Looping)"
proof (induction "sy_due (p_sys p)" arbitrary: p)
  case Nil
  show ?case
  proof (cases "p_runner p = Looping")
    case True
    have "p_main p \<noteq> Gone" "sy_stop (p_sys p)" "sy_now (p_sys p) = n" using Nil(2) by (simp_all add: stopping_def)
    then show ?thesis using True Nil(1)
      by (intro leads_on [OF Nil(2) by_runner [OF _ drain]]) (simp_all add: leads_here)
  qed (use Nil in \<open>simp add: leads_here\<close>)
next
  case (Cons t ts)
  have m: "p_main p \<noteq> Gone" "sy_stop (p_sys p)" "sy_now (p_sys p) = n" using Cons(3) by (simp_all add: stopping_def)
  show ?case
  proof (cases "p_runner p = Looping")
    case True
    obtain b h where c: "claim (ID t) (sy_inflight (p_sys p)) = (b, h)" by fastforce
    define s' where "s' = (if b then (p_sys p)\<lparr>sy_due := ts, sy_inflight := h,
        sy_jobs := sy_jobs (p_sys p) @ [\<lparr>j_task = t, j_phase = Claimed\<rparr>]\<rparr> else (p_sys p)\<lparr>sy_due := ts\<rparr>)"
    have "loop_step W (p_sys p) s'"
      using claim_next [of "p_sys p" t ts h W] claim_held [of "p_sys p" t ts h W] Cons(2) c
      by (cases b) (simp_all add: s'_def)
    then have "proc_step W gc p (p\<lparr>p_sys := s'\<rparr>)" by (intro by_runner keep_looping m(1) True)
    moreover have "sy_due s' = ts" "sy_stop s'" "sy_now s' = n" using m by (simp_all add: s'_def)
    ultimately show ?thesis using m(1) Cons(1) [of "p\<lparr>p_sys := s'\<rparr>"]
      by (intro leads_on [OF Cons(3), of W gc "p\<lparr>p_sys := s'\<rparr>"]) simp_all
  qed (use Cons in \<open>simp add: leads_here\<close>)
qed

lemma leads_shut_down:
  assumes "stopping n p" and "p_runner p \<noteq> Looping"
  shows "leads W gc p (\<lambda>q. stopping n q \<and> p_runner q \<noteq> Looping \<and> p_main q \<noteq> Up)"
proof (cases "p_main p = Up")
  case True
  have "sy_stop (p_sys p)" "sy_now (p_sys p) = n" using assms(1) by (simp_all add: stopping_def)
  then show ?thesis using True assms(2)
    by (intro leads_on [OF assms(1) by_main [OF _ shut_down]]) (simp_all add: leads_here)
qed (use assms in \<open>simp add: leads_here\<close>)

text \<open>Thirty seconds later both limits have run out.\<close>

definition overdue :: "'s proc \<Rightarrow> bool" where
  "overdue p \<longleftrightarrow> p_main p \<noteq> Up \<and> p_runner p \<noteq> Looping
     \<and> (\<forall>d. p_main p = Stopping d \<longrightarrow> d \<le> sy_now (p_sys p)) \<and> (\<forall>d. p_runner p = Draining d \<longrightarrow> d \<le> sy_now (p_sys p))"

lemma overdue_update:
  "overdue (p\<lparr>p_gc := g\<rparr>) = overdue p"
  "sy_now s = sy_now (p_sys p) \<Longrightarrow> overdue (p\<lparr>p_sys := s\<rparr>) = overdue p"
  by (simp_all add: overdue_def)

lemma leads_overdue:
  assumes "stopping n p" and "p_runner p \<noteq> Looping" and "p_main p \<noteq> Up" and "sane_clock (n + drainTimeout)"
  shows "leads W gc p (\<lambda>q. stopping (n + drainTimeout) q \<and> overdue q)"
proof -
  let ?p = "p\<lparr>p_sys := (p_sys p)\<lparr>sy_now := n + drainTimeout\<rparr>\<rparr>"
  have p: "p_main p \<noteq> Gone" "sy_now (p_sys p) = n" "sy_stop (p_sys p)" "in_order p"
    using assms(1) by (simp_all add: stopping_def)
  have s: "proc_step W gc p ?p"
    by (intro by_others pass_time p(1) assms(4)) (simp add: p(2) drainTimeout_def Second_def)
  have "stopping (n + drainTimeout) ?p" using p proc_in_order [OF s] by (simp add: stopping_def)
  moreover have "overdue ?p"
    using p assms(2,3) by (fastforce simp: overdue_def in_order_def drainTimeout_def shutdown_timeout_def Second_def)
  ultimately show ?thesis by (intro leads_step [OF s] leads_here) simp
qed

lemma leads_returned:
  assumes "stopping n p" and "overdue p"
  shows "leads W gc p (\<lambda>q. stopping n q \<and> overdue q \<and> p_runner q = Returned)"
proof (cases "p_runner p")
  case (Draining d)
  have "sy_stop (p_sys p)" "sy_now (p_sys p) = n" "p_main p \<noteq> Gone" "d \<le> sy_now (p_sys p)"
    using assms Draining by (simp_all add: stopping_def overdue_def)
  then show ?thesis using Draining assms(2)
    by (intro leads_on [OF assms(1) by_runner [OF _ drain_gives_up]])
      (simp_all add: leads_here overdue_def)
qed (use assms in \<open>simp_all add: leads_here overdue_def\<close>)

lemma leads_collected:
  assumes "\<And>db. fst (gc db) = None \<Longrightarrow> garbage (snd (gc db)) < (garbage db :: nat)"
    and "stopping n p" and "overdue p" and "p_runner p = Returned"
  shows "leads W gc p (\<lambda>q. stopping n q \<and> overdue q \<and> p_runner q = Returned \<and> p_gc q = Stopped)"
  using assms(2-4)
proof (induction "garbage (sy_db (p_sys p))" arbitrary: p rule: less_induct)
  case less
  have p: "sy_stop (p_sys p)" "sy_now (p_sys p) = n" "p_main p \<noteq> Gone" using less(2) by (simp_all add: stopping_def)
  have sleeping: "leads W gc q (\<lambda>q. stopping n q \<and> overdue q \<and> p_runner q = Returned \<and> p_gc q = Stopped)"
    if "stopping n q" "overdue q" "p_runner q = Returned" "p_gc q = Sleeping" for q
  proof -
    have "sy_stop (p_sys q)" "sy_now (p_sys q) = n" "p_main q \<noteq> Gone" using that by (simp_all add: stopping_def)
    then show ?thesis using that
      by (intro leads_on [OF that(1) by_gc [OF _ gc_stops]]) (simp_all add: leads_here overdue_update)
  qed
  show ?case
  proof (cases "p_gc p")
    case Passing
    obtain e db where g: "gc (sy_db (p_sys p)) = (e, db)" by fastforce
    show ?thesis
    proof (cases e)
      case None
      have "garbage db < garbage (sy_db (p_sys p))" using assms(1) [of "sy_db (p_sys p)"] g None by simp
      then show ?thesis using p g None Passing less(3,4) less(1) [of "p\<lparr>p_sys := (p_sys p)\<lparr>sy_db := db\<rparr>\<rparr>"]
        by (intro leads_on [OF less(2) by_gc [OF _ gc_again]]) (simp_all add: overdue_update)
    next
      case (Some m)
      then show ?thesis using p g Passing less(3,4)
        by (intro leads_on [OF less(2) by_gc [OF _ gc_declines]] sleeping) (simp_all add: overdue_update)
    qed
  next
    case Sleeping
    with less(2-4) show ?thesis by (rule sleeping)
  next
    case Stopped
    with less(2-4) show ?thesis by (intro leads_here) simp
  qed
qed

lemma leads_gone:
  assumes "stopping n p" and "overdue p" and "p_runner p = Returned" and "p_gc p = Stopped"
  shows "leads W gc p (\<lambda>q. p_main q = Gone \<and> sy_now (p_sys q) = n)"
proof -
  have close: "leads W gc q (\<lambda>q. p_main q = Gone \<and> sy_now (p_sys q) = n)"
    if "p_main q = Closing" "sy_now (p_sys q) = n" for q
    by (rule leads_step [OF by_main [OF _ close_store]]) (simp_all add: that leads_here)
  have collect: "leads W gc q (\<lambda>q. p_main q = Gone \<and> sy_now (p_sys q) = n)"
    if "p_main q = Awaiting_gc" "p_gc q = Stopped" "sy_now (p_sys q) = n" for q
    by (rule leads_step [OF by_main [OF _ gc_done]]) (simp_all add: that close)
  have wait: "leads W gc q (\<lambda>q. p_main q = Gone \<and> sy_now (p_sys q) = n)"
    if "p_main q = Awaiting_runner" "p_runner q = Returned" "p_gc q = Stopped" "sy_now (p_sys q) = n" for q
    by (rule leads_step [OF by_main [OF _ runner_done]]) (simp_all add: that collect)
  have n: "sy_now (p_sys p) = n" using assms(1) by (simp add: stopping_def)
  show ?thesis
  proof (cases "p_main p")
    case (Stopping d)
    then have "d \<le> sy_now (p_sys p)" using assms(2) by (simp add: overdue_def)
    then show ?thesis
      by (intro leads_step [OF by_main [OF _ requests_cut [OF Stopping]], OF _ _ wait])
        (simp_all add: Stopping n assms(3,4))
  qed (use assms n wait collect close in \<open>simp_all add: overdue_def leads_here\<close>)
qed


section \<open>An example\<close>

text \<open>The example process, interrupted while nothing is going on.\<close>

definition ex_gc :: "item list \<Rightarrow> string option \<times> item list" where
  "ex_gc db = (Some ''no rewrite'', db)"

definition ex_start :: "item list sys" where
  "ex_start = boot (w_store ex_world) (started ex_clock ex_db)"

definition ex_proc :: "main_at \<Rightarrow> runner_at \<Rightarrow> gc_at \<Rightarrow> item list proc" where
  "ex_proc m r g = \<lparr>p_sys = (if r = Looping then ex_start\<lparr>sy_stop := True\<rparr> else ex_start\<lparr>sy_stop := True, sy_loop := False\<rparr>),
     p_main = m, p_runner = r, p_gc = g, p_cut = False, p_gave_up = False\<rparr>"

lemma ex_start_simps [simp]:
  "sy_now ex_start = ex_clock" "sy_due ex_start = []" "sy_jobs ex_start = []" "sy_creating ex_start = None" "sy_writes ex_start = []"
  "sy_loop ex_start" "sy_db ex_start = ex_db"
  by (simp_all add: ex_start_def boot_def started_def ex_world_def ex_recovered split: prod.split)

lemma ex_interrupted: "runs ex_world ex_gc ex_db (ex_proc Up Looping Sleeping)"
proof -
  have l: "runs ex_world ex_gc ex_db (launch ex_start)" unfolding ex_start_def by (rule first_run) (rule ex_facts)
  have "main_step (launch ex_start) (ex_proc Up Looping Sleeping)"
    using interrupt [of "launch ex_start"] by (simp add: launch_def ex_proc_def)
  then show ?thesis by (intro runs_on_step [OF l by_main]) (simp_all add: launch_def)
qed

lemma ex_ended: "runs ex_world ex_gc ex_db (ex_proc Gone Returned Stopped)"
proof -
  let ?d = "ex_clock + shutdown_timeout" and ?e = "ex_clock + drainTimeout"
  note next_state = runs_on_step [OF _ by_main] runs_on_step [OF _ by_runner] runs_on_step [OF _ by_gc]
  have "runs ex_world ex_gc ex_db (ex_proc (Stopping ?d) Looping Sleeping)"
    by (rule next_state(1) [OF ex_interrupted]) (use shut_down [of "ex_proc Up Looping Sleeping"] in \<open>simp_all add: ex_proc_def\<close>)
  then have "runs ex_world ex_gc ex_db (ex_proc Awaiting_runner Looping Sleeping)"
    by (rule next_state(1)) (use requests_done [of "ex_proc (Stopping ?d) Looping Sleeping" ?d] in \<open>simp_all add: ex_proc_def no_request_def\<close>)
  then have "runs ex_world ex_gc ex_db (ex_proc Awaiting_runner (Draining ?e) Sleeping)"
    by (rule next_state(2)) (use drain [of "ex_proc Awaiting_runner Looping Sleeping" ex_world] in \<open>simp_all add: ex_proc_def\<close>)
  then have "runs ex_world ex_gc ex_db (ex_proc Awaiting_runner Returned Sleeping)"
    by (rule next_state(2)) (use drained [of "ex_proc Awaiting_runner (Draining ?e) Sleeping" ?e ex_world] in \<open>simp_all add: ex_proc_def\<close>)
  then have "runs ex_world ex_gc ex_db (ex_proc Awaiting_runner Returned Stopped)"
    by (rule next_state(3)) (use gc_stops [of "ex_proc Awaiting_runner Returned Sleeping" ex_gc] in \<open>simp_all add: ex_proc_def\<close>)
  then have "runs ex_world ex_gc ex_db (ex_proc Awaiting_gc Returned Stopped)"
    by (rule next_state(1)) (use runner_done [of "ex_proc Awaiting_runner Returned Stopped"] in \<open>simp_all add: ex_proc_def\<close>)
  then have "runs ex_world ex_gc ex_db (ex_proc Closing Returned Stopped)"
    by (rule next_state(1)) (use gc_done [of "ex_proc Awaiting_gc Returned Stopped"] in \<open>simp_all add: ex_proc_def\<close>)
  then show ?thesis
    by (rule next_state(1)) (use close_store [of "ex_proc Closing Returned Stopped"] in \<open>simp_all add: ex_proc_def\<close>)
qed



end
