(* ===== verification/SystemKept.thy ===== *)
theory SystemKept
  imports SystemRuns
begin

text \<open>
  What happens to a stored task in the process as a whole: no step makes one disappear except
  an expiry of a finished task and a bulk deletion that names it, and a delivery records its
  outcome whatever was done to its task in the meantime.
\<close>

text \<open>How a task can disappear in a step that changes the data from \<open>db\<close> to \<open>db'\<close>.\<close>

definition expired_or_deleted :: "'s Store \<Rightarrow> ('s \<Rightarrow> 's \<Rightarrow> bool) \<Rightarrow> 's \<Rightarrow> 's \<Rightarrow> task \<Rightarrow> bool" where
  "expired_or_deleted st expire db db' t \<longleftrightarrow>
     expire db db' \<and> IsTerminal (Status t)
   \<or> (\<exists>url status before after. db' = snd (st_DeleteTasks st url status before after db)
        \<and> delete_matches url status before after t)"

context expiring_store
begin

lemma update_keeps:
  assumes "ok db" and "wf_task u" and "tasks db x \<noteq> None"
  shows "tasks (snd (st_Update st u db)) x \<noteq> None"
  using update_cases(2) [OF assms(1,2)] assms(3) by simp

lemma gstep_keeps:
  assumes "gstep W t s p s' p'" and "w_store W = st" and "ok (sy_db s)" and "phase_ok (ID t) p"
    and "tasks (sy_db s) x \<noteq> None"
  shows "tasks (sy_db s') x \<noteq> None"
  using assms
proof (induction rule: gstep.induct)
  case (skip u cur late ft)
  then have "wf_task u" by (simp add: wf_retire)
  with update_keeps [OF skip(3)] skip show ?case by simp
next
  case (mark cur ft)
  then have "wf_task (mark_running cur)" by (simp add: mark_running_ok)
  with update_keeps [OF mark(2)] mark show ?case by simp
next
  case (finalize u' u ft)
  then have "wf_task u'" by (simp add: wf_finish)
  with update_keeps [OF finalize(3)] finalize show ?case by simp
next
  case (requeue_next uuid u ft)
  then have f: "sane_clock ft" "unused st uuid s" by simp_all
  from reschedule_cases(2) [OF requeue_next(3) f(1) unused_fresh(1) [OF requeue_next(3) f(2)], of u]
  show ?case using requeue_next by (auto split: option.split)
qed simp_all

lemma delete_keeps:
  assumes "ok db" and "tasks db x = Some t" and "tasks (snd (st_DeleteTasks st url status before after db)) x = None"
  shows "delete_matches url status before after t"
proof -
  obtain n e db' where r: "st_DeleteTasks st url status before after db = ((n, e), db')"
    by (metis surj_pair)
  show ?thesis
  proof (cases e)
    case None
    with assms r delete_tasks_ok [OF assms(1), of url status before after n db'] show ?thesis
      by (auto split: if_splits)
  next
    case (Some e')
    with assms(2,3) r delete_tasks_err [of url status before after db n e' db'] show ?thesis by simp
  qed
qed

lemma recover_keeps:
  assumes "ok db" and "tasks db x \<noteq> None"
  shows "tasks (snd (st_RecoverRunning st db)) x \<noteq> None"
proof (cases "fst (st_RecoverRunning st db)")
  case None
  then have "st_RecoverRunning st db = (None, snd (st_RecoverRunning st db))" by (simp add: prod_eq_iff)
  from recover_ok [OF assms(1) this] assms(2) show ?thesis by simp
next
  case (Some e)
  then have "st_RecoverRunning st db = (Some e, snd (st_RecoverRunning st db))" by (simp add: prod_eq_iff)
  from recover_err [OF this] assms(2) show ?thesis by simp
qed

lemma step_keeps:
  assumes "runs_on st expire W" and "sstep W s s'" and "data_ok ok tasks s"
    and "tasks (sy_db s) x = Some t" and "tasks (sy_db s') x = None"
  shows "expired_or_deleted st expire (sy_db s) (sy_db s') t"
  using assms(2-5)
proof (induction rule: sstep_induct)
  case (goroutine s js u p js' s' p')
  then have "ok (sy_db s)" "phase_ok (ID u) p" by (simp_all add: data_ok_def)
  from gstep_keeps [OF goroutine(2) _ this, of x] goroutine(4,5) assms(1) show ?case by (simp add: runs_on_def)
next
  case (create_save s u)
  then have u: "ok (sy_db s)" "wf_task u" "Status u = StatusPending" "tasks (sy_db s) (ID u) = None"
    by (simp_all add: data_ok_def creating_ok_def)
  then have "wf_task (u\<lparr>Status := StatusPending\<rparr>)" by (simp add: wf_task_def)
  from save_cases(2) [OF u(1) this u(4)] create_save(3,4) assms(1) show ?case
    by (simp add: runs_on_def split: if_splits)
next
  case (api_write s us u us')
  then have "ok (sy_db s)" "wf_task u" by (simp_all add: data_ok_def requests_ok_def)
  from update_keeps [OF this, of x] api_write(3,4) assms(1) show ?case by (simp add: runs_on_def)
next
  case (api_delete s url status before after)
  then have "delete_matches url status before after t"
    using assms(1) by (intro delete_keeps [of "sy_db s" x]) (simp_all add: data_ok_def runs_on_def)
  then show ?case using assms(1) by (auto simp: expired_or_deleted_def runs_on_def)
next
  case (expire s db)
  then have "ok (sy_db s)" "expire (sy_db s) db" using assms(1) by (simp_all add: data_ok_def runs_on_def)
  from expire_ok [OF this] this(2) expire(3,4) show ?case
    unfolding expired_or_deleted_def by (auto split: if_splits)
next
  case (restart s)
  then have "ok (sy_db s)" by (simp add: data_ok_def)
  from recover_keeps [OF this, of x] restart(2,3) assms(1) show ?case by (simp add: runs_on_def)
qed simp_all

text \<open>The last write of a run, over whatever is stored by then.\<close>

lemma finalize_write:
  assumes "data_ok ok tasks s" and "w_store W = st" and "\<lparr>j_task = t, j_phase = Finishing u ft\<rparr> \<in> set (sy_jobs s)"
    and "gstep W t s (Finishing u ft) s' p'" and "fst (st_Update st (finish (sy_now s) u) (sy_db s)) = None"
  shows "ID u = ID t \<and> tasks (sy_db s') = (tasks (sy_db s))(ID t \<mapsto> finish (sy_now s) u)"
proof -
  have "phase_ok (ID t) (Finishing u ft)" using assms(1,3) by (auto simp: data_ok_def jobs_ok_def)
  then have u: "wf_task (finish (sy_now s) u)" "ID u = ID t" "ID (finish (sy_now s) u) = ID u"
    by (simp_all add: wf_finish)
  have ok: "ok (sy_db s)" using assms(1) by (simp add: data_ok_def)
  from assms(4) have "sy_db s' = snd (st_Update st (finish (sy_now s) u) (sy_db s))"
    using assms(2) by (auto elim: gstepE)
  with update_cases(2) [OF ok u(1)] assms(5) u show ?thesis by simp
qed

end

end
