(* ===== verification/FateTheorems.thy ===== *)
theory FateTheorems
  imports SystemTheorems SystemKept
begin

text \<open>
  The properties of what becomes of a stored task in the running process over \<open>BadgerStore\<close>:
  how it can disappear, and what the end of its delivery does to it.
\<close>

text \<open>
  C14: No task is lost: in no step of the process, a tick, a delivery, a request, a failed
  write, a crash or a restart, does a stored task disappear from the store, except that a
  finished task expires and that a bulk deletion removes a task it names.
\<close>
theorem no_task_lost:
  assumes "badger kv" and "sound_store kv db" and "reachable (schedy kv ttl cfg slots parse_url) db s"
    and "sstep (schedy kv ttl cfg slots parse_url) s s'"
    and "view kv (sy_db s) x = Some t" and "view kv (sy_db s') x = None"
  shows "IsTerminal (Status t) \<and> expires kv (sy_db s) (sy_db s')
    \<or> (\<exists>url status before after. sy_db s' = snd (DeleteTasks kv url status before after (sy_db s))
        \<and> delete_matches url status before after t)"
proof -
  note e = badger.expiring_contract [OF assms(1)]
  have "wf_store kv db" "all_sound (view kv db)" using assms(2) by (simp_all add: sound_store_iff)
  from expiring_store.reachable_data [OF e schedy_runs assms(3) this]
  have "data_ok (wf_store kv) (view kv) s" .
  from expiring_store.step_keeps [OF e schedy_runs assms(4) this assms(5,6)] show ?thesis
    by (auto simp: expired_or_deleted_def)
qed

text \<open>
  C15: A delivery has the last word on its task: when the goroutine writes the outcome of its
  run and the write succeeds, the task is stored with that outcome, its attempts and its
  finishing time, whatever was stored under its id by then: the running task, a task cancelled
  or edited while the request was out, or nothing because it was deleted.
\<close>
theorem outcome_recorded:
  assumes "badger kv" and "sound_store kv db" and "reachable (schedy kv ttl cfg slots parse_url) db s"
    and "\<lparr>j_task = t, j_phase = Finishing u ft\<rparr> \<in> set (sy_jobs s)"
    and "gstep (schedy kv ttl cfg slots parse_url) t s (Finishing u ft) s' p'"
    and "fst (Update kv ttl (finish (sy_now s) u) (sy_db s)) = None"
  shows "ID u = ID t \<and> view kv (sy_db s') = (view kv (sy_db s))(ID t \<mapsto> u\<lparr>FinishedAt := Some (sy_now s)\<rparr>)
    \<and> (Status u = StatusSucceeded \<or> Status u = StatusFailed)"
proof -
  note e = badger.expiring_contract [OF assms(1), of ttl]
  have "wf_store kv db" "all_sound (view kv db)" using assms(2) by (simp_all add: sound_store_iff)
  from expiring_store.reachable_data [OF e schedy_runs assms(3) this]
  have d: "data_ok (wf_store kv) (view kv) s" .
  then have "phase_ok (ID t) (Finishing u ft)" using assms(4) by (auto simp: data_ok_def jobs_ok_def)
  with expiring_store.finalize_write [OF e d _ assms(4,5)] assms(6) show ?thesis
    by (simp add: finish_def)
qed

section \<open>Examples\<close>

lemma no_task_lost_witness:
  "\<exists>s s' :: item list sys. sstep ex_world s s' \<and> view (mem_kv 8) (sy_db s) ''a'' = Some ex_pending
    \<and> view (mem_kv 8) (sy_db s') ''a'' = None
    \<and> (IsTerminal (Status ex_pending) \<and> expires (mem_kv 8) (sy_db s) (sy_db s')
      \<or> (\<exists>url status before after. sy_db s' = snd (DeleteTasks (mem_kv 8) url status before after (sy_db s))
          \<and> delete_matches url status before after ex_pending))"
proof -
  let ?s = "boot (badger_store (mem_kv 8) Hour) (started ex_clock ex_db)"
  let ?db = "snd (DeleteTasks (mem_kv 8) [] StatusPending None None ex_db)"
  have r: "reachable (schedy (mem_kv 8) Hour ex_cfg 1 (\<lambda>u. None)) ex_db ?s"
    using start_up [OF ex_facts(1), of "schedy (mem_kv 8) Hour ex_cfg 1 (\<lambda>u. None)" ex_db] by simp
  have step: "sstep (schedy (mem_kv 8) Hour ex_cfg 1 (\<lambda>u. None)) ?s (?s\<lparr>sy_db := ?db\<rparr>)"
    using serving [OF api_delete [of "schedy (mem_kv 8) Hour ex_cfg 1 (\<lambda>u. None)" ?s "[]" StatusPending None None]]
    by (simp add: ex_recovered)
  have v: "view (mem_kv 8) (sy_db ?s) ''a'' = Some ex_pending" by (simp add: ex_recovered ex_db_view(1))
  have "delete_matches [] StatusPending None None ex_pending" by code_simp
  with task_store.delete_tasks_ok [OF badger.contract [OF ex_badger, of Hour] ex_db_wf(1), of "[]" StatusPending None None]
    mem_DeleteTasks [OF ex_db_wf(1), of "[]" StatusPending None None]
  have gone: "view (mem_kv 8) (sy_db (?s\<lparr>sy_db := ?db\<rparr>)) ''a'' = None" using ex_db_view(1) by simp
  from no_task_lost [OF ex_badger ex_sound r step v gone] step v gone show ?thesis
    unfolding ex_world_def by blast
qed

text \<open>A task that is cancelled while its request is out, and whose request then succeeds.\<close>

definition ex_cancelled :: task where
  "ex_cancelled = cancel ex_clock (mark_running ex_pending)"

definition ex_answer :: Result where
  "ex_answer = \<lparr>ResStatusCode = 200, ResErr = None, ResDuration = Second, ResBody = [],
     ResBodyTruncated = False, ResRetryAfter = 0\<rparr>"

definition ex_outcome :: task where
  "ex_outcome = (tried ex_clock ex_answer 0 (mark_running ex_pending))\<lparr>Status := StatusSucceeded\<rparr>"

definition ex_cancelled_db :: "item list" where
  "ex_cancelled_db = snd (Update (mem_kv 8) Hour ex_cancelled ex_marked_db)"

lemma ex_room_left: "length ex_marked_db < 7" "length ex_cancelled_db < 8"
proof -
  have "length ex_db \<le> 2" by (simp add: ex_db_def mem_db_def)
  then show m: "length ex_marked_db < 7"
    using mem_Update_length [of 8 Hour "mark_running ex_pending" ex_db] unfolding ex_marked_db_def by simp
  then show "length ex_cancelled_db < 8"
    using mem_Update_length [of 8 Hour ex_cancelled ex_marked_db] unfolding ex_cancelled_db_def by simp
qed

lemma ex_marked_wf: "wf_store (mem_kv 8) ex_marked_db"
  using badger.Update_map [OF ex_badger ex_db_wf(1) _ ex_mark] ex_wf(1) by (simp add: mark_running_ok)

lemma ex_cancel: "Update (mem_kv 8) Hour ex_cancelled ex_marked_db = (None, ex_cancelled_db)"
  unfolding ex_cancelled_db_def by (rule mem_Update) (use ex_room_left in simp, code_simp)

lemma ex_cancelled_view: "view (mem_kv 8) ex_cancelled_db ''a'' = Some ex_cancelled"
proof -
  have "wf_task ex_cancelled" "ID ex_cancelled = ''a''" by code_simp+
  with badger.Update_map [OF ex_badger ex_marked_wf _ ex_cancel] show ?thesis by simp
qed

lemma ex_cancel_sent:
  "\<exists>s. reachable ex_world ex_db s \<and> sy_now s = ex_clock \<and> sy_db s = ex_cancelled_db
    \<and> sy_jobs s = [\<lparr>j_task = ex_pending, j_phase = Finishing ex_outcome ex_clock\<rparr>]"
proof -
  let ?l = "[(ex_clock, ex_clock, mark_running ex_pending)]"
  obtain a s0 where "lone (Trying (mark_running ex_pending) a 0 ex_clock) ex_marked_db 1 [] s0" using ex_trying ..
  from lone_step [OF this send, of ex_marked_db 1 ?l] this
  obtain s where s: "lone (Sending (mark_running ex_pending) a 0 ex_clock) ex_marked_db 1 ?l s"
    by (auto simp: lone_def)
  let ?r = "ex_req [] ''a''"
  let ?s1 = "s\<lparr>sy_writes := ex_cancelled # sy_writes s\<rparr>"
  let ?s2 = "?s1\<lparr>sy_db := ex_cancelled_db, sy_writes := sy_writes s, sy_disturbed := {''a''}\<rparr>"
  have "GetTask (mem_kv 8) ''a'' ex_marked_db = Inr (Some (mark_running ex_pending))"
    using badger.GetTask_view [OF ex_badger ex_marked_wf, of "''a''"] ex_marked_view by (simp add: ex_id)
  then have "loadTask (w_store ex_world) ?r (sy_db s) = Inr (mark_running ex_pending)"
    using s by (simp add: loadTask_def ex_req_def ex_world_simps lone_def)
  moreover have "edits ex_world (sy_now s) (mark_running ex_pending) ex_cancelled"
    using by_cancel [of "mark_running ex_pending" ex_world ex_clock] s
    by (simp add: ex_cancelled_def lone_def IsTerminal_def status_defs)
  ultimately have s1: "reachable ex_world ex_db ?s1"
    using s by (intro step_on [OF _ serving [OF api_load]]) (simp_all add: lone_def)
  have "ID ex_cancelled = ''a''" by code_simp
  then have "request_step ex_world ?s1 ?s2"
    using api_write [of ?s1 "[]" ex_cancelled "sy_writes s" ex_world] s ex_cancel
    by (simp add: lone_def ex_world_simps)
  with s1 have s2: "reachable ex_world ex_db ?s2" by (rule step_on [OF _ serving])
  have "gstep ex_world ex_pending ?s2 (Sending (mark_running ex_pending) a 0 ex_clock) (observe_try ex_answer ?s2)
      (Some (Finishing ex_outcome ex_clock))"
    using try_ok [of ex_answer ex_world ex_pending ?s2 "mark_running ex_pending" a 0 ex_clock] s
    by (simp add: ex_outcome_def ex_answer_def lone_def)
  from goroutine [where js = "[]" and js' = "[]", OF _ this] s
  have "sstep ex_world ?s2 (with_jobs (resume ex_pending (Some (Finishing ex_outcome ex_clock))) (observe_try ex_answer ?s2))"
    by (simp add: lone_def)
  from step_on [OF s2 this] s show ?thesis
    by (intro exI conjI) (assumption, simp_all add: lone_def resume_def)
qed

lemma outcome_recorded_witness:
  "\<exists>s s' p'. sy_jobs s = [\<lparr>j_task = ex_pending, j_phase = Finishing ex_outcome ex_clock\<rparr>]
    \<and> gstep ex_world ex_pending s (Finishing ex_outcome ex_clock) s' p'
    \<and> view (mem_kv 8) (sy_db s) ''a'' = Some ex_cancelled \<and> Status ex_cancelled = StatusCancelled
    \<and> view (mem_kv 8) (sy_db s') ''a'' = Some (ex_outcome\<lparr>FinishedAt := Some ex_clock\<rparr>)
    \<and> Status ex_outcome = StatusSucceeded"
proof -
  obtain s where s: "reachable ex_world ex_db s" "sy_now s = ex_clock" "sy_db s = ex_cancelled_db"
    "sy_jobs s = [\<lparr>j_task = ex_pending, j_phase = Finishing ex_outcome ex_clock\<rparr>]"
    using ex_cancel_sent by blast
  obtain s' p' where g: "gstep ex_world ex_pending s (Finishing ex_outcome ex_clock) s' p'"
    using finalize by blast
  have "marshal_ok (finish ex_clock ex_outcome)" by code_simp
  from mem_Update [OF ex_room_left(2) this, of Hour]
  have "fst (Update (mem_kv 8) Hour (finish (sy_now s) ex_outcome) (sy_db s)) = None"
    unfolding s(2,3) by (simp add: prod_eq_iff)
  with outcome_recorded [OF ex_badger ex_sound s(1) [unfolded ex_world_def] _ g [unfolded ex_world_def]] s(2,4)
  have "view (mem_kv 8) (sy_db s') ''a'' = Some (ex_outcome\<lparr>FinishedAt := Some ex_clock\<rparr>)" by (simp add: ex_id)
  moreover have "Status ex_cancelled = StatusCancelled" "Status ex_outcome = StatusSucceeded"
    by (simp_all add: ex_cancelled_def cancel_def ex_outcome_def)
  moreover have "view (mem_kv 8) (sy_db s) ''a'' = Some ex_cancelled" by (simp add: s(3) ex_cancelled_view)
  ultimately show ?thesis using s(4) g by blast
qed

end
