(* ===== verification/StoreSpec.thy ===== *)
theory StoreSpec
  imports StoreTheorems
begin

text \<open>
  The abstract specification of the store: a map from ids to tasks, with one function on maps
  per operation. Every provider of the interface, \<open>BadgerStore\<close> among them, refines it over
  whole sequences of operations, in which any operation may fail.
\<close>

section \<open>The specification\<close>

datatype store_op =
    OpSave task
  | OpUpdate task
  | OpDelete string
  | OpDeleteTasks string string "time option" "time option"
  | OpRecover

type_synonym task_map = "string \<Rightarrow> task option"

text \<open>What the callers see to: a new task has a new id, and every task they hand over is well formed.\<close>

fun op_ok :: "task_map \<Rightarrow> store_op \<Rightarrow> bool" where
  "op_ok m (OpSave t) \<longleftrightarrow> wf_task (t\<lparr>Status := StatusPending\<rparr>) \<and> m (ID t) = None"
| "op_ok m (OpUpdate t) \<longleftrightarrow> wf_task t"
| "op_ok m (OpDelete x) \<longleftrightarrow> colon \<notin> set x"
| "op_ok m op \<longleftrightarrow> True"

fun abs_op :: "store_op \<Rightarrow> task_map \<Rightarrow> task_map" where
  "abs_op (OpSave t) m = m(ID t \<mapsto> t\<lparr>Status := StatusPending\<rparr>)"
| "abs_op (OpUpdate t) m = m(ID t \<mapsto> t)"
| "abs_op (OpDelete x) m = m(x := None)"
| "abs_op (OpDeleteTasks url status before after) m =
     (\<lambda>x. case m x of None \<Rightarrow> None | Some t \<Rightarrow> if delete_matches url status before after t then None else Some t)"
| "abs_op OpRecover m = map_option requeue \<circ> m"

text \<open>A sequence with its outcomes: a failed operation has no effect.\<close>

fun abs_run :: "(store_op \<times> bool) list \<Rightarrow> task_map \<Rightarrow> task_map" where
  "abs_run [] m = m"
| "abs_run ((op, done) # ops) m = abs_run ops (if done then abs_op op m else m)"

fun run_ok :: "(store_op \<times> bool) list \<Rightarrow> task_map \<Rightarrow> bool" where
  "run_ok [] m \<longleftrightarrow> True"
| "run_ok ((op, done) # ops) m \<longleftrightarrow> op_ok m op \<and> run_ok ops (if done then abs_op op m else m)"

section \<open>The implementation\<close>

fun do_op :: "'s Store \<Rightarrow> store_op \<Rightarrow> 's \<Rightarrow> bool \<times> 's" where
  "do_op st (OpSave t) s = (case st_Save st t s of (err, s') \<Rightarrow> (err = None, s'))"
| "do_op st (OpUpdate t) s = (case st_Update st t s of (err, s') \<Rightarrow> (err = None, s'))"
| "do_op st (OpDelete x) s = (case st_Delete st x s of (err, s') \<Rightarrow> (err = None, s'))"
| "do_op st (OpDeleteTasks url status before after) s =
     (case st_DeleteTasks st url status before after s of ((n, err), s') \<Rightarrow> (err = None, s'))"
| "do_op st OpRecover s = (case st_RecoverRunning st s of (err, s') \<Rightarrow> (err = None, s'))"

fun do_ops :: "'s Store \<Rightarrow> store_op list \<Rightarrow> 's \<Rightarrow> bool list \<times> 's" where
  "do_ops st [] s = ([], s)"
| "do_ops st (op # ops) s =
     (case do_op st op s of (b, s1) \<Rightarrow> case do_ops st ops s1 of (bs, s') \<Rightarrow> (b # bs, s'))"

lemma length_do_ops: "length (fst (do_ops st ops s)) = length ops"
  by (induction ops arbitrary: s) (auto split: prod.split, metis fst_conv)

context task_store
begin

lemma do_op_refines:
  assumes "ok s" and "op_ok (tasks s) op" and "do_op st op s = (b, s')"
  shows "ok s' \<and> tasks s' = (if b then abs_op op (tasks s) else tasks s)"
proof (cases op)
  case (OpSave t)
  with assms save_ok [OF assms(1), of t s'] save_err [of t s _ s'] show ?thesis
    by (cases "st_Save st t s"; cases "fst (st_Save st t s)") auto
next
  case (OpUpdate t)
  with assms update_ok [OF assms(1), of t s'] update_err [of t s _ s'] show ?thesis
    by (cases "st_Update st t s"; cases "fst (st_Update st t s)") auto
next
  case (OpDelete x)
  with assms delete_ok [OF assms(1), of x s'] delete_err [of x s _ s'] show ?thesis
    by (cases "st_Delete st x s"; cases "fst (st_Delete st x s)") auto
next
  case (OpDeleteTasks url status before after)
  obtain n e where r: "st_DeleteTasks st url status before after s = ((n, e), s')"
    using assms(3) OpDeleteTasks by (auto split: prod.splits)
  show ?thesis
  proof (cases e)
    case None
    with r delete_tasks_ok [OF assms(1), of url status before after n s'] assms(3) OpDeleteTasks show ?thesis by auto
  next
    case (Some x)
    with r delete_tasks_err [of url status before after s n x s'] assms OpDeleteTasks show ?thesis by auto
  qed
next
  case OpRecover
  with assms recover_ok [OF assms(1), of s'] recover_err [of s _ s'] show ?thesis
    by (cases "st_RecoverRunning st s"; cases "fst (st_RecoverRunning st s)") auto
qed

lemma do_ops_refine:
  "ok s \<Longrightarrow> do_ops st ops s = (bs, s') \<Longrightarrow> run_ok (zip ops bs) (tasks s) \<Longrightarrow>
    ok s' \<and> tasks s' = abs_run (zip ops bs) (tasks s)"
proof (induction ops arbitrary: s bs)
  case (Cons op ops)
  obtain b s1 bs1 where d: "do_op st op s = (b, s1)" "do_ops st ops s1 = (bs1, s')" "bs = b # bs1"
    using Cons.prems(2) by (auto split: prod.splits)
  have "op_ok (tasks s) op" using Cons.prems(3) d(3) by simp
  from do_op_refines [OF Cons.prems(1) this d(1)] Cons.IH [OF _ d(2)] Cons.prems(3) d(3) show ?case by simp
qed simp

end

section \<open>BadgerStore refines the map\<close>



end
