(* ===== verification/Dial.thy ===== *)
theory Dial
  imports Executor
begin

text \<open>
  The dial guard of \<open>internal/executor/executor.go\<close>: \<open>blockPrivateDial\<close>, which sees the
  concrete address of every connection, with the parts of Go's \<open>net\<close> package it is made of.
  An IP address is the list of its sixteen bytes, an IPv4 address in its mapped form
  \<open>::ffff:a.b.c.d\<close>, as \<open>net.ParseIP\<close> returns it.
  Proved: the tests of the guard are membership in a list of networks given by prefix bits.
\<close>

unbundle bit_operations_syntax

type_synonym ip = "8 word list"

section \<open>Host and port\<close>

fun last_index :: "char \<Rightarrow> string \<Rightarrow> nat option" where
  "last_index c [] = None"
| "last_index c (x # xs) =
     (case last_index c xs of Some n \<Rightarrow> Some (Suc n) | None \<Rightarrow> if x = c then Some 0 else None)"

fun first_index :: "char \<Rightarrow> string \<Rightarrow> nat option" where
  "first_index c [] = None"
| "first_index c (x # xs) = (if x = c then Some 0 else map_option Suc (first_index c xs))"

text \<open>\<open>net.SplitHostPort\<close>; \<open>None\<close> is one of its errors.\<close>

definition SplitHostPort :: "string \<Rightarrow> (string \<times> string) option" where
  "SplitHostPort s =
     (case last_index colon s of
        None \<Rightarrow> None
      | Some i \<Rightarrow>
          if hd s = CHR ''['' then
            (case first_index (CHR '']'') s of
               None \<Rightarrow> None
             | Some e \<Rightarrow>
                 if e + 1 \<noteq> i then None
                 else if CHR ''['' \<in> set (drop 1 s) \<or> CHR '']'' \<in> set (drop (e + 1) s) then None
                 else Some (drop 1 (take e s), drop (i + 1) s))
          else if colon \<in> set (take i s) then None
          else if CHR ''['' \<in> set s \<or> CHR '']'' \<in> set s then None
          else Some (take i s, drop (i + 1) s))"

section \<open>Parsing addresses\<close>

text \<open>One decimal field: no leading zero, at most 255.\<close>

definition octet :: "string \<Rightarrow> 8 word option" where
  "octet s =
     (if s = [] \<or> \<not> list_all is_digit s \<or> (hd s = CHR ''0'' \<and> 1 < length s) \<or> 255 < digits_value s then None
      else Some (of_nat (digits_value s)))"

definition parseIPv4Fields :: "string \<Rightarrow> 8 word list option" where
  "parseIPv4Fields s =
     (let fs = map octet (split_on (CHR ''.'') s)
      in if length fs = 4 \<and> None \<notin> set fs then Some (map the fs) else None)"

definition hex_val :: "char \<Rightarrow> nat option" where
  "hex_val c =
     (let n = of_char c :: nat
      in if 48 \<le> n \<and> n \<le> 57 then Some (n - 48)
         else if 97 \<le> n \<and> n \<le> 102 then Some (n - 87)
         else if 65 \<le> n \<and> n \<le> 70 then Some (n - 55)
         else None)"

fun hex_run :: "string \<Rightarrow> nat \<Rightarrow> nat \<times> nat \<times> string" where
  "hex_run [] acc = (0, acc, [])"
| "hex_run (c # s) acc =
     (case hex_val c of
        None \<Rightarrow> (0, acc, c # s)
      | Some d \<Rightarrow> (case hex_run s (16 * acc + d) of (n, v, r) \<Rightarrow> (Suc n, v, r)))"

text \<open>
  The loop over the groups: the bytes read so far, the place of the \<open>::\<close> among them, and the
  rest of the text. The result is \<open>None\<close> on an error.
\<close>

function ipv6_groups :: "8 word list \<Rightarrow> nat option \<Rightarrow> string \<Rightarrow> (8 word list \<times> nat option) option" where
  "ipv6_groups bs ellipsis s =
     (if 16 \<le> length bs then (if s = [] then Some (bs, ellipsis) else None)
      else case hex_run s 0 of (off, acc, rest) \<Rightarrow>
        if off = 0 \<or> 4 < off then None
        else if rest \<noteq> [] \<and> hd rest = CHR ''.'' then
          (if ellipsis = None \<and> length bs \<noteq> 12 then None
           else if 16 < length bs + 4 then None
           else map_option (\<lambda>v4. (bs @ v4, ellipsis)) (parseIPv4Fields s))
        else let bs' = bs @ [of_nat (acc div 256), of_nat (acc mod 256)]
          in if rest = [] then Some (bs', ellipsis)
             else if hd rest \<noteq> colon \<or> length rest = 1 then None
             else let s' = tl rest
               in if hd s' = colon then
                    (if ellipsis \<noteq> None then None
                     else if tl s' = [] then Some (bs', Some (length bs'))
                     else ipv6_groups bs' (Some (length bs')) (tl s'))
                  else ipv6_groups bs' ellipsis s')"
  by pat_completeness auto
termination
  by (relation "measure (\<lambda>(bs, e, s). 16 - length bs)") auto

declare ipv6_groups.simps [simp del]

definition parseIPv6 :: "string \<Rightarrow> ip option" where
  "parseIPv6 s =
     (let lead = prefix ''::'' s; s0 = (if lead then drop 2 s else s)
      in if lead \<and> s0 = [] then Some (replicate 16 0)
         else case ipv6_groups [] (if lead then Some 0 else None) s0 of
             None \<Rightarrow> None
           | Some (bs, e) \<Rightarrow>
               if length bs < 16 then
                 map_option (\<lambda>k. take k bs @ replicate (16 - length bs) 0 @ drop k bs) e
               else if e = None then Some bs else None)"

definition v4_prefix :: ip where
  "v4_prefix = replicate 10 0 @ [0xFF, 0xFF]"

text \<open>
  \<open>net.ParseIP\<close>: the first dot or colon decides the form; a zone (\<open>%\<close>) is an error here.
\<close>

definition ParseIP :: "string \<Rightarrow> ip option" where
  "ParseIP s =
     (case find (\<lambda>c. c \<in> {CHR ''.'', colon, CHR ''%''}) s of
        None \<Rightarrow> None
      | Some c \<Rightarrow>
          if c = CHR ''.'' then map_option (append v4_prefix) (parseIPv4Fields s)
          else if c = colon then (if CHR ''%'' \<in> set s then None else parseIPv6 s)
          else None)"

section \<open>Classes of addresses\<close>

definition To4 :: "ip \<Rightarrow> 8 word list option" where
  "To4 ip = (if take 12 ip = v4_prefix then Some (drop 12 ip) else None)"

definition IsUnspecified :: "ip \<Rightarrow> bool" where
  "IsUnspecified ip \<longleftrightarrow> ip = v4_prefix @ [0, 0, 0, 0] \<or> ip = replicate 16 0"

definition IsLoopback :: "ip \<Rightarrow> bool" where
  "IsLoopback ip \<longleftrightarrow> (case To4 ip of Some b \<Rightarrow> b ! 0 = 127 | None \<Rightarrow> ip = replicate 15 0 @ [1])"

definition IsPrivate :: "ip \<Rightarrow> bool" where
  "IsPrivate ip \<longleftrightarrow>
     (case To4 ip of
        Some b \<Rightarrow> b ! 0 = 10 \<or> b ! 0 = 172 \<and> b ! 1 AND 0xF0 = 16 \<or> b ! 0 = 192 \<and> b ! 1 = 168
      | None \<Rightarrow> ip ! 0 AND 0xFE = 0xFC)"

definition IsLinkLocalUnicast :: "ip \<Rightarrow> bool" where
  "IsLinkLocalUnicast ip \<longleftrightarrow>
     (case To4 ip of
        Some b \<Rightarrow> b ! 0 = 169 \<and> b ! 1 = 254
      | None \<Rightarrow> ip ! 0 = 0xFE \<and> ip ! 1 AND 0xC0 = 0x80)"

definition IsLinkLocalMulticast :: "ip \<Rightarrow> bool" where
  "IsLinkLocalMulticast ip \<longleftrightarrow>
     (case To4 ip of
        Some b \<Rightarrow> b ! 0 = 224 \<and> b ! 1 = 0 \<and> b ! 2 = 0
      | None \<Rightarrow> ip ! 0 = 0xFF \<and> ip ! 1 AND 0x0F = 2)"

section \<open>The guard\<close>

datatype dial_error = BadAddress | CannotParse string | Blocked ip

definition blockPrivateDial :: "string \<Rightarrow> dial_error option" where
  "blockPrivateDial address =
     (case SplitHostPort address of
        None \<Rightarrow> Some BadAddress
      | Some (host, port) \<Rightarrow>
          (case ParseIP host of
             None \<Rightarrow> Some (CannotParse address)
           | Some ip \<Rightarrow>
               if IsPrivate ip \<or> IsLoopback ip \<or> IsLinkLocalUnicast ip \<or> IsLinkLocalMulticast ip \<or> IsUnspecified ip
               then Some (Blocked ip) else None))"

text \<open>\<open>newExecutor\<close>: the guard is the \<open>Control\<close> hook of the dialer, or there is none.\<close>

definition dial_control :: "bool \<Rightarrow> string \<Rightarrow> dial_error option" where
  "dial_control guardPrivate address = (if guardPrivate then blockPrivateDial address else None)"

section \<open>Networks\<close>

text \<open>An address as its 128 bits, most significant first, and membership in a network.\<close>

definition byte_bits :: "8 word \<Rightarrow> bool list" where
  "byte_bits b = map (bit b) [7, 6, 5, 4, 3, 2, 1, 0]"

definition ip_bits :: "ip \<Rightarrow> bool list" where
  "ip_bits ip = concat (map byte_bits ip)"

definition in_net :: "ip \<Rightarrow> ip \<times> nat \<Rightarrow> bool" where
  "in_net ip net = (take (snd net) (ip_bits ip) = take (snd net) (ip_bits (fst net)))"

definition v4_net :: "8 word list \<Rightarrow> nat \<Rightarrow> ip \<times> nat" where
  "v4_net bs n = (v4_prefix @ bs, 96 + n)"

definition v6_net :: "8 word \<Rightarrow> 8 word \<Rightarrow> nat \<Rightarrow> ip \<times> nat" where
  "v6_net a b n = ([a, b] @ replicate 14 0, n)"

definition non_public :: "(ip \<times> nat) list" where
  "non_public =
     [v4_net [10, 0, 0, 0] 8, v4_net [172, 16, 0, 0] 12, v4_net [192, 168, 0, 0] 16,
      v4_net [127, 0, 0, 0] 8, v4_net [169, 254, 0, 0] 16, v4_net [224, 0, 0, 0] 24, v4_net [0, 0, 0, 0] 32,
      v6_net 0xFC 0 7, (replicate 15 0 @ [1], 128), v6_net 0xFE 0x80 10, (replicate 16 0, 128)]
     @ map (\<lambda>f. v6_net 0xFF (16 * f + 2) 16) [0, 1, 2, 3, 4, 5, 6, 7, 8, 9, 10, 11, 12, 13, 14, 15]"

lemma less_8: "(\<forall>n < 8. P n) \<longleftrightarrow> P 7 \<and> P 6 \<and> P 5 \<and> P 4 \<and> P 3 \<and> P 2 \<and> P 1 \<and> P (0 :: nat)"
  by (auto simp: eval_nat_numeral All_less_Suc)

lemma byte_eq: "x = y \<longleftrightarrow> (\<forall>n < 8. bit x n = bit y n)" for x y :: "8 word"
  by (auto intro: bit_word_eqI)

lemma byte_bits_eq [simp]: "byte_bits x = byte_bits y \<longleftrightarrow> x = y"
  unfolding byte_eq [of x y] less_8 by (simp add: byte_bits_def)

lemma length_byte_bits [simp]: "length (byte_bits b) = 8"
  by (simp add: byte_bits_def)

text \<open>The masks of the guard, as leading bits of a byte.\<close>

lemma masks:
  "take 4 (byte_bits b) = take 4 (byte_bits 16) \<longleftrightarrow> b AND 0xF0 = 16"
  "take 7 (byte_bits b) = take 7 (byte_bits 0xFC) \<longleftrightarrow> b AND 0xFE = 0xFC"
  "take 2 (byte_bits b) = take 2 (byte_bits 0x80) \<longleftrightarrow> b AND 0xC0 = 0x80"
  unfolding byte_eq [of "b AND _"] less_8 by (auto simp: byte_bits_def bit_simps)

lemma low_nibble:
  "b \<in> set (map (\<lambda>f. 16 * f + 2) [0, 1, 2, 3, 4, 5, 6, 7, 8, 9, 10, 11, 12, 13, 14, 15]) \<longleftrightarrow> b AND 0x0F = (2 :: 8 word)"
  unfolding byte_eq [of "b AND _"] less_8 by (simp add: byte_eq [of b] less_8 bit_simps) argo

lemma ip_bits_Cons [simp]: "ip_bits [] = []" "ip_bits (b # bs) = byte_bits b @ ip_bits bs"
  by (simp_all add: ip_bits_def)

lemma take_bits_Cons:
  "take n (byte_bits b @ xs) = take n (byte_bits c @ ys) \<longleftrightarrow>
    (if n \<le> 8 then take n (byte_bits b) = take n (byte_bits c) else b = c \<and> take (n - 8) xs = take (n - 8) ys)"
  by auto

lemma list_of_16:
  assumes "length (ip :: ip) = 16"
  obtains a b c d e f g h i j k l m n p q where "ip = [a, b, c, d, e, f, g, h, i, j, k, l, m, n, p, q]"
  using assms by (auto simp: length_Suc_conv eval_nat_numeral)

lemma in_v4_net:
  assumes "length ip = 16" and "length bs = 4"
  shows "in_net ip (v4_net bs n) \<longleftrightarrow>
    take 12 ip = v4_prefix \<and> take n (ip_bits (drop 12 ip)) = take n (ip_bits bs)"
  using assms(1)
  by (elim list_of_16) (simp add: in_net_def v4_net_def v4_prefix_def eval_nat_numeral(3) take_bits_Cons numeral_eq_Suc)

text \<open>Each test of the guard is membership in its networks.\<close>

lemma classes:
  assumes "length ip = 16"
  shows "IsPrivate ip \<longleftrightarrow> in_net ip (v4_net [10, 0, 0, 0] 8) \<or> in_net ip (v4_net [172, 16, 0, 0] 12)
      \<or> in_net ip (v4_net [192, 168, 0, 0] 16) \<or> in_net ip (v6_net 0xFC 0 7)"
    and "IsLoopback ip \<longleftrightarrow> in_net ip (v4_net [127, 0, 0, 0] 8) \<or> in_net ip (replicate 15 0 @ [1], 128)"
    and "IsLinkLocalUnicast ip \<longleftrightarrow> in_net ip (v4_net [169, 254, 0, 0] 16) \<or> in_net ip (v6_net 0xFE 0x80 10)"
    and "IsLinkLocalMulticast ip \<longleftrightarrow> in_net ip (v4_net [224, 0, 0, 0] 24)
      \<or> (\<exists>f \<in> set [0, 1, 2, 3, 4, 5, 6, 7, 8, 9, 10, 11, 12, 13, 14, 15]. in_net ip (v6_net 0xFF (16 * f + 2) 16))"
    and "IsUnspecified ip \<longleftrightarrow> in_net ip (v4_net [0, 0, 0, 0] 32) \<or> in_net ip (replicate 16 0, 128)"
proof -
  obtain a b c d e f g h i j k l m n p q where ip: "ip = [a, b, c, d, e, f, g, h, i, j, k, l, m, n, p, q]"
    by (rule list_of_16 [OF assms])
  have v4: "in_net ip (v4_net bs x) \<longleftrightarrow> take 12 ip = v4_prefix \<and> take x (ip_bits (drop 12 ip)) = take x (ip_bits bs)"
    if "length bs = 4" for bs x using in_v4_net [OF assms that] .
  have whole: "in_net ip (ip', 128) \<longleftrightarrow> ip = ip'" if "length ip' = 16" for ip'
    using that by (elim list_of_16) (simp add: in_net_def ip take_bits_Cons)
  have v6: "in_net ip (v6_net x y z) \<longleftrightarrow> take z (byte_bits a @ byte_bits b) = take z (byte_bits x @ byte_bits y)" if "z \<le> 16" for x y z
    using that by (auto simp: in_net_def v6_net_def ip)
  have pre: "v4_prefix = [0, 0, 0, 0, 0, 0, 0, 0, 0, 0, 0xFF, 0xFF]"
    "replicate 15 (0 :: 8 word) = [0, 0, 0, 0, 0, 0, 0, 0, 0, 0, 0, 0, 0, 0, 0]"
    "replicate 16 (0 :: 8 word) = [0, 0, 0, 0, 0, 0, 0, 0, 0, 0, 0, 0, 0, 0, 0, 0]"
    by (simp_all add: v4_prefix_def eval_nat_numeral)
  note nets = v4 v6 whole To4_def pre(2,3) and here = ip pre take_bits_Cons masks
  show "IsPrivate ip \<longleftrightarrow> in_net ip (v4_net [10, 0, 0, 0] 8) \<or> in_net ip (v4_net [172, 16, 0, 0] 12)
      \<or> in_net ip (v4_net [192, 168, 0, 0] 16) \<or> in_net ip (v6_net 0xFC 0 7)"
    by (auto simp: IsPrivate_def nets split: if_splits) (auto simp: here)
  show "IsLoopback ip \<longleftrightarrow> in_net ip (v4_net [127, 0, 0, 0] 8) \<or> in_net ip (replicate 15 0 @ [1], 128)"
    by (auto simp: IsLoopback_def nets split: if_splits) (auto simp: here)
  show "IsLinkLocalUnicast ip \<longleftrightarrow> in_net ip (v4_net [169, 254, 0, 0] 16) \<or> in_net ip (v6_net 0xFE 0x80 10)"
    by (auto simp: IsLinkLocalUnicast_def nets split: if_splits) (auto simp: here)
  let ?fs = "set [0, 1, 2, 3, 4, 5, 6, 7, 8, 9, 10, 11, 12, 13, 14, 15] :: 8 word set"
  have "in_net ip (v6_net 0xFF x 16) \<longleftrightarrow> a = 0xFF \<and> b = x" for x by (simp add: v6 take_bits_Cons)
  moreover have "(\<exists>f \<in> ?fs. b = 16 * f + 2) \<longleftrightarrow> b AND 0x0F = 2"
    unfolding low_nibble [symmetric] by (auto simp only: set_map image_iff)
  ultimately have v6m: "(\<exists>f \<in> ?fs. in_net ip (v6_net 0xFF (16 * f + 2) 16)) \<longleftrightarrow> a = 0xFF \<and> b AND 0x0F = 2" by blast
  have v4m: "in_net ip (v4_net [224, 0, 0, 0] 24) \<longleftrightarrow> take 12 ip = v4_prefix \<and> m = 224 \<and> n = 0 \<and> p = 0"
    by (simp add: v4) (simp add: here)
  show "IsLinkLocalMulticast ip \<longleftrightarrow> in_net ip (v4_net [224, 0, 0, 0] 24)
      \<or> (\<exists>f \<in> ?fs. in_net ip (v6_net 0xFF (16 * f + 2) 16))"
    unfolding v4m v6m by (auto simp: IsLinkLocalMulticast_def To4_def) (auto simp: here)
  show "IsUnspecified ip \<longleftrightarrow> in_net ip (v4_net [0, 0, 0, 0] 32) \<or> in_net ip (replicate 16 0, 128)"
    by (auto simp: IsUnspecified_def nets split: if_splits) (auto simp: here)
qed

section \<open>What is parsed\<close>

lemma parseIPv4Fields_length: "parseIPv4Fields s = Some bs \<Longrightarrow> length bs = 4"
  by (auto simp: parseIPv4Fields_def Let_def split: if_splits)

lemma ipv6_groups_length:
  "ipv6_groups bs e s = Some (bs', e') \<Longrightarrow> length bs \<le> 16 \<Longrightarrow> even (length bs) \<Longrightarrow> length bs' \<le> 16"
proof (induction bs e s rule: ipv6_groups.induct)
  case (1 bs e s)
  obtain off acc rest where h: "hex_run s 0 = (off, acc, rest)" by (metis prod_cases3)
  let ?bs = "bs @ [of_nat (acc div 256), of_nat (acc mod 256)]"
  show ?case
  proof (cases "16 \<le> length bs")
    case True
    with "1.prems" show ?thesis by (subst (asm) ipv6_groups.simps) (auto split: if_splits)
  next
    case False
    then have "length bs \<le> 14" using "1.prems"(3) by presburger
    then have l: "length ?bs \<le> 16" and e: "even (length ?bs)" using "1.prems"(3) by auto
    note step = "1.prems"(1) [unfolded ipv6_groups.simps [of bs e s] h]
    show ?thesis
    proof (cases "off = 0 \<or> 4 < off \<or> rest = [] \<or> hd rest = CHR ''.'' \<or> hd rest \<noteq> colon \<or> length rest = 1
        \<or> hd (tl rest) = colon \<and> (e \<noteq> None \<or> tl (tl rest) = [])")
      case True
      with step l show ?thesis
        by (auto simp: Let_def split: if_splits dest: parseIPv4Fields_length)
    next
      case go: False
      show ?thesis
      proof (cases "hd (tl rest) = colon")
        case True
        from True step go False have "ipv6_groups ?bs (Some (length ?bs)) (tl (tl rest)) = Some (bs', e')"
          by (simp add: Let_def)
        with "1.IH"(1) [OF False h [symmetric] refl _ _ refl _ _ refl] go True l e show ?thesis by simp
      next
        case t: False
        from t step go False have "ipv6_groups ?bs e (tl rest) = Some (bs', e')" by (simp add: Let_def)
        with "1.IH"(2) [OF False h [symmetric] refl _ _ refl _ _ refl] go t l e show ?thesis by simp
      qed
    qed
  qed
qed

lemma ParseIP_length:
  assumes "ParseIP s = Some ip"
  shows "length ip = 16"
proof -
  have "length ip = 16" if "parseIPv6 t = Some ip" for t
    using that ipv6_groups_length [of "[]"]
    by (fastforce simp: parseIPv6_def Let_def split: if_splits option.splits prod.splits)
  with assms show ?thesis
    by (auto simp: ParseIP_def v4_prefix_def dest: parseIPv4Fields_length split: option.splits if_splits)
qed

section \<open>The guard against the networks\<close>

text \<open>
  C24: With the guard on, a connection is allowed exactly when the address splits into host and
  port, the host is an IP address, and that address lies in none of the listed networks:
  the private, loopback, link-local and unspecified ranges of IPv4 (in mapped form) and IPv6.
  What cannot be read is refused. With the guard off every connection is allowed.
\<close>
theorem dial_guard_exact:
  "dial_control guard address = None \<longleftrightarrow>
    (if guard then \<exists>host port ip. SplitHostPort address = Some (host, port) \<and> ParseIP host = Some ip
       \<and> \<not> list_ex (in_net ip) non_public
     else True)"
proof -
  have "(IsPrivate ip \<or> IsLoopback ip \<or> IsLinkLocalUnicast ip \<or> IsLinkLocalMulticast ip \<or> IsUnspecified ip)
      \<longleftrightarrow> list_ex (in_net ip) non_public" if "ParseIP host = Some ip" for host ip
    unfolding classes [OF ParseIP_length [OF that]] non_public_def
    by (simp add: disj_ac)
  then show ?thesis
    by (auto simp: dial_control_def blockPrivateDial_def split: option.splits prod.splits)
qed

section \<open>IPv4 addresses as text\<close>

lemma digits_value_dec: "digits_value (dec_digits n) = n"
proof (induction n rule: dec_digits.induct)
  case (1 n)
  then show ?case by (subst dec_digits.simps) (simp add: digits_value_def)
qed

lemma dec_digits_all: "list_all is_digit (dec_digits n)"
  by (induction n rule: dec_digits.induct) (subst dec_digits.simps, simp)

lemma dec_digits_not_Nil [simp]: "dec_digits n \<noteq> []"
  by (subst dec_digits.simps) simp

lemma hd_dec_digits: "0 < n \<Longrightarrow> hd (dec_digits n) \<noteq> CHR ''0''"
proof (induction n rule: dec_digits.induct)
  case (1 n)
  show ?case
  proof (cases "n < 10")
    case True
    with "1.prems" show ?thesis by (subst dec_digits.simps) (simp add: zero_char)
  next
    case False
    with "1.IH" show ?thesis by (subst dec_digits.simps) (simp add: hd_append)
  qed
qed

lemma octet_dec: "octet (dec_digits (unat b)) = Some b"
proof (cases "unat b = 0")
  case True
  then show ?thesis by (simp add: octet_def digits_value_dec dec_digits_all unat_eq_zero)
      (simp add: dec_digits.simps [of 0] digits_value_def)
next
  case False
  then have "hd (dec_digits (unat b)) \<noteq> CHR ''0''" by (intro hd_dec_digits) simp
  moreover have "unat b < 2 ^ LENGTH(8)" by (rule unsigned_less)
  ultimately show ?thesis by (simp add: octet_def digits_value_dec dec_digits_all)
qed

lemma digits_avoid: "list_all is_digit s \<Longrightarrow> \<not> is_digit c \<Longrightarrow> c \<notin> set s"
  by (auto simp: list_all_iff)

definition dotted :: "8 word list \<Rightarrow> string" where
  "dotted bs = join_with (CHR ''.'') (map (\<lambda>b. dec_digits (unat b)) bs)"

lemma parse_dotted: "length bs = 4 \<Longrightarrow> parseIPv4Fields (dotted bs) = Some bs"
proof -
  assume l: "length bs = 4"
  have "CHR ''.'' \<notin> set (dec_digits n)" for n
    by (rule digits_avoid [OF dec_digits_all]) (simp add: is_digit_def)
  then have "split_on (CHR ''.'') (dotted bs) = map (\<lambda>b. dec_digits (unat b)) bs"
    unfolding dotted_def using l by (intro split_on_join) auto
  then show ?thesis
    by (auto simp: parseIPv4Fields_def l octet_dec o_def map_idI)
qed

lemma last_index_append: "c \<notin> set p \<Longrightarrow> last_index c (h @ c # p) = Some (length h)"
proof -
  assume "c \<notin> set p"
  then have "last_index c p = None" by (induction p) auto
  then have "last_index c (c # p) = Some 0" by simp
  then show ?thesis by (induction h) auto
qed

lemma SplitHostPort_plain:
  assumes "h \<noteq> []" and "{colon, CHR ''['', CHR '']''} \<inter> (set h \<union> set p) = {}"
  shows "SplitHostPort (h @ colon # p) = Some (h, p)"
proof -
  have "last_index colon (h @ colon # p) = Some (length h)" using assms by (intro last_index_append) auto
  moreover have "hd (h @ colon # p) \<noteq> CHR ''[''" using assms by (cases h) auto
  ultimately show ?thesis using assms by (auto simp: SplitHostPort_def)
qed

definition non_public_v4 :: "(8 word list \<times> nat) list" where
  "non_public_v4 =
     [([10, 0, 0, 0], 8), ([172, 16, 0, 0], 12), ([192, 168, 0, 0], 16), ([127, 0, 0, 0], 8),
      ([169, 254, 0, 0], 16), ([224, 0, 0, 0], 24), ([0, 0, 0, 0], 32)]"

text \<open>
  Every IPv4 address in dotted form with a port is recognised as itself: the guard blocks it
  exactly when it lies in 10/8, 172.16/12, 192.168/16, 127/8, 169.254/16 (which holds the
  cloud metadata address), 224.0.0/24 or is 0.0.0.0, and says which address it blocked.
\<close>
theorem dial_ipv4:
  "blockPrivateDial (dotted [a, b, c, d] @ colon # dec_digits port) =
    (if list_ex (\<lambda>(net, n). take n (ip_bits [a, b, c, d]) = take n (ip_bits net)) non_public_v4
     then Some (Blocked (v4_prefix @ [a, b, c, d])) else None)"
proof -
  let ?bs = "[a, b, c, d]" and ?ip = "v4_prefix @ [a, b, c, d]"
  have avoid: "c' \<notin> set (dotted ?bs)" if "\<not> is_digit c'" "c' \<noteq> CHR ''.''" for c'
    using digits_avoid [OF dec_digits_all that(1)] that(2) by (simp add: dotted_def)
  have "SplitHostPort (dotted ?bs @ colon # dec_digits port) = Some (dotted ?bs, dec_digits port)"
  proof (rule SplitHostPort_plain)
    have n: "\<not> is_digit (CHR ''['')" "\<not> is_digit (CHR '']'')" by (simp_all add: is_digit_def)
    then show "{colon, CHR ''['', CHR '']''} \<inter> (set (dotted ?bs) \<union> set (dec_digits port)) = {}"
      using avoid digits_avoid [OF dec_digits_all] by simp
  qed (simp add: dotted_def)
  moreover have "ParseIP (dotted ?bs) = Some ?ip"
  proof -
    have "CHR ''.'' \<in> set (dotted ?bs)" by (simp add: dotted_def)
    moreover have "colon \<notin> set (dotted ?bs)" "CHR ''%'' \<notin> set (dotted ?bs)"
      by (rule avoid; simp add: is_digit_def)+
    ultimately have "find (\<lambda>x. x \<in> {CHR ''.'', colon, CHR ''%''}) (dotted ?bs) = Some (CHR ''.'')"
      by (intro find_unique) auto
    then show ?thesis by (simp add: ParseIP_def parse_dotted)
  qed
  moreover have "To4 ?ip = Some ?bs" by (simp add: To4_def v4_prefix_def)
  moreover have "?ip \<noteq> replicate 16 0"
  proof
    assume "?ip = replicate 16 0"
    then have "?ip ! 10 = replicate 16 0 ! 10" by simp
    then show False by (simp add: v4_prefix_def nth_append)
  qed
  moreover have "list_ex (\<lambda>(net, n). take n (ip_bits ?bs) = take n (ip_bits net)) non_public_v4 \<longleftrightarrow>
      a = 10 \<or> a = 172 \<and> b AND 0xF0 = 16 \<or> a = 192 \<and> b = 168 \<or> a = 127 \<or> a = 169 \<and> b = 254
      \<or> a = 224 \<and> b = 0 \<and> c = 0 \<or> a = 0 \<and> b = 0 \<and> c = 0 \<and> d = 0"
    by (simp add: non_public_v4_def take_bits_Cons masks)
  ultimately show ?thesis
    by (auto simp: blockPrivateDial_def IsPrivate_def IsLoopback_def IsLinkLocalUnicast_def
        IsLinkLocalMulticast_def IsUnspecified_def)
qed

end
