(* ===== verification/Spec2Isabelle.thy ===== *)
theory Spec2Isabelle
  imports Shutdown FateTheorems StoreSpec Dial
begin

text \<open>
  A verification development for Schedy, a single-binary scheduler of HTTP calls.

  The program. A client posts tasks to an HTTP API (\<open>internal/api\<close>). They are kept in
  BadgerDB under keys that order them by status, second and id (\<open>internal/scheduler\<close>). A loop
  (\<open>internal/runner\<close>) reads the tasks of the next ten seconds at every tick and starts one
  goroutine per task, which waits for the task's time and a delivery slot, reads the task again,
  marks it running, sends its request (\<open>internal/executor\<close>) with retries, records the outcome,
  reports a failure and creates the successor of a recurring task. \<open>internal/metrics\<close> counts.
  \<open>cmd/schedy/main.go\<close> reads the settings, opens the store, requeues what a crash left
  running, starts all of this, and ends it in order on an interrupt.

  Conventions. A Go struct is a record with the source's field names, an \<open>int\<close> a 64-bit word,
  an instant a number of nanoseconds, a nil error \<open>None\<close>, a pair of a value and an error a sum.
  What lies outside the repository is an argument of the definitions that use it: BadgerDB
  (\<open>'db kv\<close>, \<open>disk\<close>), the answers of the network, \<open>url.Parse\<close>, the parser of HTTP dates, the
  keyed hash, the clock, random numbers and UUIDs. What is relied on is said by the locale
  \<open>badger\<close> (a transaction sees its own writes, keys are sorted, a commit applies all or
  nothing; any call may fail), by \<open>faithful_backup\<close> and \<open>faithful_gc\<close>, and by the clock
  lying before the year 10000 (\<open>sane_clock\<close>), where keys have sixteen digits.
\<close>

text \<open>
  The theories, from the bottom up.

  \<^item> Go's library. \<open>Prelude\<close> (sorted lists, prefixes), \<open>GoText\<close> (\<open>strconv\<close>, \<open>strings\<close>, \<open>%d\<close>),
    \<open>GoTime\<close>, \<open>GoParse\<close> (\<open>ParseDuration\<close>, RFC 3339), \<open>Base64Url\<close>, \<open>Json\<close> (documents as values),
    \<open>Float64\<close> (rounding, shortest digits, \<open>%g\<close>). Mostly round trips and ranges.
  \<^item> Data. \<open>Task\<close> (\<open>scheduler/task.go\<close>), \<open>Attempt\<close> (\<open>runner/attempt.go\<close>), \<open>Metrics\<close> and
    \<open>Exposition\<close> (\<open>metrics/metrics.go\<close>).
  \<^item> The store. \<open>Keys\<close> and \<open>BadgerStore\<close> are \<open>scheduler/badger_store.go\<close> over the calls of
    \<open>Badger\<close>. \<open>StoreView\<close> gives the abstraction: the map from ids to tasks that a database
    holds, under the invariant \<open>wf_store\<close>; \<open>StoreProps\<close> and \<open>StoreScans\<close> describe each
    operation by it. \<open>StoreIface\<close> is the interface of \<open>scheduler/store.go\<close>: the record \<open>Store\<close>
    and the locale \<open>task_store\<close>, with \<open>BadgerStore\<close> as an instance for every \<open>badger\<close>;
    \<open>Expiry\<close> extends it by what entries with a TTL do on their own. \<open>StoreSpec\<close> is the
    specification as a map and the refinement over sequences of operations. \<open>MemStore\<close> is a
    concrete database for the witnesses, \<open>StoreTheorems\<close> holds the properties.
  \<^item> Deliveries. \<open>Executor\<close> (\<open>executor/executor.go\<close>) and its dial guard \<open>Dial\<close>; \<open>Runner\<close>
    (\<open>runner/runner.go\<close>, the body of a goroutine read sequentially, \<open>run_task\<close>, and a tick,
    \<open>runOnce\<close>); \<open>DeliveryProps\<close>, \<open>RunnerProps\<close>, \<open>RunnerTheorems\<close>.
  \<^item> The API. \<open>Request\<close> and \<open>Handler\<close> (\<open>api/handler.go\<close>) over any \<open>Store\<close>; \<open>HandlerProps\<close>,
    \<open>HandlerTheorems\<close>, \<open>ScrapeTheorems\<close>; \<open>Server\<close> (\<open>api/cors.go\<close> and the routes) with
    \<open>ServerTheorems\<close>.
  \<^item> The process. \<open>System\<close> is the interleaving of the loop, the goroutines, the handlers, the
    clock, expiry, crashes and restarts as a step relation; \<open>SystemClaims\<close>, \<open>SystemData\<close>,
    \<open>SystemTiming\<close>, \<open>SystemRuns\<close>, \<open>SystemBound\<close> are its invariants, \<open>SystemAlone\<close> and
    \<open>ProcessTheorems\<close> tie its steps to \<open>run_task\<close>, \<open>runOnce\<close> and \<open>serve\<close>, and
    \<open>SystemTheorems\<close> states what holds over \<open>BadgerStore\<close>. \<open>SystemKept\<close> and \<open>FateTheorems\<close>
    say what becomes of a stored task: how it can disappear, and who has the last word on it.
  \<^item> Around it. \<open>Config\<close> (environment, \<open>logging\<close>, \<open>version\<close>), \<open>Disk\<close> (backup, restore, garbage
    collection), \<open>Startup\<close> (\<open>main\<close> up to serving) and \<open>Shutdown\<close> (\<open>main\<close> from the interrupt on,
    with the drain of the runner and the end of the garbage collection).

  Clients are proved against locales, once for every provider: \<open>HandlerProps\<close>, \<open>RunnerProps\<close>
  and \<open>StoreSpec\<close> in \<open>task_store\<close>, the system's theories in \<open>expiring_store\<close>. The
  properties then instantiate them with \<open>BadgerStore\<close> over an arbitrary \<open>badger\<close>.
\<close>

text \<open>
  The step relations. A step of \<open>System\<close> is the code between two points at which another
  goroutine can see or change shared state: at most one call of the store, one reception from
  a timer or the semaphore, one request sent or answered. \<open>loop_step\<close> is the loop of \<open>Start\<close>,
  \<open>gstep\<close> a goroutine by its \<open>phase\<close>, \<open>request_step\<close> the handlers. \<open>Shutdown\<close> runs
  these under the order that \<open>main\<close> and \<open>Start\<close> impose on them when they stop, and every one
  of its states is one of \<open>System\<close>. Four fields (\<open>sy_log\<close>, \<open>sy_calls\<close>, \<open>sy_disturbed\<close>,
  \<open>sy_lost\<close>) and two (\<open>p_cut\<close>, \<open>p_gave_up\<close>) only record what happened.

  Loops and bounds. \<open>duplicate_loop\<close> and \<open>gc_passes\<close> need not end by their own text: they are
  partial functions, and it is proved that they return (over the contract of the store; if a
  successful collection leaves less to collect). \<open>deliver_loop\<close> takes the answers of the
  network as an argument and ends because the retry counter grows. \<open>walk_pages\<close>
  follows cursors for at most \<open>fuel\<close> pages; any number above the number of matching tasks is
  shown to suffice. \<open>ParseDuration\<close> uses the length of its text, shown to be enough. \<open>Float64\<close>
  looks for the shortest digits among at most 17, which always identify a double, and for a
  decimal point within 400 places, more than a double has.

  Not modelled. The wrappers \<open>runner/ticker.go\<close> and \<open>runner/timer.go\<close> only forward to
  \<open>time\<close>; a tick and a firing timer are steps. The bytes of JSON (a document is a value, and
  \<open>NotJson\<close> stands for bytes that are none), the listening socket, TLS and the connection pool
  of the HTTP client, log lines, response headers other than those of CORS, and the flag
  parser are left out. After its store is closed \<open>main\<close> returns at once; goroutines that a
  timeout left behind are not followed beyond that point. Data of a previous version of the
  program, or put into the database by other means, is outside the invariant \<open>wf_store\<close>.
\<close>

end
